(* ===== verification/Blog_Prelude.thy ===== *)
theory Blog_Prelude
  imports Main
begin

text \<open>
  Shared vocabulary of the blog development. A relational table of the
  application (\<open>users\<close>, \<open>blog_posts\<close>, \<open>comments\<close> in \<open>src/main.py\<close>) is a
  list of rows in rowid order together with the projection to its integer
  primary key. This theory holds the generic operations SQLite and the ORM
  perform on such a table (lookup by primary key, rowid allocation, delete,
  in-place update), the table invariant (keys strictly increasing) and the
  abstraction of a table to a finite map, with the refinement lemmas that the
  list operations implement map lookup, update and deletion.
\<close>

named_theorems table_simps "equations of the generic table operations"
named_theorems table_intros "preservation of the table invariant"

type_synonym 'r table = "'r list"

subsection \<open>Operations\<close>

text \<open>\<open>SELECT ... WHERE id = i\<close>: the first row whose key is \<open>i\<close>.\<close>

fun find_row :: "('r \<Rightarrow> nat) \<Rightarrow> nat \<Rightarrow> 'r table \<Rightarrow> 'r option" where
  "find_row key i [] = None"
| "find_row key i (r # rs) = (if key r = i then Some r else find_row key i rs)"

text \<open>
  SQLite allocates the rowid of an \<open>INTEGER PRIMARY KEY\<close> column declared
  without \<open>AUTOINCREMENT\<close> as one more than the largest rowid in the table,
  and 1 in an empty table.
\<close>

definition max_id :: "('r \<Rightarrow> nat) \<Rightarrow> 'r table \<Rightarrow> nat" where
  "max_id key t = foldr (\<lambda>r m. max (key r) m) t 0"

definition next_id :: "('r \<Rightarrow> nat) \<Rightarrow> 'r table \<Rightarrow> nat" where
  "next_id key t = Suc (max_id key t)"

definition delete_row :: "('r \<Rightarrow> nat) \<Rightarrow> nat \<Rightarrow> 'r table \<Rightarrow> 'r table" where
  "delete_row key i t = filter (\<lambda>r. key r \<noteq> i) t"

definition update_row :: "('r \<Rightarrow> nat) \<Rightarrow> nat \<Rightarrow> ('r \<Rightarrow> 'r) \<Rightarrow> 'r table \<Rightarrow> 'r table" where
  "update_row key i f t = map (\<lambda>r. if key r = i then f r else r) t"

text \<open>The table invariant: primary keys strictly increasing in rowid order.\<close>

definition keys_ok :: "('r \<Rightarrow> nat) \<Rightarrow> 'r table \<Rightarrow> bool" where
  "keys_ok key t \<longleftrightarrow> sorted_wrt (<) (map key t)"

text \<open>The abstraction of a table to the finite map from keys to rows.\<close>

definition table_map :: "('r \<Rightarrow> nat) \<Rightarrow> 'r table \<Rightarrow> nat \<rightharpoonup> 'r" where
  "table_map key t = (\<lambda>i. find_row key i t)"

subsection \<open>Lookup\<close>

lemma find_row_SomeD [dest]:
  "find_row key i t = Some r \<Longrightarrow> r \<in> set t \<and> key r = i"
  by (induction t) (auto split: if_splits)

lemma find_row_None_iff [simp]:
  "find_row key i t = None \<longleftrightarrow> i \<notin> key ` set t"
  by (induction t) auto

lemma find_row_append [table_simps]:
  "find_row key i (t @ u) =
     (case find_row key i t of None \<Rightarrow> find_row key i u | Some r \<Rightarrow> Some r)"
  by (induction t) auto

lemma find_row_in_keys:
  "i \<in> key ` set t \<Longrightarrow> \<exists>r. find_row key i t = Some r"
  by (metis find_row_None_iff not_None_eq)

text \<open>\<open>.scalar()\<close> on a query with a \<open>WHERE\<close> clause: the first matching row.\<close>

lemma find_append_fresh:
  "\<forall>x \<in> set xs. \<not> P x \<Longrightarrow> find P (xs @ ys) = find P ys"
  by (induction xs) auto

text \<open>In a table whose keys (or another column) are distinct, lookup finds the row.\<close>

lemma find_row_distinct:
  "distinct (map key t) \<Longrightarrow> r \<in> set t \<Longrightarrow> find_row key (key r) t = Some r"
  by (induction t) (auto simp: image_iff)

lemma find_distinct:
  "distinct (map f t) \<Longrightarrow> r \<in> set t \<Longrightarrow> find (\<lambda>x. f x = f r) t = Some r"
  by (induction t) (auto simp: image_iff)

text \<open>A finite table leaves a string value unused.\<close>

lemma fresh_string: "\<exists>x :: string. x \<notin> f ` set t"
  using ex_new_if_finite [OF infinite_UNIV_listI, of "f ` set t"] by blast

subsection \<open>Rowid allocation\<close>

lemma max_id_ge: "r \<in> set t \<Longrightarrow> key r \<le> max_id key t"
  by (induction t) (auto simp: max_id_def)

lemma next_id_gt: "r \<in> set t \<Longrightarrow> key r < next_id key t"
  using max_id_ge [of r t key] by (simp add: next_id_def)

lemma next_id_fresh [simp]: "next_id key t \<notin> key ` set t"
  using next_id_gt by (metis imageE less_irrefl)

lemma next_id_pos [simp]: "0 < next_id key t"
  by (simp add: next_id_def)

lemma next_id_Nil [simp]: "next_id key [] = 1"
  by (simp add: next_id_def max_id_def)

text \<open>
  The fold over the table computes the reference definition of the
  allocation: one more than the largest key, or 1 for an empty table.
\<close>

lemma max_id_Max: "max_id key t = (if t = [] then 0 else Max (key ` set t))"
  by (induction t) (auto simp: max_id_def Max_insert)

lemma next_id_Max: "next_id key t = (if t = [] then 1 else Suc (Max (key ` set t)))"
  by (simp add: next_id_def max_id_Max)

text \<open>How each table operation moves the largest key.\<close>

lemma max_id_foldr: "foldr (\<lambda>r m. max (key r) m) t x = max (max_id key t) x"
proof (induction t)
  case Nil
  show ?case by (simp add: max_id_def)
next
  case (Cons r t)
  have "foldr (\<lambda>r m. max (key r) m) (r # t) x = max (key r) (foldr (\<lambda>r m. max (key r) m) t x)"
    by simp
  also have "\<dots> = max (key r) (max (max_id key t) x)" by (simp only: Cons.IH)
  also have "\<dots> = max (max_id key (r # t)) x" by (simp add: max_id_def max.assoc)
  finally show ?case .
qed

lemma max_id_snoc: "max_id key (t @ [r]) = max (max_id key t) (key r)"
  using max_id_foldr [of key t "key r"] by (simp add: max_id_def)

lemma max_id_delete_le: "max_id key (delete_row key i t) \<le> max_id key t"
  by (induction t) (auto simp: delete_row_def max_id_def)

lemma max_id_update:
  "(\<And>r. key (f r) = key r) \<Longrightarrow> max_id key (update_row key i f t) = max_id key t"
  by (induction t) (auto simp: update_row_def max_id_def)

subsection \<open>The table invariant\<close>

lemma keys_ok_Nil [simp, table_intros]: "keys_ok key []"
  by (simp add: keys_ok_def)

lemma keys_ok_distinct: "keys_ok key t \<Longrightarrow> distinct (map key t)"
  by (simp add: keys_ok_def strict_sorted_iff)

text \<open>A table in rowid order is the table sorted by its key.\<close>

lemma keys_ok_sort_key: "keys_ok key t \<Longrightarrow> sort_key key t = t"
  by (simp add: keys_ok_def strict_sorted_imp_sorted sort_key_id_if_sorted)

lemma keys_ok_append_next [table_intros]:
  "keys_ok key t \<Longrightarrow> key r = next_id key t \<Longrightarrow> keys_ok key (t @ [r])"
  by (auto simp: keys_ok_def sorted_wrt_append next_id_gt)

lemma keys_ok_delete [table_intros]:
  "keys_ok key t \<Longrightarrow> keys_ok key (delete_row key i t)"
  unfolding keys_ok_def delete_row_def
  by (induction t) auto

lemma keys_ok_update [table_intros]:
  assumes "keys_ok key t" and "\<And>r. key (f r) = key r"
  shows "keys_ok key (update_row key i f t)"
proof -
  have "map key (update_row key i f t) = map key t"
    using assms(2) by (induction t) (auto simp: update_row_def)
  with assms(1) show ?thesis by (simp add: keys_ok_def)
qed

lemma keys_update_row [simp]:
  "(\<And>r. key (f r) = key r) \<Longrightarrow> key ` set (update_row key i f t) = key ` set t"
  by (induction t) (auto simp: update_row_def)

lemma keys_delete_row [simp]:
  "key ` set (delete_row key i t) = key ` set t - {i}"
  by (auto simp: delete_row_def)

subsection \<open>Unique columns\<close>

text \<open>
  An in-place update of the row with key \<open>i\<close> keeps a \<open>UNIQUE\<close> column
  \<open>g\<close> duplicate-free when the new value differs from the value of every
  other row.
\<close>

lemma update_row_other [simp]:
  "i \<notin> key ` set t \<Longrightarrow> update_row key i f t = t"
  by (induction t) (auto simp: update_row_def)

lemma distinct_update_row:
  assumes "distinct (map key t)" and "distinct (map g t)"
    and "\<And>r r'. r \<in> set t \<Longrightarrow> r' \<in> set t \<Longrightarrow> key r = i \<Longrightarrow> key r' \<noteq> i \<Longrightarrow> g (f r) \<noteq> g r'"
  shows "distinct (map g (update_row key i f t))"
  using assms
proof (induction t)
  case Nil
  then show ?case by (simp add: update_row_def)
next
  case (Cons r t)
  show ?case
  proof (cases "key r = i")
    case True
    with Cons.prems(1) have "update_row key i f t = t"
      by (auto intro: update_row_other)
    from Cons.prems(1) True have "\<forall>r' \<in> set t. key r' \<noteq> i" by (auto simp: image_iff)
    with Cons.prems(3) True have "\<forall>r' \<in> set t. g (f r) \<noteq> g r'" by auto
    with True Cons.prems(2) \<open>update_row key i f t = t\<close> show ?thesis
      by (auto simp: update_row_def)
  next
    case False
    with Cons show ?thesis
      by (fastforce simp: update_row_def)
  qed
qed

lemma set_delete_row [simp]: "set (delete_row key i t) = {r \<in> set t. key r \<noteq> i}"
  by (simp add: delete_row_def)

lemma distinct_delete_row [table_intros]:
  "distinct (map g t) \<Longrightarrow> distinct (map g (delete_row key i t))"
  by (simp add: delete_row_def distinct_map_filter)

lemma set_update_row_subset:
  "r \<in> set (update_row key i f t) \<Longrightarrow> r \<in> set t \<or> (\<exists>r' \<in> set t. r = f r')"
  by (auto simp: update_row_def split: if_splits)

subsection \<open>Refinement: the list operations implement a finite map\<close>

lemma find_row_snoc_fresh:
  "key r \<notin> key ` set t \<Longrightarrow>
     find_row key i (t @ [r]) = (if i = key r then Some r else find_row key i t)"
  by (induction t) auto

lemma table_map_append_fresh [table_simps]:
  "key r \<notin> key ` set t \<Longrightarrow> table_map key (t @ [r]) = (table_map key t)(key r \<mapsto> r)"
  by (rule ext) (simp add: table_map_def find_row_snoc_fresh)

lemma table_map_delete [table_simps]:
  "table_map key (delete_row key i t) = (table_map key t)(i := None)"
  unfolding table_map_def delete_row_def
  by (rule ext, induction t) auto

lemma table_map_update [table_simps]:
  assumes "\<And>r. key (f r) = key r"
  shows "table_map key (update_row key i f t) = (table_map key t)(i := map_option f (table_map key t i))"
  unfolding table_map_def update_row_def
  by (rule ext, induction t) (auto simp: assms)

lemma dom_table_map [simp]: "dom (table_map key t) = key ` set t"
  by (auto simp: table_map_def intro: find_row_in_keys)

lemma ran_table_map:
  assumes "distinct (map key t)"
  shows "ran (table_map key t) = set t"
proof
  show "ran (table_map key t) \<subseteq> set t"
    by (auto simp: ran_def table_map_def)
  show "set t \<subseteq> ran (table_map key t)"
    using find_row_distinct [OF assms] by (auto simp: ran_def table_map_def)
qed

end
