(* ===== verification/Models.thy ===== *)
theory Models
  imports Blog_Prelude
begin

text \<open>
  The persistent store of \<open>src/main.py\<close>: the ORM classes \<open>User\<close>,
  \<open>BlogPost\<close> and \<open>Comment\<close> (tables \<open>users\<close>, \<open>blog_posts\<close>,
  \<open>comments\<close>) as records, the database as a record of three tables, and
  one definition per ORM statement the route handlers execute: the
  \<open>select\<close> queries, \<open>get_or_404\<close> lookups, and the inserts, the in-place
  update and the delete that \<open>db.session.commit()\<close> flushes. Columns are
  \<open>Mapped[int]\<close> or \<open>Mapped[str]\<close> without \<open>Optional\<close>, so SQLAlchemy
  declares every one of them \<open>NOT NULL\<close>; \<open>email\<close> and \<open>title\<close> are
  \<open>UNIQUE\<close>. A commit that violates a constraint raises
  \<open>IntegrityError\<close>, which the model returns as \<open>Inl IntegrityError\<close>
  with the database unchanged (the transaction is rolled back).
\<close>

record user =
  user_id :: nat
  email :: string
  password :: string
  name :: string

record blog_post =
  post_id :: nat
  title :: string
  subtitle :: string
  date :: string
  body :: string
  img_url :: string
  author_id :: nat

record comment =
  comment_id :: nat
  cmt_author_id :: nat
  cmt_post_id :: nat
  comment_text :: string

record db =
  users :: "user table"
  blog_posts :: "blog_post table"
  comments :: "comment table"

text \<open>
  The Python exceptions the code lets escape (each becomes an HTTP 500):
  \<open>sqlalchemy.exc.IntegrityError\<close> from a commit, \<open>AttributeError\<close> from
  reading \<open>id\<close> of the anonymous user, and \<open>RuntimeError\<close>, which Flask's
  \<open>NullSession\<close> raises on a session write when no secret key is set (see
  \<open>Config\<close>).
\<close>

datatype exn = IntegrityError | AttributeError | RuntimeError

definition empty_db :: db where
  "empty_db = \<lparr>users = [], blog_posts = [], comments = []\<rparr>"

subsection \<open>Queries\<close>

text \<open>\<open>db.session.execute(db.select(User).where(User.email == e)).scalar()\<close>\<close>

definition select_user_by_email :: "db \<Rightarrow> string \<Rightarrow> user option" where
  "select_user_by_email d e = find (\<lambda>u. email u = e) (users d)"

text \<open>\<open>db.get_or_404(User, i)\<close> and \<open>db.get_or_404(BlogPost, i)\<close> before the 404.\<close>

definition get_user :: "db \<Rightarrow> nat \<Rightarrow> user option" where
  "get_user d i = find_row user_id i (users d)"

definition get_post :: "db \<Rightarrow> nat \<Rightarrow> blog_post option" where
  "get_post d i = find_row post_id i (blog_posts d)"

text \<open>The \<open>BlogPost.comments\<close> relationship: comments whose \<open>post_id\<close> is the post's.\<close>

definition post_comments :: "db \<Rightarrow> nat \<Rightarrow> comment list" where
  "post_comments d pid = filter (\<lambda>c. cmt_post_id c = pid) (comments d)"

text \<open>
  The other relationships, as the templates navigate them: \<open>BlogPost.author\<close>
  and \<open>Comment.comment_author\<close>, \<open>Comment.parent_post\<close> (many-to-one,
  a lookup of the foreign key) and \<open>User.posts\<close>, \<open>User.comments\<close>
  (one-to-many, the rows whose foreign key is the user's id);
  \<open>back_populates\<close> makes each pair two views of the same foreign key.
\<close>

definition post_author :: "db \<Rightarrow> blog_post \<Rightarrow> user option" where
  "post_author d p = get_user d (author_id p)"

definition comment_author :: "db \<Rightarrow> comment \<Rightarrow> user option" where
  "comment_author d c = get_user d (cmt_author_id c)"

definition parent_post :: "db \<Rightarrow> comment \<Rightarrow> blog_post option" where
  "parent_post d c = get_post d (cmt_post_id c)"

definition user_posts :: "db \<Rightarrow> nat \<Rightarrow> blog_post list" where
  "user_posts d uid = filter (\<lambda>p. author_id p = uid) (blog_posts d)"

definition user_comments :: "db \<Rightarrow> nat \<Rightarrow> comment list" where
  "user_comments d uid = filter (\<lambda>c. cmt_author_id c = uid) (comments d)"

text \<open>\<open>db.session.execute(db.select(BlogPost)).scalars().all()\<close>, in rowid order.\<close>

definition all_posts :: "db \<Rightarrow> blog_post list" where
  "all_posts d = blog_posts d"

subsection \<open>Writes\<close>

text \<open>
  \<open>db.session.add(User(email=e, password=h, name=n)); db.session.commit()\<close>:
  a new rowid, and the \<open>UNIQUE\<close> constraint on \<open>email\<close>.
\<close>

definition insert_user :: "db \<Rightarrow> string \<Rightarrow> string \<Rightarrow> string \<Rightarrow> exn + (user \<times> db)" where
  "insert_user d e h n =
     (if list_ex (\<lambda>u. email u = e) (users d) then Inl IntegrityError
      else let u = \<lparr>user_id = next_id user_id (users d), email = e, password = h, name = n\<rparr>
           in Inr (u, d\<lparr>users := users d @ [u]\<rparr>))"

text \<open>\<open>BlogPost(title=.., subtitle=.., body=.., img_url=.., author=.., date=..)\<close>, added and committed.\<close>

definition insert_post ::
  "db \<Rightarrow> string \<Rightarrow> string \<Rightarrow> string \<Rightarrow> string \<Rightarrow> nat \<Rightarrow> string \<Rightarrow> exn + (blog_post \<times> db)" where
  "insert_post d t st b img a dt =
     (if list_ex (\<lambda>p. title p = t) (blog_posts d) then Inl IntegrityError
      else let p = \<lparr>post_id = next_id post_id (blog_posts d), title = t, subtitle = st,
                    date = dt, body = b, img_url = img, author_id = a\<rparr>
           in Inr (p, d\<lparr>blog_posts := blog_posts d @ [p]\<rparr>))"

text \<open>
  \<open>edit_post\<close>'s assignments to \<open>post.title\<close>, \<open>post.subtitle\<close>,
  \<open>post.img_url\<close>, \<open>post.author\<close>, \<open>post.body\<close> and the commit: the
  \<open>UPDATE\<close> fails when another post already has the new title.
\<close>

definition set_post_fields ::
  "string \<Rightarrow> string \<Rightarrow> string \<Rightarrow> nat \<Rightarrow> string \<Rightarrow> blog_post \<Rightarrow> blog_post" where
  "set_post_fields t st img a b p =
     p\<lparr>title := t, subtitle := st, img_url := img, author_id := a, body := b\<rparr>"

definition update_post ::
  "db \<Rightarrow> nat \<Rightarrow> string \<Rightarrow> string \<Rightarrow> string \<Rightarrow> nat \<Rightarrow> string \<Rightarrow> exn + db" where
  "update_post d pid t st img a b =
     (if list_ex (\<lambda>p. title p = t \<and> post_id p \<noteq> pid) (blog_posts d) then Inl IntegrityError
      else Inr (d\<lparr>blog_posts :=
                  update_row post_id pid (set_post_fields t st img a b) (blog_posts d)\<rparr>))"

text \<open>
  \<open>db.session.delete(post); db.session.commit()\<close>. The relationship
  \<open>BlogPost.comments\<close> has no \<open>delete\<close> cascade, so on flush the ORM
  de-associates the post's comments by writing \<open>NULL\<close> into their
  \<open>post_id\<close>; that column is \<open>NOT NULL\<close>, so the flush raises
  \<open>IntegrityError\<close> whenever the post has a comment.
\<close>

definition delete_post_row :: "db \<Rightarrow> nat \<Rightarrow> exn + db" where
  "delete_post_row d pid =
     (if post_comments d pid \<noteq> [] then Inl IntegrityError
      else Inr (d\<lparr>blog_posts := delete_row post_id pid (blog_posts d)\<rparr>))"

text \<open>\<open>Comment(text=.., comment_author=.., parent_post=..)\<close>, added and committed.\<close>

definition insert_comment :: "db \<Rightarrow> string \<Rightarrow> nat \<Rightarrow> nat \<Rightarrow> comment \<times> db" where
  "insert_comment d txt a pid =
     (let c = \<lparr>comment_id = next_id comment_id (comments d), cmt_author_id = a,
               cmt_post_id = pid, comment_text = txt\<rparr>
      in (c, d\<lparr>comments := comments d @ [c]\<rparr>))"

subsection \<open>The store invariant\<close>

text \<open>
  Primary keys are strictly increasing in every table, the \<open>UNIQUE\<close>
  columns hold no duplicate, and every foreign key names an existing row.
\<close>

definition user_ids :: "db \<Rightarrow> nat set" where
  "user_ids d = user_id ` set (users d)"

definition post_ids :: "db \<Rightarrow> nat set" where
  "post_ids d = post_id ` set (blog_posts d)"

definition db_inv :: "db \<Rightarrow> bool" where
  "db_inv d \<longleftrightarrow>
     keys_ok user_id (users d) \<and> keys_ok post_id (blog_posts d) \<and>
     keys_ok comment_id (comments d) \<and>
     distinct (map email (users d)) \<and> distinct (map title (blog_posts d)) \<and>
     (\<forall>p \<in> set (blog_posts d). author_id p \<in> user_ids d) \<and>
     (\<forall>c \<in> set (comments d). cmt_author_id c \<in> user_ids d \<and> cmt_post_id c \<in> post_ids d)"


lemmas store_defs = select_user_by_email_def get_user_def get_post_def post_comments_def
  all_posts_def insert_user_def insert_post_def update_post_def delete_post_row_def
  insert_comment_def

lemmas inv_defs = db_inv_def user_ids_def post_ids_def

lemma db_inv_empty: "db_inv empty_db"
  by (simp add: db_inv_def empty_db_def)

subsection \<open>Each write keeps the invariant\<close>

lemma insert_user_Inr:
  "insert_user d e h n = Inr (u, d') \<longleftrightarrow>
     e \<notin> email ` set (users d) \<and>
     u = \<lparr>user_id = next_id user_id (users d), email = e, password = h, name = n\<rparr> \<and>
     d' = d\<lparr>users := users d @ [u]\<rparr>"
  by (auto simp: insert_user_def list_ex_iff Let_def)

lemma insert_user_inv:
  assumes "db_inv d" and "insert_user d e h n = Inr (u, d')"
  shows "db_inv d'"
proof -
  from assms(2) have e: "e \<notin> email ` set (users d)"
    and u: "user_id u = next_id user_id (users d)" "email u = e"
    and d': "d' = d\<lparr>users := users d @ [u]\<rparr>"
    by (auto simp: insert_user_Inr)
  have "user_ids d \<subseteq> user_ids d'" by (auto simp: d' user_ids_def)
  with assms(1) e u show ?thesis
    by (auto simp: d' inv_defs intro: keys_ok_append_next)
qed

lemma insert_post_Inr:
  "insert_post d t st b img a dt = Inr (p, d') \<longleftrightarrow>
     t \<notin> title ` set (blog_posts d) \<and>
     p = \<lparr>post_id = next_id post_id (blog_posts d), title = t, subtitle = st,
          date = dt, body = b, img_url = img, author_id = a\<rparr> \<and>
     d' = d\<lparr>blog_posts := blog_posts d @ [p]\<rparr>"
  by (auto simp: insert_post_def list_ex_iff Let_def)

lemma insert_post_inv:
  assumes "db_inv d" and "a \<in> user_ids d" and "insert_post d t st b img a dt = Inr (p, d')"
  shows "db_inv d'"
proof -
  from assms(3) have t: "t \<notin> title ` set (blog_posts d)"
    and p: "post_id p = next_id post_id (blog_posts d)" "title p = t" "author_id p = a"
    and d': "d' = d\<lparr>blog_posts := blog_posts d @ [p]\<rparr>"
    by (auto simp: insert_post_Inr)
  have "post_ids d \<subseteq> post_ids d'" by (auto simp: d' post_ids_def)
  with assms(1,2) t p show ?thesis
    by (auto simp: d' inv_defs intro: keys_ok_append_next)
qed

lemma update_post_Inr:
  "update_post d pid t st img a b = Inr d' \<longleftrightarrow>
     (\<forall>p \<in> set (blog_posts d). title p = t \<longrightarrow> post_id p = pid) \<and>
     d' = d\<lparr>blog_posts := update_row post_id pid (set_post_fields t st img a b) (blog_posts d)\<rparr>"
  by (auto simp: update_post_def list_ex_iff)

lemma set_post_fields_simps [simp]:
  "post_id (set_post_fields t st img a b p) = post_id p"
  "title (set_post_fields t st img a b p) = t"
  "date (set_post_fields t st img a b p) = date p"
  "author_id (set_post_fields t st img a b p) = a"
  by (simp_all add: set_post_fields_def)

lemma update_post_inv:
  assumes "db_inv d" and "a \<in> user_ids d" and "update_post d pid t st img a b = Inr d'"
  shows "db_inv d'"
proof -
  let ?f = "set_post_fields t st img a b"
  from assms(3) have t: "\<forall>p \<in> set (blog_posts d). title p = t \<longrightarrow> post_id p = pid"
    and d': "d' = d\<lparr>blog_posts := update_row post_id pid ?f (blog_posts d)\<rparr>"
    by (auto simp: update_post_Inr)
  from assms(1) have keys: "distinct (map post_id (blog_posts d))"
    by (simp add: db_inv_def keys_ok_distinct)
  have titles: "distinct (map title (update_row post_id pid ?f (blog_posts d)))"
    by (rule distinct_update_row) (use assms(1) keys t in \<open>auto simp: db_inv_def\<close>)
  have authors: "\<forall>p \<in> set (update_row post_id pid ?f (blog_posts d)). author_id p \<in> user_ids d"
    using assms(1,2) by (auto simp: db_inv_def dest!: set_update_row_subset)
  have "post_ids d' = post_ids d" by (simp add: d' post_ids_def)
  with assms(1) titles authors show ?thesis
    by (auto simp: d' db_inv_def user_ids_def intro: keys_ok_update)
qed

lemma delete_post_row_Inr:
  "delete_post_row d pid = Inr d' \<longleftrightarrow>
     (\<forall>c \<in> set (comments d). cmt_post_id c \<noteq> pid) \<and>
     d' = d\<lparr>blog_posts := delete_row post_id pid (blog_posts d)\<rparr>"
  by (auto simp: delete_post_row_def post_comments_def filter_empty_conv)

lemma delete_post_row_inv:
  assumes "db_inv d" and "delete_post_row d pid = Inr d'"
  shows "db_inv d'"
proof -
  from assms(2) have c: "\<forall>c \<in> set (comments d). cmt_post_id c \<noteq> pid"
    and d': "d' = d\<lparr>blog_posts := delete_row post_id pid (blog_posts d)\<rparr>"
    by (auto simp: delete_post_row_Inr)
  have "post_ids d' = post_ids d - {pid}" by (auto simp: d' post_ids_def)
  with assms(1) c show ?thesis
    by (auto simp: d' db_inv_def user_ids_def intro: keys_ok_delete distinct_delete_row)
qed

lemma insert_comment_inv:
  assumes "db_inv d" and "a \<in> user_ids d" and "pid \<in> post_ids d"
    and "insert_comment d txt a pid = (c, d')"
  shows "db_inv d'"
proof -
  from assms(4) have c: "comment_id c = next_id comment_id (comments d)"
      "cmt_author_id c = a" "cmt_post_id c = pid"
    and d': "d' = d\<lparr>comments := comments d @ [c]\<rparr>"
    by (auto simp: insert_comment_def Let_def)
  from assms(1) c(1) have "keys_ok comment_id (comments d @ [c])"
    by (simp add: db_inv_def keys_ok_append_next)
  with assms(1-3) c(2,3) show ?thesis
    by (auto simp: d' inv_defs)
qed


subsection \<open>Writes to posts and comments leave the users table alone\<close>

lemma insert_post_users: "insert_post d t st b img a dt = Inr (p, d') \<Longrightarrow> users d' = users d"
  by (auto simp: insert_post_Inr)

lemma update_post_users: "update_post d pid t st img a b = Inr d' \<Longrightarrow> users d' = users d"
  by (auto simp: update_post_Inr)

lemma delete_post_row_users: "delete_post_row d pid = Inr d' \<Longrightarrow> users d' = users d"
  by (auto simp: delete_post_row_Inr)

lemma insert_comment_users: "insert_comment d m a pid = (c, d') \<Longrightarrow> users d' = users d"
  by (auto simp: insert_comment_def Let_def)


lemma insert_user_content:
  "insert_user d e h n = Inr (u, d') \<Longrightarrow> blog_posts d' = blog_posts d \<and> comments d' = comments d"
  by (auto simp: insert_user_Inr)

lemma insert_comment_posts [simp]: "blog_posts (snd (insert_comment d m a pid)) = blog_posts d"
  by (auto simp: insert_comment_def Let_def)

subsection \<open>Query results\<close>

lemma get_user_SomeD: "get_user d i = Some u \<Longrightarrow> u \<in> set (users d) \<and> user_id u = i"
  by (auto simp: get_user_def)

lemma user_id_in_user_ids: "u \<in> set (users d) \<Longrightarrow> user_id u \<in> user_ids d"
  by (simp add: user_ids_def)

lemma select_user_by_email_SomeD:
  "select_user_by_email d e = Some u \<Longrightarrow> u \<in> set (users d) \<and> email u = e"
  by (auto simp: select_user_by_email_def dest: find_Some_iff[THEN iffD1] simp: nth_mem)

lemma select_user_by_email_None:
  "select_user_by_email d e = None \<longleftrightarrow> e \<notin> email ` set (users d)"
  by (auto simp: select_user_by_email_def find_None_iff)

lemma get_post_SomeD: "get_post d i = Some p \<Longrightarrow> p \<in> set (blog_posts d) \<and> post_id p = i"
  by (auto simp: get_post_def)


subsection \<open>The listing order\<close>

text \<open>
  The query of \<open>get_all_posts\<close> has no \<open>ORDER BY\<close>; SQLite returns the
  rows in rowid order, which under the invariant is the order of increasing
  post id.
\<close>

lemma all_posts_sorted: "db_inv d \<Longrightarrow> all_posts d = sort_key post_id (blog_posts d)"
  by (simp add: all_posts_def db_inv_def keys_ok_sort_key)

subsection \<open>Relationships\<close>

lemma get_user_stored:
  "db_inv d \<Longrightarrow> u \<in> set (users d) \<Longrightarrow> get_user d (user_id u) = Some u"
  by (simp add: get_user_def db_inv_def find_row_distinct keys_ok_distinct)

lemma get_user_in_ids:
  "db_inv d \<Longrightarrow> i \<in> user_ids d \<Longrightarrow> \<exists>u. get_user d i = Some u \<and> u \<in> set (users d) \<and> user_id u = i"
  by (auto simp: user_ids_def get_user_stored)

text \<open>
  In a store that satisfies the invariant every many-to-one relationship
  resolves to a stored row, and each one-to-many relationship is the inverse
  of its many-to-one partner.
\<close>

lemma relationships_resolve:
  assumes "db_inv d"
  shows "p \<in> set (blog_posts d) \<Longrightarrow> \<exists>u. post_author d p = Some u \<and> u \<in> set (users d)"
    and "c \<in> set (comments d) \<Longrightarrow> \<exists>u. comment_author d c = Some u \<and> u \<in> set (users d)"
    and "c \<in> set (comments d) \<Longrightarrow> \<exists>p. parent_post d c = Some p \<and> p \<in> set (blog_posts d)"
proof -
  have fk: "\<forall>p \<in> set (blog_posts d). author_id p \<in> user_ids d"
    "\<forall>c \<in> set (comments d). cmt_author_id c \<in> user_ids d \<and> cmt_post_id c \<in> post_ids d"
    using assms by (simp_all add: db_inv_def)
  show "p \<in> set (blog_posts d) \<Longrightarrow> \<exists>u. post_author d p = Some u \<and> u \<in> set (users d)"
    using fk(1) get_user_in_ids [OF assms] by (fastforce simp: post_author_def)
  show "c \<in> set (comments d) \<Longrightarrow> \<exists>u. comment_author d c = Some u \<and> u \<in> set (users d)"
    using fk(2) get_user_in_ids [OF assms] by (fastforce simp: comment_author_def)
  show "\<exists>p. parent_post d c = Some p \<and> p \<in> set (blog_posts d)" if c: "c \<in> set (comments d)"
  proof -
    from c fk(2) have "cmt_post_id c \<in> post_id ` set (blog_posts d)" by (auto simp: post_ids_def)
    from find_row_in_keys [OF this]
    obtain p where "find_row post_id (cmt_post_id c) (blog_posts d) = Some p" ..
    then show ?thesis by (auto simp: parent_post_def get_post_def)
  qed
qed

lemma user_posts_inverse:
  "db_inv d \<Longrightarrow> u \<in> set (users d) \<Longrightarrow>
     p \<in> set (user_posts d (user_id u)) \<longleftrightarrow> p \<in> set (blog_posts d) \<and> post_author d p = Some u"
  by (auto simp: user_posts_def post_author_def get_user_stored dest: get_user_SomeD)

lemma user_comments_inverse:
  "db_inv d \<Longrightarrow> u \<in> set (users d) \<Longrightarrow>
     c \<in> set (user_comments d (user_id u)) \<longleftrightarrow> c \<in> set (comments d) \<and> comment_author d c = Some u"
  by (auto simp: user_comments_def comment_author_def get_user_stored dest: get_user_SomeD)

subsection \<open>Refinement of the content store\<close>

text \<open>
  Seen through the abstraction \<open>table_map\<close> (the finite map from ids to
  rows), inserting a post is a map update at an id that was not yet used,
  with the row carrying the given title, author and date.
\<close>

lemma insert_post_refines:
  "insert_post d t st b img a dt = Inr (p, d') \<Longrightarrow>
     post_id p \<notin> dom (table_map post_id (blog_posts d)) \<and>
     table_map post_id (blog_posts d') = (table_map post_id (blog_posts d))(post_id p \<mapsto> p) \<and>
     title p = t \<and> author_id p = a \<and> date p = dt"
  by (auto simp: insert_post_Inr table_map_append_fresh)


subsection \<open>Reuse of post ids\<close>

lemma delete_row_last:
  "key p \<notin> key ` set ps \<Longrightarrow> delete_row key (key p) (ps @ [p]) = ps"
  by (induction ps) (auto simp: delete_row_def)

text \<open>
  C29. Post ids are not stable over time: \<open>id\<close> is an \<open>INTEGER PRIMARY
  KEY\<close> without \<open>AUTOINCREMENT\<close>, so when the most recent post is deleted
  the next post created receives the deleted post's id, and a link
  \<open>/post/<id>\<close> to the deleted post then shows the new one.
\<close>

theorem deleted_post_id_reused:
  assumes "blog_posts d = ps @ [p]" and "post_id p = next_id post_id ps"
    and "delete_post_row d (post_id p) = Inr d'"
    and "insert_post d' t st b img a dt = Inr (p', d'')"
  shows "post_id p' = post_id p"
proof -
  have "post_id p \<notin> post_id ` set ps" using assms(2) by simp
  then have "blog_posts d' = ps"
    using assms(1,3) by (simp add: delete_post_row_Inr delete_row_last)
  with assms(2,4) show ?thesis by (simp add: insert_post_Inr)
qed

theorem deleted_post_id_reused_witness:
  "delete_post_row (\<lparr>users = [], blog_posts = [\<lparr>post_id = 1, title = ''Hello'', subtitle = ''World'',
       date = ''November 09, 2026'', body = ''Body'', img_url = ''http://x/y.png'', author_id = 1\<rparr>],
       comments = []\<rparr>) 1 = Inr empty_db \<and>
   insert_post empty_db ''Other'' ''Sub'' ''Text'' ''http://x/z.png'' 1 ''November 10, 2026'' =
     Inr (\<lparr>post_id = 1, title = ''Other'', subtitle = ''Sub'', date = ''November 10, 2026'',
           body = ''Text'', img_url = ''http://x/z.png'', author_id = 1\<rparr>,
          empty_db\<lparr>blog_posts := [\<lparr>post_id = 1, title = ''Other'', subtitle = ''Sub'',
           date = ''November 10, 2026'', body = ''Text'', img_url = ''http://x/z.png'', author_id = 1\<rparr>]\<rparr>) \<and>
   post_id \<lparr>post_id = 1, title = ''Other'', subtitle = ''Sub'', date = ''November 10, 2026'',
           body = ''Text'', img_url = ''http://x/z.png'', author_id = 1::nat\<rparr> = 1"
proof -
  let ?p = "\<lparr>post_id = 1, title = ''Hello'', subtitle = ''World'',
       date = ''November 09, 2026'', body = ''Body'', img_url = ''http://x/y.png'', author_id = 1::nat\<rparr>"
  let ?q = "\<lparr>post_id = 1, title = ''Other'', subtitle = ''Sub'', date = ''November 10, 2026'',
           body = ''Text'', img_url = ''http://x/z.png'', author_id = 1::nat\<rparr>"
  let ?d = "\<lparr>users = [], blog_posts = [?p], comments = []\<rparr>"
  have del: "delete_post_row ?d 1 = Inr empty_db"
    by (simp add: delete_post_row_def post_comments_def delete_row_def empty_db_def)
  have ins: "insert_post empty_db ''Other'' ''Sub'' ''Text'' ''http://x/z.png'' 1 ''November 10, 2026'' =
     Inr (?q, empty_db\<lparr>blog_posts := [?q]\<rparr>)"
    by (simp add: insert_post_def empty_db_def Let_def)
  have "post_id ?q = post_id ?p"
    using deleted_post_id_reused [of ?d "[]" ?p empty_db "''Other''" "''Sub''" "''Text''"
        "''http://x/z.png''" 1 "''November 10, 2026''" ?q "empty_db\<lparr>blog_posts := [?q]\<rparr>"] del ins
    by simp
  with del ins show ?thesis by simp
qed

end
