(* ===== verification/Sessions.thy ===== *)
theory Sessions
  imports Models
begin

text \<open>
  The per-client session of Flask and Flask-Login as \<open>src/main.py\<close> uses it:
  \<open>login_user\<close> binds the session to a user id (\<open>session["_user_id"]\<close>),
  \<open>logout_user\<close> unbinds it, \<open>flash\<close> appends to the session's message
  queue, and \<open>current_user\<close> resolves the bound id through the
  \<open>user_loader\<close> callback \<open>load_user\<close>, which is \<open>db.get_or_404(User,
  user_id)\<close>: an id that no longer resolves aborts the request with 404.
  Without a bound id the current user is Flask-Login's anonymous user, which
  has no \<open>id\<close> attribute. The decorator \<open>admin_only\<close> reads
  \<open>current_user.id\<close> and aborts with 403 unless it is 1.
\<close>

record session =
  sess_user_id :: "nat option"
  flashes :: "string list"

definition empty_session :: session where
  "empty_session = \<lparr>sess_user_id = None, flashes = []\<rparr>"

datatype actor = Anonymous | Authenticated user

text \<open>The outcomes that end a request without a response of the handler.\<close>

datatype http_error = NotFound | Forbidden | InternalError exn

definition login_user :: "session \<Rightarrow> user \<Rightarrow> session" where
  "login_user s u = s\<lparr>sess_user_id := Some (user_id u)\<rparr>"

definition logout_user :: "session \<Rightarrow> session" where
  "logout_user s = s\<lparr>sess_user_id := None\<rparr>"

definition flash :: "session \<Rightarrow> string \<Rightarrow> session" where
  "flash s msg = s\<lparr>flashes := flashes s @ [msg]\<rparr>"

definition load_user :: "db \<Rightarrow> nat \<Rightarrow> http_error + user" where
  "load_user d i = (case get_user d i of None \<Rightarrow> Inl NotFound | Some u \<Rightarrow> Inr u)"

definition current_user :: "db \<Rightarrow> session \<Rightarrow> http_error + actor" where
  "current_user d s =
     (case sess_user_id s of
        None \<Rightarrow> Inr Anonymous
      | Some i \<Rightarrow> (case load_user d i of Inl e \<Rightarrow> Inl e | Inr u \<Rightarrow> Inr (Authenticated u)))"

definition is_authenticated :: "actor \<Rightarrow> bool" where
  "is_authenticated a = (case a of Anonymous \<Rightarrow> False | Authenticated u \<Rightarrow> True)"

text \<open>
  \<open>if current_user.id != 1: return abort(403)\<close>; on the anonymous user the
  attribute read raises \<open>AttributeError\<close>.
\<close>

definition admin_only :: "actor \<Rightarrow> http_error + user" where
  "admin_only a =
     (case a of
        Anonymous \<Rightarrow> Inl (InternalError AttributeError)
      | Authenticated u \<Rightarrow> if user_id u \<noteq> 1 then Inl Forbidden else Inr u)"

text \<open>The two states of a session in the spec (section 4.2).\<close>

datatype sess_state = Anon | Auth nat

definition abs_session :: "session \<Rightarrow> sess_state" where
  "abs_session s = (case sess_user_id s of None \<Rightarrow> Anon | Some i \<Rightarrow> Auth i)"

lemmas session_defs = login_user_def logout_user_def flash_def

text \<open>The session invariant: a bound id names a stored user.\<close>

definition sess_inv :: "db \<Rightarrow> session \<Rightarrow> bool" where
  "sess_inv d s \<longleftrightarrow> (\<forall>i. sess_user_id s = Some i \<longrightarrow> i \<in> user_ids d)"

subsection \<open>Resolving the current user\<close>

lemma current_user_Authenticated:
  "current_user d s = Inr (Authenticated u) \<Longrightarrow>
     u \<in> set (users d) \<and> sess_user_id s = Some (user_id u)"
  by (auto simp: current_user_def load_user_def dest: get_user_SomeD
      split: option.splits sum.splits)

lemma current_user_Anonymous:
  "current_user d s = Inr Anonymous \<longleftrightarrow> sess_user_id s = None"
  by (auto simp: current_user_def load_user_def split: option.splits sum.splits)

lemma sess_inv_current_user:
  "sess_inv d s \<Longrightarrow> \<exists>a. current_user d s = Inr a"
  by (auto simp: sess_inv_def current_user_def load_user_def get_user_def user_ids_def
      split: option.splits dest: find_row_in_keys)

lemma sess_inv_flash [simp]: "sess_inv d (flash s m) = sess_inv d s"
  by (simp add: sess_inv_def flash_def)

lemma sess_inv_logout [simp]: "sess_inv d (logout_user s)"
  by (simp add: sess_inv_def logout_user_def)

lemma sess_inv_login:
  "user_id u \<in> user_ids d \<Longrightarrow> sess_inv d (login_user s u)"
  by (simp add: sess_inv_def login_user_def)

lemma sess_inv_mono:
  "sess_inv d s \<Longrightarrow> user_ids d \<subseteq> user_ids d' \<Longrightarrow> sess_inv d' s"
  by (auto simp: sess_inv_def)

end
