(* ===== verification/Passwords.thy ===== *)
theory Passwords
  imports Blog_Prelude
begin

text \<open>
  The password hashing the application delegates to werkzeug
  (\<open>generate_password_hash(form_password, salt_length=8)\<close> in \<open>register\<close>,
  \<open>check_password_hash(email_query.password, form_password)\<close> in \<open>login\<close>).
  The stored hash is the string \<open>method$salt$digest\<close>; checking splits the
  stored string at its first two \<open>$\<close> signs (Python's \<open>split("$", 2)\<close>, a
  string with fewer than two fails to unpack and the check answers \<open>False\<close>)
  and compares the recomputed digest. The key-derivation function itself
  (scrypt) is a parameter \<open>h\<close> of type \<open>digest_fn\<close>: it maps the method
  string, the salt and the password to the hex digest. The salt is drawn by
  werkzeug's \<open>gen_salt\<close> from ASCII letters and digits; the model receives it
  as an input of the request, so every choice of salt is covered.
\<close>

type_synonym digest_fn = "string \<Rightarrow> string \<Rightarrow> string \<Rightarrow> string"

definition default_method :: string where
  "default_method = ''scrypt:32768:8:1''"

definition salt_chars :: string where
  "salt_chars = ''abcdefghijklmnopqrstuvwxyzABCDEFGHIJKLMNOPQRSTUVWXYZ0123456789''"

text \<open>A salt \<open>gen_salt(8)\<close> can return.\<close>

definition salt_ok :: "string \<Rightarrow> bool" where
  "salt_ok s \<longleftrightarrow> length s = 8 \<and> list_all (\<lambda>c. c \<in> set salt_chars) s"

text \<open>\<open>s.split(c, 1)\<close> when \<open>c\<close> occurs in \<open>s\<close>.\<close>

fun split_once :: "char \<Rightarrow> string \<Rightarrow> (string \<times> string) option" where
  "split_once c [] = None"
| "split_once c (x # xs) =
     (if x = c then Some ([], xs) else map_option (\<lambda>(a, b). (x # a, b)) (split_once c xs))"

definition generate_password_hash :: "digest_fn \<Rightarrow> string \<Rightarrow> string \<Rightarrow> string" where
  "generate_password_hash h pw salt =
     default_method @ ''$'' @ salt @ ''$'' @ h default_method salt pw"

definition check_password_hash :: "digest_fn \<Rightarrow> string \<Rightarrow> string \<Rightarrow> bool" where
  "check_password_hash h pwhash pw =
     (case split_once CHR ''$'' pwhash of
        None \<Rightarrow> False
      | Some (m, rest) \<Rightarrow>
          (case split_once CHR ''$'' rest of
             None \<Rightarrow> False
           | Some (salt, hashval) \<Rightarrow> h m salt pw = hashval))"

subsection \<open>Splitting\<close>

lemma split_once_append [simp]:
  "c \<notin> set a \<Longrightarrow> split_once c (a @ c # b) = Some (a, b)"
  by (induction a) auto

lemma dollar_notin_default_method [simp]: "CHR ''$'' \<notin> set default_method"
  by (simp add: default_method_def)

lemma dollar_notin_salt_chars: "CHR ''$'' \<notin> set salt_chars"
  by (simp add: salt_chars_def)

lemma salt_ok_no_dollar: "salt_ok s \<Longrightarrow> CHR ''$'' \<notin> set s"
  using dollar_notin_salt_chars by (auto simp: salt_ok_def list_all_iff)

text \<open>What checking a freshly generated hash compares.\<close>

lemma check_generated:
  assumes "CHR ''$'' \<notin> set salt"
  shows "check_password_hash h (generate_password_hash h pw salt) pw' \<longleftrightarrow>
           h default_method salt pw' = h default_method salt pw"
proof -
  have "generate_password_hash h pw salt =
          default_method @ CHR ''$'' # (salt @ CHR ''$'' # h default_method salt pw)"
    by (simp add: generate_password_hash_def)
  with assms show ?thesis by (simp add: check_password_hash_def)
qed


subsection \<open>Properties\<close>

lemma split_once_None: "c \<notin> set s \<Longrightarrow> split_once c s = None"
  by (induction s) auto

lemma split_once_Some_in: "split_once c s = Some (a, b) \<Longrightarrow> c \<in> set s"
  by (induction s arbitrary: a) (auto split: if_splits)

text \<open>
  Checking a password against a hash werkzeug generated with one of its
  salts succeeds for the password the hash was made from, and, when the
  key-derivation function has no collision for that salt, for no other
  password.
\<close>

lemma check_generated_hash_iff:
  "salt_ok salt \<Longrightarrow> inj (h default_method salt) \<Longrightarrow>
     check_password_hash h (generate_password_hash h pw salt) pw' \<longleftrightarrow> pw' = pw"
  by (simp add: check_generated salt_ok_no_dollar inj_eq)

text \<open>
  A stored hash with fewer than two \<open>$\<close> separators (for instance a
  plaintext password) never verifies, whatever password is offered: the
  unpacking of \<open>split("$", 2)\<close> fails and the check answers \<open>False\<close>.
\<close>

lemma check_malformed_hash:
  "length (filter (\<lambda>c. c = CHR ''$'') pwhash) < 2 \<Longrightarrow> \<not> check_password_hash h pwhash pw"
proof (cases "split_once CHR ''$'' pwhash")
  case None
  then show ?thesis by (simp add: check_password_hash_def)
next
  case (Some ab)
  then obtain m rest where sp: "split_once CHR ''$'' pwhash = Some (m, rest)" by (cases ab) auto
  assume cnt: "length (filter (\<lambda>c. c = CHR ''$'') pwhash) < 2"
  have "pwhash = m @ CHR ''$'' # rest"
    using sp by (induction pwhash arbitrary: m) (auto split: if_splits)
  with cnt have "CHR ''$'' \<notin> set rest"
    by (auto simp: filter_empty_conv length_Suc_conv dest: split_list)
  with sp show ?thesis by (simp add: check_password_hash_def split_once_None)
qed

end
