(* ===== verification/Dates.thy ===== *)
theory Dates
  imports Blog_Prelude
begin

text \<open>
  The publication date of a post: \<open>add_new_post\<close> stores
  \<open>date.today().strftime("%B %d, %Y")\<close>, e.g. \<open>November 09, 2026\<close>. A
  Python \<open>datetime.date\<close> holds a year in \<open>1..9999\<close>, a month in
  \<open>1..12\<close> and a day valid for that month; \<open>%B\<close> is the English month
  name of the C locale, \<open>%d\<close> the day as two digits, and \<open>%Y\<close> the
  year in decimal (glibc does not pad years below 1000). The theory also
  holds a parser for that format, the inverse the round-trip theorem is
  stated with.
\<close>

record date =
  year :: nat
  month :: nat
  day :: nat

definition month_names :: "string list" where
  "month_names = [''January'', ''February'', ''March'', ''April'', ''May'', ''June'',
     ''July'', ''August'', ''September'', ''October'', ''November'', ''December'']"

definition is_leap :: "nat \<Rightarrow> bool" where
  "is_leap y \<longleftrightarrow> y mod 4 = 0 \<and> (y mod 100 \<noteq> 0 \<or> y mod 400 = 0)"

definition days_in_month :: "nat \<Rightarrow> nat \<Rightarrow> nat" where
  "days_in_month y m =
     (if m = 2 then (if is_leap y then 29 else 28)
      else if m \<in> {4, 6, 9, 11} then 30 else 31)"

text \<open>The values \<open>datetime.date\<close> accepts (\<open>MINYEAR = 1\<close>, \<open>MAXYEAR = 9999\<close>).\<close>

definition valid_date :: "date \<Rightarrow> bool" where
  "valid_date dt \<longleftrightarrow>
     1 \<le> year dt \<and> year dt \<le> 9999 \<and> 1 \<le> month dt \<and> month dt \<le> 12 \<and>
     1 \<le> day dt \<and> day dt \<le> days_in_month (year dt) (month dt)"

subsection \<open>Decimal digits\<close>

fun digits10 :: "nat \<Rightarrow> nat list" where
  "digits10 n = (if n < 10 then [n] else digits10 (n div 10) @ [n mod 10])"

declare digits10.simps [simp del]

definition digit_char :: "nat \<Rightarrow> char" where
  "digit_char k = char_of (48 + k)"

definition show_nat :: "nat \<Rightarrow> string" where
  "show_nat n = map digit_char (digits10 n)"

text \<open>\<open>%d\<close>: the day of the month, zero-padded to two digits.\<close>

definition pad2 :: "nat \<Rightarrow> string" where
  "pad2 n = (if n < 10 then CHR ''0'' # show_nat n else show_nat n)"

definition strftime_date :: "date \<Rightarrow> string" where
  "strftime_date dt =
     month_names ! (month dt - 1) @ '' '' @ pad2 (day dt) @ '', '' @ show_nat (year dt)"


subsection \<open>Reading the format back\<close>

definition is_digit :: "char \<Rightarrow> bool" where
  "is_digit c \<longleftrightarrow> 48 \<le> (of_char c :: nat) \<and> (of_char c :: nat) \<le> 57"

definition digit_val :: "char \<Rightarrow> nat" where
  "digit_val c = of_char c - 48"

definition read_nat :: "string \<Rightarrow> nat option" where
  "read_nat cs =
     (if cs \<noteq> [] \<and> list_all is_digit cs
      then Some (foldl (\<lambda>n c. 10 * n + digit_val c) 0 cs) else None)"

fun index_of :: "'a \<Rightarrow> 'a list \<Rightarrow> nat option" where
  "index_of x [] = None"
| "index_of x (y # ys) = (if x = y then Some 0 else map_option Suc (index_of x ys))"

definition parse_date :: "string \<Rightarrow> date option" where
  "parse_date s =
     (case index_of (takeWhile (\<lambda>c. c \<noteq> CHR '' '') s) month_names of
        None \<Rightarrow> None
      | Some i \<Rightarrow>
          (case dropWhile (\<lambda>c. c \<noteq> CHR '' '') s of
             _ # d1 # d2 # c1 # c2 # ys \<Rightarrow>
               (if c1 = CHR '','' \<and> c2 = CHR '' ''
                then (case (read_nat [d1, d2], read_nat ys) of
                        (Some dd, Some yy) \<Rightarrow> Some \<lparr>year = yy, month = Suc i, day = dd\<rparr>
                      | _ \<Rightarrow> None)
                else None)
           | _ \<Rightarrow> None))"

subsection \<open>Digits\<close>

lemma digits10_eq: "digits10 n = (if n < 10 then [n] else digits10 (n div 10) @ [n mod 10])"
  by (rule digits10.simps)

lemma digits10_lt: "n < 10 \<Longrightarrow> digits10 n = [n]"
  by (simp add: digits10_eq [of n])

lemma digits10_ge: "\<not> n < 10 \<Longrightarrow> digits10 n = digits10 (n div 10) @ [n mod 10]"
  by (simp add: digits10_eq [of n])

lemma digit_char_simps:
  "digit_char 0 = CHR ''0''" "digit_char 1 = CHR ''1''" "digit_char 2 = CHR ''2''"
  "digit_char 3 = CHR ''3''" "digit_char 4 = CHR ''4''" "digit_char 5 = CHR ''5''"
  "digit_char 6 = CHR ''6''" "digit_char 7 = CHR ''7''" "digit_char 8 = CHR ''8''"
  "digit_char 9 = CHR ''9''"
  by code_simp+

text \<open>Evaluating a stamp at a concrete date with the simplifier.\<close>

lemmas strftime_eval = strftime_date_def month_names_def pad2_def show_nat_def
  digits10_lt digits10_ge digit_char_simps

lemma digits10_small: "k \<in> set (digits10 n) \<Longrightarrow> k < 10"
proof (induction n rule: digits10.induct)
  case (1 n)
  then show ?case by (cases "n < 10") (auto simp: digits10_eq [of n])
qed

lemma digits10_nonempty [simp]: "digits10 n \<noteq> []"
  by (simp add: digits10_eq [of n])

lemma of_char_digit_char: "k < 10 \<Longrightarrow> of_char (digit_char k) = 48 + k"
  by (simp add: digit_char_def)

lemma digit_val_digit_char [simp]: "k < 10 \<Longrightarrow> digit_val (digit_char k) = k"
  by (simp add: digit_val_def of_char_digit_char)

lemma is_digit_digit_char [simp]: "k < 10 \<Longrightarrow> is_digit (digit_char k)"
  by (simp add: is_digit_def of_char_digit_char)

lemma foldl_digits10:
  "foldl (\<lambda>n c. 10 * n + digit_val c) 0 (map digit_char (digits10 n)) = n"
proof (induction n rule: digits10.induct)
  case (1 n)
  show ?case
  proof (cases "n < 10")
    case True
    then show ?thesis by (simp add: digits10_eq [of n])
  next
    case False
    with "1.IH" show ?thesis by (simp add: digits10_eq [of n])
  qed
qed

lemma read_show_nat [simp]: "read_nat (show_nat n) = Some n"
  by (auto simp: read_nat_def show_nat_def list_all_iff foldl_digits10 dest: digits10_small)


lemma length_show_nat_small: "n < 10 \<Longrightarrow> show_nat n = [digit_char n]"
  by (simp add: show_nat_def digits10_eq [of n])

lemma show_nat_two_digits:
  "10 \<le> n \<Longrightarrow> n < 100 \<Longrightarrow> show_nat n = [digit_char (n div 10), digit_char (n mod 10)]"
  by (simp add: show_nat_def digits10_eq [of n] digits10_eq [of "n div 10"])

lemma pad2_two_chars:
  "n < 100 \<Longrightarrow> \<exists>c1 c2. pad2 n = [c1, c2] \<and> read_nat [c1, c2] = Some n"
proof (cases "n < 10")
  case True
  have "read_nat [CHR ''0'', digit_char n] = Some n"
    using True by (simp add: read_nat_def is_digit_def digit_val_def of_char_digit_char)
  with True show ?thesis by (simp add: pad2_def length_show_nat_small)
next
  case False
  assume "n < 100"
  with False have "read_nat [digit_char (n div 10), digit_char (n mod 10)] = Some n"
    by (simp add: read_nat_def)
  with False \<open>n < 100\<close> show ?thesis by (simp add: pad2_def show_nat_two_digits)
qed

subsection \<open>Month names\<close>

lemma month_names_facts:
  "length month_names = 12" "distinct month_names"
  "list_all (\<lambda>w. CHR '' '' \<notin> set w \<and> 3 \<le> length w \<and> length w \<le> 9) month_names"
  by (simp_all add: month_names_def)

lemma index_of_nth: "distinct xs \<Longrightarrow> i < length xs \<Longrightarrow> index_of (xs ! i) xs = Some i"
proof (induction xs arbitrary: i)
  case Nil
  then show ?case by simp
next
  case (Cons x xs)
  then show ?case by (cases i) auto
qed

lemma month_name_props:
  assumes "i < 12"
  shows "CHR '' '' \<notin> set (month_names ! i)" "3 \<le> length (month_names ! i)"
    "length (month_names ! i) \<le> 9" "index_of (month_names ! i) month_names = Some i"
  using assms month_names_facts list_all_length [of _ month_names]
  by (auto intro: index_of_nth)

lemma days_in_month_le: "days_in_month y m \<le> 31"
  by (simp add: days_in_month_def)


lemma takeWhile_word: "c \<notin> set w \<Longrightarrow> takeWhile (\<lambda>x. x \<noteq> c) (w @ c # r) = w"
  by (induction w) auto

lemma dropWhile_word: "c \<notin> set w \<Longrightarrow> dropWhile (\<lambda>x. x \<noteq> c) (w @ c # r) = c # r"
  by (induction w) auto

lemma length_digits10: "n < 10 ^ k \<Longrightarrow> 0 < k \<Longrightarrow> length (digits10 n) \<le> k"
proof (induction n arbitrary: k rule: digits10.induct)
  case (1 n)
  show ?case
  proof (cases "n < 10")
    case True
    with "1.prems" show ?thesis by (simp add: digits10_eq [of n])
  next
    case False
    have k: "2 \<le> k"
    proof (rule ccontr)
      assume "\<not> 2 \<le> k"
      with "1.prems"(2) have "k = 1" by arith
      with "1.prems"(1) False show False by simp
    qed
    have "n div 10 < 10 ^ (k - 1)"
      using "1.prems"(1) k by (simp add: less_mult_imp_div_less power_eq_if)
    with "1.IH" False k have "length (digits10 (n div 10)) \<le> k - 1" by simp
    with False k show ?thesis by (simp add: digits10_eq [of n])
  qed
qed

text \<open>
  C24. The date stamp of a post reads back: for every date Python's
  \<open>datetime.date\<close> accepts, parsing the \<open>%B %d, %Y\<close> rendering gives the
  date back, so two posts created on different days never carry the same
  stamp.
\<close>

theorem parse_strftime_date:
  assumes "valid_date dt"
  shows "parse_date (strftime_date dt) = Some dt"
proof -
  let ?i = "month dt - 1"
  from assms have i: "?i < 12" and m: "Suc ?i = month dt" by (auto simp: valid_date_def)
  from assms have "day dt < 100"
    using days_in_month_le [of "year dt" "month dt"] by (simp add: valid_date_def)
  then obtain c1 c2 where p: "pad2 (day dt) = [c1, c2]" and r: "read_nat [c1, c2] = Some (day dt)"
    using pad2_two_chars by blast
  let ?rest = "CHR '' '' # c1 # c2 # CHR '','' # CHR '' '' # show_nat (year dt)"
  have str: "strftime_date dt = month_names ! ?i @ ?rest"
    by (simp add: strftime_date_def p)
  have tw: "takeWhile (\<lambda>c. c \<noteq> CHR '' '') (strftime_date dt) = month_names ! ?i"
    and dw: "dropWhile (\<lambda>c. c \<noteq> CHR '' '') (strftime_date dt) = ?rest"
    using month_name_props(1) [OF i] by (simp_all add: str takeWhile_word dropWhile_word)
  show ?thesis
    using month_name_props(4) [OF i] tw dw r m by (simp add: parse_date_def)
qed

theorem parse_strftime_date_witness:
  "valid_date \<lparr>year = 2026, month = 11, day = 9\<rparr> \<and>
   parse_date ''November 09, 2026'' = Some \<lparr>year = 2026, month = 11, day = 9\<rparr>"
proof -
  have v: "valid_date \<lparr>year = 2026, month = 11, day = 9\<rparr>"
    by (simp add: valid_date_def days_in_month_def)
  have "strftime_date \<lparr>year = 2026, month = 11, day = 9\<rparr> = ''November 09, 2026''"
    by (simp add: strftime_eval)
  with parse_strftime_date [OF v] v show ?thesis by simp
qed

text \<open>
  C25. The stamp of a valid date is between 9 and 18 characters long
  (\<open>May 01, 1\<close> to \<open>September 30, 9999\<close>), well inside the
  \<open>String(250)\<close> column \<open>date\<close>.
\<close>

theorem strftime_date_length:
  assumes "valid_date dt"
  shows "9 \<le> length (strftime_date dt) \<and> length (strftime_date dt) \<le> 18"
proof -
  let ?i = "month dt - 1"
  from assms have i: "?i < 12" by (auto simp: valid_date_def)
  from assms have "day dt < 100"
    using days_in_month_le [of "year dt" "month dt"] by (simp add: valid_date_def)
  then obtain c1 c2 where p: "pad2 (day dt) = [c1, c2]"
    using pad2_two_chars by blast
  from assms have "year dt < 10 ^ 4" by (simp add: valid_date_def)
  then have y: "length (show_nat (year dt)) \<le> 4"
    using length_digits10 [of "year dt" 4] by (simp add: show_nat_def)
  have y1: "1 \<le> length (show_nat (year dt))"
    by (simp add: show_nat_def Suc_le_eq)
  show ?thesis
    using month_name_props(2,3) [OF i] y y1 by (simp add: strftime_date_def p)
qed

theorem strftime_date_length_witness:
  "valid_date \<lparr>year = 9999, month = 9, day = 30\<rparr> \<and>
   length (strftime_date \<lparr>year = 9999, month = 9, day = 30\<rparr>) = 18"
proof -
  have v: "valid_date \<lparr>year = 9999, month = 9, day = 30\<rparr>"
    by (simp add: valid_date_def days_in_month_def)
  have "strftime_date \<lparr>year = 9999, month = 9, day = 30\<rparr> = ''September 30, 9999''"
    by (simp add: strftime_eval)
  with strftime_date_length [OF v] v show ?thesis by simp
qed

end
