(* ===== verification/Routes.thy ===== *)
theory Routes
  imports Sessions Passwords Dates
begin

text \<open>
  The route handlers of \<open>src/main.py\<close>, one definition each, composed as the
  code composes them. A handler receives the database, the client's session
  and the request's validated form (\<open>None\<close> when \<open>validate_on_submit()\<close>
  is false: a GET, or a POST whose form does not validate) and returns the
  outcome (an HTTP error or the handler's response) with the new database and
  session. Values the code draws from its environment are inputs of the
  request: the salt of \<open>gen_salt(8)\<close> and \<open>date.today()\<close>. The
  decorator \<open>admin_only\<close> is \<open>with_admin\<close>; \<open>handle\<close> is the URL
  dispatch. The theory ends with the properties of single requests: the
  authorization gate, and every route on each of its branches.
\<close>

record register_form =
  rf_email :: string
  rf_password :: string
  rf_name :: string

record login_form =
  lf_email :: string
  lf_password :: string

record post_form =
  pf_title :: string
  pf_subtitle :: string
  pf_body :: string
  pf_img_url :: string

datatype request =
    Register "register_form option" string
  | Login "login_form option"
  | Logout
  | Get_all_posts
  | Show_post nat "string option"
  | Add_new_post "post_form option" date
  | Edit_post nat "post_form option"
  | Delete_post nat
  | About
  | Contact

datatype endpoint = To_login | To_get_all_posts | To_show_post nat

datatype page =
    Register_page
  | Login_page
  | Index_page "blog_post list" bool
  | Post_page blog_post "comment list"
  | Make_post_page "post_form option" bool
  | About_page
  | Contact_page

datatype response = Redirect endpoint | Render page

type_synonym outcome = "(http_error + response) \<times> db \<times> session"

subsection \<open>Authentication routes\<close>

definition register :: "digest_fn \<Rightarrow> db \<Rightarrow> session \<Rightarrow> register_form option \<Rightarrow> string \<Rightarrow> outcome" where
  "register h d s form salt =
     (case form of
        None \<Rightarrow> (Inr (Render Register_page), d, s)
      | Some f \<Rightarrow>
          (case select_user_by_email d (rf_email f) of
             Some _ \<Rightarrow>
               (Inr (Redirect To_login), d, flash s ''Email is already registered. Please login.'')
           | None \<Rightarrow>
               (case insert_user d (rf_email f) (generate_password_hash h (rf_password f) salt)
                       (rf_name f) of
                  Inl e \<Rightarrow> (Inl (InternalError e), d, s)
                | Inr (u, d') \<Rightarrow> (Inr (Redirect To_get_all_posts), d', login_user s u))))"

definition login :: "digest_fn \<Rightarrow> db \<Rightarrow> session \<Rightarrow> login_form option \<Rightarrow> outcome" where
  "login h d s form =
     (case form of
        None \<Rightarrow> (Inr (Render Login_page), d, s)
      | Some f \<Rightarrow>
          (case select_user_by_email d (lf_email f) of
             Some u \<Rightarrow>
               (if check_password_hash h (password u) (lf_password f)
                then (Inr (Redirect To_get_all_posts), d, login_user s u)
                else (Inr (Render Login_page), d, flash s ''Password incorrect, Please try again''))
           | None \<Rightarrow>
               (Inr (Render Login_page), d, flash s ''The email does not exist. Please try again.'')))"

text \<open>
  Flask-Login's \<open>logout_user()\<close> first loads the current user
  (\<open>_get_user()\<close>, which calls the \<open>user_loader\<close>), so a session naming a
  user that is not stored fails there with the 404 of \<open>get_or_404\<close>.
\<close>

definition logout :: "db \<Rightarrow> session \<Rightarrow> outcome" where
  "logout d s =
     (case current_user d s of
        Inl e \<Rightarrow> (Inl e, d, s)
      | Inr a \<Rightarrow> (Inr (Redirect To_get_all_posts), d, logout_user s))"

subsection \<open>Public routes\<close>

definition get_all_posts :: "db \<Rightarrow> session \<Rightarrow> outcome" where
  "get_all_posts d s =
     (case current_user d s of
        Inl e \<Rightarrow> (Inl e, d, s)
      | Inr a \<Rightarrow> (Inr (Render (Index_page (all_posts d) (is_authenticated a))), d, s))"

definition show_post :: "db \<Rightarrow> session \<Rightarrow> nat \<Rightarrow> string option \<Rightarrow> outcome" where
  "show_post d s pid form =
     (case get_post d pid of
        None \<Rightarrow> (Inl NotFound, d, s)
      | Some p \<Rightarrow>
          (case form of
             None \<Rightarrow> (Inr (Render (Post_page p (post_comments d pid))), d, s)
           | Some txt \<Rightarrow>
               (case current_user d s of
                  Inl e \<Rightarrow> (Inl e, d, s)
                | Inr Anonymous \<Rightarrow>
                    (Inr (Redirect To_login), d, flash s ''You need to login or register to comment.'')
                | Inr (Authenticated u) \<Rightarrow>
                    (let d' = snd (insert_comment d txt (user_id u) (post_id p))
                     in (Inr (Render (Post_page p (post_comments d' pid))), d', s)))))"

subsection \<open>Admin routes\<close>

text \<open>\<open>@admin_only\<close>: resolve \<open>current_user\<close>, then check its id before the route runs.\<close>

definition with_admin :: "db \<Rightarrow> session \<Rightarrow> (user \<Rightarrow> outcome) \<Rightarrow> outcome" where
  "with_admin d s f =
     (case current_user d s of
        Inl e \<Rightarrow> (Inl e, d, s)
      | Inr a \<Rightarrow> (case admin_only a of Inl e \<Rightarrow> (Inl e, d, s) | Inr u \<Rightarrow> f u))"

definition add_new_post :: "db \<Rightarrow> session \<Rightarrow> post_form option \<Rightarrow> date \<Rightarrow> user \<Rightarrow> outcome" where
  "add_new_post d s form today u =
     (case form of
        None \<Rightarrow> (Inr (Render (Make_post_page None False)), d, s)
      | Some f \<Rightarrow>
          (case insert_post d (pf_title f) (pf_subtitle f) (pf_body f) (pf_img_url f) (user_id u)
                  (strftime_date today) of
             Inl e \<Rightarrow> (Inl (InternalError e), d, s)
           | Inr (p, d') \<Rightarrow> (Inr (Redirect To_get_all_posts), d', s)))"

text \<open>
  \<open>CreatePostForm(title=post.title, subtitle=post.subtitle, img_url=post.img_url,
  author=post.author, body=post.body)\<close>: the form \<open>edit_post\<close> renders, filled
  with the stored post (the form has no \<open>author\<close> field; the argument is
  ignored).
\<close>

definition post_fields :: "blog_post \<Rightarrow> post_form" where
  "post_fields p = \<lparr>pf_title = title p, pf_subtitle = subtitle p, pf_body = body p,
     pf_img_url = img_url p\<rparr>"

definition edit_post :: "db \<Rightarrow> session \<Rightarrow> nat \<Rightarrow> post_form option \<Rightarrow> user \<Rightarrow> outcome" where
  "edit_post d s pid form u =
     (case get_post d pid of
        None \<Rightarrow> (Inl NotFound, d, s)
      | Some p \<Rightarrow>
          (case form of
             None \<Rightarrow> (Inr (Render (Make_post_page (Some (post_fields p)) True)), d, s)
           | Some f \<Rightarrow>
               (case update_post d (post_id p) (pf_title f) (pf_subtitle f) (pf_img_url f) (user_id u)
                       (pf_body f) of
                  Inl e \<Rightarrow> (Inl (InternalError e), d, s)
                | Inr d' \<Rightarrow> (Inr (Redirect (To_show_post (post_id p))), d', s))))"

definition delete_post :: "db \<Rightarrow> session \<Rightarrow> nat \<Rightarrow> outcome" where
  "delete_post d s pid =
     (case get_post d pid of
        None \<Rightarrow> (Inl NotFound, d, s)
      | Some p \<Rightarrow>
          (case delete_post_row d (post_id p) of
             Inl e \<Rightarrow> (Inl (InternalError e), d, s)
           | Inr d' \<Rightarrow> (Inr (Redirect To_get_all_posts), d', s)))"

subsection \<open>Dispatch\<close>

fun handle :: "digest_fn \<Rightarrow> db \<Rightarrow> session \<Rightarrow> request \<Rightarrow> outcome" where
  "handle h d s (Register form salt) = register h d s form salt"
| "handle h d s (Login form) = login h d s form"
| "handle h d s Logout = logout d s"
| "handle h d s Get_all_posts = get_all_posts d s"
| "handle h d s (Show_post pid form) = show_post d s pid form"
| "handle h d s (Add_new_post form today) = with_admin d s (add_new_post d s form today)"
| "handle h d s (Edit_post pid form) = with_admin d s (edit_post d s pid form)"
| "handle h d s (Delete_post pid) = with_admin d s (\<lambda>u. delete_post d s pid)"
| "handle h d s About = (Inr (Render About_page), d, s)"
| "handle h d s Contact = (Inr (Render Contact_page), d, s)"

text \<open>
  The request a redirect leads to: the browser follows the \<open>302\<close> with a
  GET of the URL \<open>url_for\<close> built, which submits no form.
\<close>

fun get_endpoint :: "endpoint \<Rightarrow> request" where
  "get_endpoint To_login = Login None"
| "get_endpoint To_get_all_posts = Get_all_posts"
| "get_endpoint (To_show_post pid) = Show_post pid None"

subsection \<open>The decorated routes\<close>

fun admin_route :: "request \<Rightarrow> bool" where
  "admin_route (Add_new_post form today) = True"
| "admin_route (Edit_post pid form) = True"
| "admin_route (Delete_post pid) = True"
| "admin_route r = False"

subsection \<open>Example data\<close>

text \<open>
  A concrete instance the witnesses evaluate at: a digest function (salt
  followed by password, injective for a fixed salt), the admin Alice (id 1)
  and Bob (id 2), one post without comments, and sessions of Alice, Bob and an
  anonymous client.
\<close>

definition demo_digest :: digest_fn where
  "demo_digest m salt pw = salt @ pw"

definition alice :: user where
  "alice = \<lparr>user_id = 1, email = ''alice@blog.dev'',
     password = generate_password_hash demo_digest ''secret'' ''Ab3dEf7h'', name = ''Alice''\<rparr>"

definition bob :: user where
  "bob = \<lparr>user_id = 2, email = ''bob@blog.dev'',
     password = generate_password_hash demo_digest ''hunter2'' ''Zz9yXw8v'', name = ''Bob''\<rparr>"

definition hello_post :: blog_post where
  "hello_post = \<lparr>post_id = 1, title = ''Hello'', subtitle = ''World'', date = ''November 09, 2026'',
     body = ''First post.'', img_url = ''http://x/y.png'', author_id = 1\<rparr>"

definition demo_db :: db where
  "demo_db = \<lparr>users = [alice, bob], blog_posts = [hello_post], comments = []\<rparr>"

definition alice_session :: session where
  "alice_session = \<lparr>sess_user_id = Some 1, flashes = []\<rparr>"

definition bob_session :: session where
  "bob_session = \<lparr>sess_user_id = Some 2, flashes = []\<rparr>"

definition hello_form :: post_form where
  "hello_form = \<lparr>pf_title = ''Hello again'', pf_subtitle = ''World'', pf_body = ''More.'',
     pf_img_url = ''http://x/z.png''\<rparr>"

definition alice_registers :: request where
  "alice_registers = Register (Some \<lparr>rf_email = ''alice@blog.dev'', rf_password = ''secret'',
     rf_name = ''Alice''\<rparr>) ''Ab3dEf7h''"

subsection \<open>Helper facts on the current user and the admin check\<close>

text \<open>What the decorator lets through: the wrapped route runs only for user 1.\<close>

lemma with_admin_cases:
  "with_admin d s f = (out, d', s') \<Longrightarrow>
     (d' = d \<and> s' = s \<and> (\<exists>e. out = Inl e)) \<or>
     (\<exists>u. current_user d s = Inr (Authenticated u) \<and> user_id u = 1 \<and> f u = (out, d', s'))"
  by (auto simp: with_admin_def admin_only_def split: sum.splits actor.splits if_splits)

subsection \<open>Only the admin changes posts\<close>

lemma register_posts: "register h d s form salt = (out, d', s') \<Longrightarrow> blog_posts d' = blog_posts d"
  by (auto simp: register_def split: option.splits sum.splits dest: insert_user_content)

lemma show_post_posts: "show_post d s pid form = (out, d', s') \<Longrightarrow> blog_posts d' = blog_posts d"
  by (auto simp: show_post_def Let_def split: option.splits sum.splits actor.splits)

lemma with_admin_changes:
  "with_admin d s f = (out, d', s') \<Longrightarrow> d' \<noteq> d \<Longrightarrow>
     \<exists>u. current_user d s = Inr (Authenticated u) \<and> user_id u = 1"
  by (drule with_admin_cases) auto

text \<open>A request that changes the posts table was made by the admin.\<close>

lemma handle_posts_admin:
  "handle h d s r = (out, d', s') \<Longrightarrow> blog_posts d' \<noteq> blog_posts d \<Longrightarrow>
     \<exists>u. current_user d s = Inr (Authenticated u) \<and> user_id u = 1"
  by (cases r) (auto simp: login_def logout_def get_all_posts_def
      split: option.splits if_splits sum.splits dest: register_posts show_post_posts
      with_admin_changes)

text \<open>Registering a fresh e-mail: the user is inserted with the next rowid and logged in.\<close>

lemma register_fresh:
  "rf_email f \<notin> email ` set (users d) \<Longrightarrow>
     register h d s (Some f) salt =
       (Inr (Redirect To_get_all_posts),
        d\<lparr>users := users d @ [\<lparr>user_id = next_id user_id (users d), email = rf_email f,
           password = generate_password_hash h (rf_password f) salt, name = rf_name f\<rparr>]\<rparr>,
        login_user s \<lparr>user_id = next_id user_id (users d), email = rf_email f,
           password = generate_password_hash h (rf_password f) salt, name = rf_name f\<rparr>)"
proof -
  assume e: "rf_email f \<notin> email ` set (users d)"
  let ?u = "\<lparr>user_id = next_id user_id (users d), email = rf_email f,
             password = generate_password_hash h (rf_password f) salt, name = rf_name f\<rparr>"
  have "select_user_by_email d (rf_email f) = None" using e by (simp add: select_user_by_email_None)
  moreover have "insert_user d (rf_email f) (generate_password_hash h (rf_password f) salt) (rf_name f)
                   = Inr (?u, d\<lparr>users := users d @ [?u]\<rparr>)"
    using e by (simp add: insert_user_Inr)
  ultimately show ?thesis by (simp add: register_def)
qed

text \<open>Only a registration changes the users table, and it appends a user with a hashed password.\<close>

lemma handle_users:
  assumes "handle h d s r = (out, d', s')"
  shows "users d' = users d \<or>
         (\<exists>f salt u. r = Register (Some f) salt \<and> users d' = users d @ [u] \<and>
            email u = rf_email f \<and> password u = generate_password_hash h (rf_password f) salt)"
proof (cases r)
  case (Register form salt)
  with assms show ?thesis
    by (auto simp: register_def insert_user_Inr split: option.splits sum.splits)
next
  case (Show_post pid form)
  with assms show ?thesis
    by (auto simp: show_post_def Let_def insert_comment_def split: option.splits sum.splits actor.splits)
next
  case (Add_new_post form today)
  with assms show ?thesis
    by (auto dest!: with_admin_cases simp: add_new_post_def split: option.splits sum.splits
        dest: insert_post_users)
next
  case (Edit_post pid form)
  with assms show ?thesis
    by (auto dest!: with_admin_cases simp: edit_post_def split: option.splits sum.splits
        dest: update_post_users)
next
  case (Delete_post pid)
  with assms show ?thesis
    by (auto dest!: with_admin_cases simp: delete_post_def split: option.splits sum.splits
        dest: delete_post_row_users)
qed (use assms in \<open>auto simp: login_def logout_def get_all_posts_def
       split: option.splits if_splits sum.splits\<close>)

text \<open>A post with a comment survives every request, and keeps a comment.\<close>

lemma handle_keeps_commented:
  assumes "handle h d s r = (out, d', s')" and "pid \<in> post_ids d" and "post_comments d pid \<noteq> []"
  shows "pid \<in> post_ids d' \<and> post_comments d' pid \<noteq> []"
proof (cases r)
  case (Register form salt)
  with assms show ?thesis
    by (auto simp: register_def insert_user_Inr post_ids_def post_comments_def
        split: option.splits sum.splits)
next
  case (Show_post pid' form)
  with assms show ?thesis
    by (auto simp: show_post_def Let_def insert_comment_def post_comments_def post_ids_def
        split: option.splits sum.splits actor.splits)
next
  case (Add_new_post form today)
  with assms show ?thesis
    by (auto dest!: with_admin_cases simp: add_new_post_def insert_post_Inr post_ids_def
        post_comments_def split: option.splits sum.splits)
next
  case (Edit_post pid' form)
  with assms show ?thesis
    by (auto dest!: with_admin_cases simp: edit_post_def update_post_Inr post_ids_def
        post_comments_def split: option.splits sum.splits)
next
  case (Delete_post pid')
  show ?thesis
  proof (cases "d' = d")
    case True
    with assms(2,3) show ?thesis by simp
  next
    case False
    with assms(1) Delete_post have "\<exists>q. post_comments d q = [] \<and>
        d' = d\<lparr>blog_posts := delete_row post_id q (blog_posts d)\<rparr>"
      by (auto dest!: with_admin_cases simp: delete_post_def delete_post_row_def
          split: option.splits sum.splits if_splits)
    then obtain q where "post_comments d q = []"
      and d': "d' = d\<lparr>blog_posts := delete_row post_id q (blog_posts d)\<rparr>"
      by blast
    with assms(3) have "q \<noteq> pid" by auto
    with assms(2,3) show ?thesis by (auto simp: d' post_ids_def post_comments_def)
  qed
qed (use assms in \<open>auto simp: login_def logout_def get_all_posts_def
       split: option.splits if_splits sum.splits\<close>)

lemmas route_defs = register_def login_def logout_def get_all_posts_def show_post_def
  with_admin_def add_new_post_def edit_post_def delete_post_def

lemmas demo_defs = demo_digest_def alice_def bob_def hello_post_def demo_db_def
  alice_session_def bob_session_def hello_form_def alice_registers_def

lemmas route_eval_defs = route_defs demo_defs current_user_def load_user_def admin_only_def
  get_user_def get_post_def select_user_by_email_def post_comments_def insert_user_def
  insert_post_def update_post_def delete_post_row_def insert_comment_def
  generate_password_hash_def check_password_hash_def default_method_def
  session_defs empty_session_def empty_db_def Let_def
  all_posts_def is_authenticated_def

subsection \<open>Properties of single requests\<close>


text \<open>
  C2. Only the admin changes the posts: a request that changes the
  \<open>blog_posts\<close> table was made by a session resolving to the user with id 1.
\<close>

theorem only_admin_changes_posts:
  assumes "handle h d s r = (out, d', s')" and "blog_posts d' \<noteq> blog_posts d"
  shows "\<exists>u. current_user d s = Inr (Authenticated u) \<and> user_id u = 1"
  using assms by (rule handle_posts_admin)

theorem only_admin_changes_posts_witness:
  "blog_posts (fst (snd (handle demo_digest demo_db alice_session
      (Add_new_post (Some hello_form) \<lparr>year = 2026, month = 11, day = 9\<rparr>)))) \<noteq> blog_posts demo_db \<and>
   (\<exists>u. current_user demo_db alice_session = Inr (Authenticated u) \<and> user_id u = 1)"
proof -
  let ?r = "Add_new_post (Some hello_form) \<lparr>year = 2026, month = 11, day = 9\<rparr>"
  let ?o = "handle demo_digest demo_db alice_session ?r"
  have ch: "blog_posts (fst (snd ?o)) \<noteq> blog_posts demo_db"
    by (simp add: route_eval_defs)
  show ?thesis
    using ch only_admin_changes_posts [of demo_digest demo_db alice_session ?r "fst ?o"
        "fst (snd ?o)" "snd (snd ?o)"] by simp
qed

text \<open>
  C3. An authenticated user other than the admin who requests one of the
  decorated routes (new post, edit post, delete post) gets 403 Forbidden and
  changes nothing; the check comes before the post lookup, so a missing post
  id also answers 403.
\<close>

theorem admin_route_forbidden:
  "admin_route r \<Longrightarrow> current_user d s = Inr (Authenticated u) \<Longrightarrow> user_id u \<noteq> 1 \<Longrightarrow>
     handle h d s r = (Inl Forbidden, d, s)"
  by (cases r) (auto simp: with_admin_def admin_only_def)

theorem admin_route_forbidden_witness:
  "handle demo_digest demo_db bob_session (Delete_post 7) = (Inl Forbidden, demo_db, bob_session)"
proof -
  have "current_user demo_db bob_session = Inr (Authenticated bob)"
    by (simp add: route_eval_defs)
  moreover have "user_id bob \<noteq> 1" by (simp add: bob_def)
  ultimately show ?thesis
    using admin_route_forbidden [of "Delete_post 7" demo_db bob_session bob demo_digest] by simp
qed

text \<open>
  C4. An anonymous client that requests a decorated route does not get 403:
  \<open>admin_only\<close> reads \<open>current_user.id\<close>, which Flask-Login's anonymous
  user does not have, and the request fails with an internal error
  (\<open>AttributeError\<close>), changing nothing.
\<close>

theorem admin_route_anonymous:
  "admin_route r \<Longrightarrow> sess_user_id s = None \<Longrightarrow>
     handle h d s r = (Inl (InternalError AttributeError), d, s)"
  by (cases r) (auto simp: with_admin_def admin_only_def current_user_def)

theorem admin_route_anonymous_witness:
  "handle demo_digest demo_db empty_session (Add_new_post (Some hello_form) \<lparr>year = 2026, month = 11, day = 9\<rparr>) =
     (Inl (InternalError AttributeError), demo_db, empty_session)"
  using admin_route_anonymous [of "Add_new_post (Some hello_form) \<lparr>year = 2026, month = 11, day = 9\<rparr>"
      empty_session demo_digest demo_db]
  by (simp add: empty_session_def)

text \<open>
  C5. Registering with an e-mail that is already stored redirects to the
  login page with the message ``Email is already registered'' and leaves the
  database, in particular the existing user, unchanged.
\<close>

theorem register_duplicate_email:
  "rf_email f \<in> email ` set (users d) \<Longrightarrow>
     handle h d s (Register (Some f) salt) =
       (Inr (Redirect To_login), d, flash s ''Email is already registered. Please login.'')"
  using select_user_by_email_None [of d "rf_email f"]
  by (auto simp: register_def split: option.splits)

theorem register_duplicate_email_witness:
  "handle demo_digest demo_db empty_session alice_registers =
     (Inr (Redirect To_login), demo_db, flash empty_session ''Email is already registered. Please login.'')"
proof -
  have "''alice@blog.dev'' \<in> email ` set (users demo_db)" by (simp add: demo_defs)
  then show ?thesis
    using register_duplicate_email [of "\<lparr>rf_email = ''alice@blog.dev'', rf_password = ''secret'',
        rf_name = ''Alice''\<rparr>" demo_db demo_digest empty_session "''Ab3dEf7h''"]
    by (simp add: alice_registers_def)
qed

text \<open>
  C6. Registering with a new e-mail stores exactly one new user, with the next
  rowid, the given e-mail and name and the salted hash of the password, logs
  the client in as that user and redirects to the post listing; checking the
  same password against the stored hash succeeds.
\<close>

theorem register_new_user:
  fixes h :: digest_fn
  assumes "rf_email f \<notin> email ` set (users d)" and "salt_ok salt"
  defines "u \<equiv> \<lparr>user_id = next_id user_id (users d), email = rf_email f,
              password = generate_password_hash h (rf_password f) salt, name = rf_name f\<rparr>"
  shows "handle h d s (Register (Some f) salt) =
           (Inr (Redirect To_get_all_posts), d\<lparr>users := users d @ [u]\<rparr>, login_user s u) \<and>
         check_password_hash h (password u) (rf_password f)"
proof -
  have "select_user_by_email d (rf_email f) = None"
    using assms(1) by (simp add: select_user_by_email_None)
  moreover have "insert_user d (rf_email f) (generate_password_hash h (rf_password f) salt) (rf_name f)
                   = Inr (u, d\<lparr>users := users d @ [u]\<rparr>)"
    using assms(1) by (simp add: insert_user_Inr u_def)
  moreover have "check_password_hash h (password u) (rf_password f)"
    using salt_ok_no_dollar [OF assms(2)] by (simp add: u_def check_generated)
  ultimately show ?thesis by (simp add: register_def)
qed

theorem register_new_user_witness:
  "handle demo_digest empty_db empty_session alice_registers =
     (Inr (Redirect To_get_all_posts), empty_db\<lparr>users := [alice]\<rparr>, login_user empty_session alice) \<and>
   check_password_hash demo_digest (password alice) ''secret''"
proof -
  have "''alice@blog.dev'' \<notin> email ` set (users empty_db)" by (simp add: empty_db_def)
  moreover have "salt_ok ''Ab3dEf7h''" by (simp add: salt_ok_def salt_chars_def)
  ultimately show ?thesis
    using register_new_user [of "\<lparr>rf_email = ''alice@blog.dev'', rf_password = ''secret'',
        rf_name = ''Alice''\<rparr>" empty_db "''Ab3dEf7h''" demo_digest empty_session]
    by (simp add: alice_registers_def alice_def empty_db_def)
qed


text \<open>
  Logging in with an e-mail no user has renders the login page again with
  the message ``The email does not exist'', never binds the session and
  leaves the database unchanged.
\<close>

theorem login_unknown_email:
  "lf_email f \<notin> email ` set (users d) \<Longrightarrow>
     handle h d s (Login (Some f)) =
       (Inr (Render Login_page), d, flash s ''The email does not exist. Please try again.'') \<and>
     sess_user_id (flash s ''The email does not exist. Please try again.'') = sess_user_id s"
  using select_user_by_email_None [of d "lf_email f"]
  by (simp add: login_def flash_def)

theorem login_unknown_email_witness:
  "handle demo_digest demo_db empty_session
      (Login (Some \<lparr>lf_email = ''carol@blog.dev'', lf_password = ''x''\<rparr>)) =
     (Inr (Render Login_page), demo_db, flash empty_session ''The email does not exist. Please try again.'') \<and>
   sess_user_id (flash empty_session ''The email does not exist. Please try again.'') = None"
proof -
  have "''carol@blog.dev'' \<notin> email ` set (users demo_db)" by (simp add: demo_defs)
  then show ?thesis
    using login_unknown_email [of "\<lparr>lf_email = ''carol@blog.dev'', lf_password = ''x''\<rparr>" demo_db
        demo_digest empty_session]
    by (simp add: empty_session_def)
qed

text \<open>
  C8. For a user whose stored hash was generated from password \<open>pw\<close> with a
  werkzeug salt, logging in with any other password renders the login page
  with ``Password incorrect'' and does not bind the session, provided the
  key-derivation function has no collision for that salt.
\<close>

theorem login_wrong_password:
  assumes "select_user_by_email d (lf_email f) = Some u"
    and "password u = generate_password_hash h pw salt" and "salt_ok salt"
    and "inj (h default_method salt)" and "lf_password f \<noteq> pw"
  shows "handle h d s (Login (Some f)) =
           (Inr (Render Login_page), d, flash s ''Password incorrect, Please try again'')"
proof -
  have "\<not> check_password_hash h (password u) (lf_password f)"
    using assms(2,4,5) salt_ok_no_dollar [OF assms(3)]
    by (simp add: check_generated inj_eq)
  with assms(1) show ?thesis by (simp add: login_def)
qed

theorem login_wrong_password_witness:
  "handle demo_digest demo_db empty_session
      (Login (Some \<lparr>lf_email = ''alice@blog.dev'', lf_password = ''guess''\<rparr>)) =
     (Inr (Render Login_page), demo_db, flash empty_session ''Password incorrect, Please try again'')"
proof -
  have sel: "select_user_by_email demo_db ''alice@blog.dev'' = Some alice"
    by (simp add: route_eval_defs)
  have pw: "password alice = generate_password_hash demo_digest ''secret'' ''Ab3dEf7h''"
    by (simp add: alice_def)
  have salt: "salt_ok ''Ab3dEf7h''" by (simp add: salt_ok_def salt_chars_def)
  have inj: "inj (demo_digest default_method ''Ab3dEf7h'')"
    by (simp add: demo_digest_def inj_def)
  show ?thesis
    using login_wrong_password [of demo_db "\<lparr>lf_email = ''alice@blog.dev'', lf_password = ''guess''\<rparr>"
        alice demo_digest "''secret''" "''Ab3dEf7h''" empty_session] sel pw salt inj
    by simp
qed

text \<open>
  C9. Logging in with the e-mail and the password a user registered with binds
  the session to that user and redirects to the listing.
\<close>

theorem login_correct_password:
  assumes "select_user_by_email d (lf_email f) = Some u"
    and "password u = generate_password_hash h (lf_password f) salt" and "salt_ok salt"
  shows "handle h d s (Login (Some f)) = (Inr (Redirect To_get_all_posts), d, login_user s u)"
proof -
  have "check_password_hash h (password u) (lf_password f)"
    using assms(2) salt_ok_no_dollar [OF assms(3)] by (simp add: check_generated)
  with assms(1) show ?thesis by (simp add: login_def)
qed

theorem login_correct_password_witness:
  "handle demo_digest demo_db empty_session
      (Login (Some \<lparr>lf_email = ''alice@blog.dev'', lf_password = ''secret''\<rparr>)) =
     (Inr (Redirect To_get_all_posts), demo_db, login_user empty_session alice)"
proof -
  have sel: "select_user_by_email demo_db ''alice@blog.dev'' = Some alice"
    by (simp add: route_eval_defs)
  have pw: "password alice = generate_password_hash demo_digest ''secret'' ''Ab3dEf7h''"
    by (simp add: alice_def)
  have salt: "salt_ok ''Ab3dEf7h''" by (simp add: salt_ok_def salt_chars_def)
  show ?thesis
    using login_correct_password [of demo_db "\<lparr>lf_email = ''alice@blog.dev'', lf_password = ''secret''\<rparr>"
        alice demo_digest "''Ab3dEf7h''" empty_session] sel pw salt
    by simp
qed

text \<open>
  C10. Deleting a post that has a comment fails: the ORM de-associates the
  comments by writing \<open>NULL\<close> into their \<open>NOT NULL\<close> column
  \<open>post_id\<close>, the commit raises \<open>IntegrityError\<close>, the request ends with an
  internal error and nothing is deleted. The spec asks for a cascade or an
  orphaning policy; the code has neither.
\<close>

theorem delete_commented_post_fails:
  assumes "current_user d s = Inr (Authenticated u)" and "user_id u = 1"
    and "get_post d pid = Some p" and "post_comments d pid \<noteq> []"
  shows "handle h d s (Delete_post pid) = (Inl (InternalError IntegrityError), d, s)"
proof -
  from assms(3) have "post_id p = pid" by (auto dest: get_post_SomeD)
  with assms show ?thesis
    by (simp add: with_admin_def admin_only_def delete_post_def delete_post_row_def)
qed

theorem delete_commented_post_fails_witness:
  "handle demo_digest (demo_db\<lparr>comments := [\<lparr>comment_id = 1, cmt_author_id = 2, cmt_post_id = 1,
        comment_text = ''Nice''\<rparr>]\<rparr>) alice_session (Delete_post 1) =
     (Inl (InternalError IntegrityError), demo_db\<lparr>comments := [\<lparr>comment_id = 1, cmt_author_id = 2,
        cmt_post_id = 1, comment_text = ''Nice''\<rparr>]\<rparr>, alice_session)"
proof -
  let ?d = "demo_db\<lparr>comments := [\<lparr>comment_id = 1, cmt_author_id = 2, cmt_post_id = 1,
              comment_text = ''Nice''\<rparr>]\<rparr>"
  have "current_user ?d alice_session = Inr (Authenticated alice)" by (simp add: route_eval_defs)
  moreover have "get_post ?d 1 = Some hello_post" by (simp add: route_eval_defs)
  moreover have "post_comments ?d 1 \<noteq> []" by (simp add: route_eval_defs)
  ultimately show ?thesis
    using delete_commented_post_fails [of ?d alice_session alice 1 hello_post demo_digest]
    by (simp add: alice_def)
qed

text \<open>
  The admin deleting a post without comments removes exactly that post:
  seen as a map from ids to posts, the table loses the entry of \<open>pid\<close> and
  nothing else; users and comments are unchanged and the client is redirected
  to the listing.
\<close>

theorem delete_post_removes:
  assumes "current_user d s = Inr (Authenticated u)" and "user_id u = 1"
    and "get_post d pid = Some p" and "post_comments d pid = []"
  shows "\<exists>d'. handle h d s (Delete_post pid) = (Inr (Redirect To_get_all_posts), d', s) \<and>
           table_map post_id (blog_posts d') = (table_map post_id (blog_posts d))(pid := None) \<and>
           users d' = users d \<and> comments d' = comments d"
proof -
  from assms(3) have "post_id p = pid" by (auto dest: get_post_SomeD)
  with assms show ?thesis
    by (simp add: with_admin_def admin_only_def delete_post_def delete_post_row_def
        table_map_delete)
qed

theorem delete_post_removes_witness:
  "handle demo_digest demo_db alice_session (Delete_post 1) =
     (Inr (Redirect To_get_all_posts), demo_db\<lparr>blog_posts := []\<rparr>, alice_session) \<and>
   table_map post_id (blog_posts (demo_db\<lparr>blog_posts := []\<rparr>)) =
     (table_map post_id (blog_posts demo_db))(1 := None)"
proof -
  have cu: "current_user demo_db alice_session = Inr (Authenticated alice)" by (simp add: route_eval_defs)
  have gp: "get_post demo_db 1 = Some hello_post" by (simp add: route_eval_defs)
  have pc: "post_comments demo_db 1 = []" by (simp add: route_eval_defs)
  obtain d' where d': "handle demo_digest demo_db alice_session (Delete_post 1) =
        (Inr (Redirect To_get_all_posts), d', alice_session)"
      and m: "table_map post_id (blog_posts d') = (table_map post_id (blog_posts demo_db))(1 := None)"
    using delete_post_removes [OF cu _ gp pc, of demo_digest] by (auto simp: alice_def)
  have "d' = demo_db\<lparr>blog_posts := []\<rparr>"
    using d' by (simp add: route_eval_defs delete_row_def)
  with d' m show ?thesis by simp
qed

text \<open>
  C12. The admin creating a post whose title is already stored gets an
  internal error (the \<open>UNIQUE\<close> constraint on \<open>title\<close> fails the commit)
  and no row is added.
\<close>

theorem add_post_duplicate_title:
  assumes "current_user d s = Inr (Authenticated u)" and "user_id u = 1"
    and "pf_title f \<in> title ` set (blog_posts d)"
  shows "handle h d s (Add_new_post (Some f) today) = (Inl (InternalError IntegrityError), d, s)"
  using assms
  by (auto simp: with_admin_def admin_only_def add_new_post_def insert_post_def list_ex_iff)

theorem add_post_duplicate_title_witness:
  "handle demo_digest demo_db alice_session
      (Add_new_post (Some (hello_form\<lparr>pf_title := ''Hello''\<rparr>)) \<lparr>year = 2026, month = 11, day = 9\<rparr>) =
     (Inl (InternalError IntegrityError), demo_db, alice_session)"
proof -
  have cu: "current_user demo_db alice_session = Inr (Authenticated alice)" by (simp add: route_eval_defs)
  have t: "pf_title (hello_form\<lparr>pf_title := ''Hello''\<rparr>) \<in> title ` set (blog_posts demo_db)"
    by (simp add: demo_defs)
  show ?thesis
    using add_post_duplicate_title [OF cu _ t, of demo_digest "\<lparr>year = 2026, month = 11, day = 9\<rparr>"]
    by (simp add: alice_def)
qed

text \<open>
  C13. The admin creating a post with a new title appends exactly one row: the
  next rowid, the form's fields, the admin as author and today's date
  formatted as \<open>%B %d, %Y\<close>; then the client is redirected to the listing.
\<close>

theorem add_post_appends:
  assumes "current_user d s = Inr (Authenticated u)" and "user_id u = 1"
    and "pf_title f \<notin> title ` set (blog_posts d)"
  shows "handle h d s (Add_new_post (Some f) today) =
           (Inr (Redirect To_get_all_posts),
            d\<lparr>blog_posts := blog_posts d @
               [\<lparr>post_id = next_id post_id (blog_posts d), title = pf_title f,
                  subtitle = pf_subtitle f, date = strftime_date today, body = pf_body f,
                  img_url = pf_img_url f, author_id = 1\<rparr>]\<rparr>, s)"
proof -
  have "\<not> list_ex (\<lambda>p. title p = pf_title f) (blog_posts d)"
    using assms(3) unfolding list_ex_iff by (metis image_eqI)
  with assms(1,2) show ?thesis
    by (simp add: with_admin_def admin_only_def add_new_post_def insert_post_def Let_def)
qed

theorem add_post_appends_witness:
  "handle demo_digest demo_db alice_session (Add_new_post (Some hello_form) \<lparr>year = 2026, month = 11, day = 9\<rparr>) =
     (Inr (Redirect To_get_all_posts),
      demo_db\<lparr>blog_posts := [hello_post,
         \<lparr>post_id = 2, title = ''Hello again'', subtitle = ''World'', date = ''November 09, 2026'',
            body = ''More.'', img_url = ''http://x/z.png'', author_id = 1\<rparr>]\<rparr>, alice_session)"
proof -
  have cu: "current_user demo_db alice_session = Inr (Authenticated alice)" by (simp add: route_eval_defs)
  have t: "pf_title hello_form \<notin> title ` set (blog_posts demo_db)" by (simp add: demo_defs)
  have dt: "strftime_date \<lparr>year = 2026, month = 11, day = 9\<rparr> = ''November 09, 2026''"
    by (simp add: strftime_eval)
  have nx: "next_id post_id (blog_posts demo_db) = 2"
    by (simp add: demo_defs next_id_def max_id_def)
  show ?thesis
    using add_post_appends [OF cu _ t, of demo_digest "\<lparr>year = 2026, month = 11, day = 9\<rparr>"] dt nx
    by (simp add: alice_def demo_db_def hello_form_def)
qed


text \<open>
  C14. An anonymous client posting a comment on an existing post is
  redirected to the login page with ``You need to login or register to
  comment'' and no comment is stored.
\<close>

theorem anonymous_comment_rejected:
  "get_post d pid = Some p \<Longrightarrow> sess_user_id s = None \<Longrightarrow>
     handle h d s (Show_post pid (Some m)) =
       (Inr (Redirect To_login), d, flash s ''You need to login or register to comment.'')"
  by (simp add: show_post_def current_user_def)

theorem anonymous_comment_rejected_witness:
  "handle demo_digest demo_db empty_session (Show_post 1 (Some ''Nice'')) =
     (Inr (Redirect To_login), demo_db, flash empty_session ''You need to login or register to comment.'')"
proof -
  have "get_post demo_db 1 = Some hello_post" by (simp add: route_eval_defs)
  then show ?thesis
    using anonymous_comment_rejected [of demo_db 1 hello_post empty_session demo_digest "''Nice''"]
    by (simp add: empty_session_def)
qed

text \<open>
  C15. An authenticated user commenting on an existing post appends exactly
  one comment, with the next rowid, the user as author and the post as
  parent; the post page is rendered with the post's comments, the new one
  last.
\<close>

theorem comment_appended:
  assumes "current_user d s = Inr (Authenticated u)" and "get_post d pid = Some p"
  shows "handle h d s (Show_post pid (Some m)) =
           (Inr (Render (Post_page p (post_comments d pid @
               [\<lparr>comment_id = next_id comment_id (comments d), cmt_author_id = user_id u,
                  cmt_post_id = pid, comment_text = m\<rparr>]))),
            d\<lparr>comments := comments d @
               [\<lparr>comment_id = next_id comment_id (comments d), cmt_author_id = user_id u,
                  cmt_post_id = pid, comment_text = m\<rparr>]\<rparr>, s)"
proof -
  from assms(2) have "post_id p = pid" by (auto dest: get_post_SomeD)
  with assms show ?thesis
    by (simp add: show_post_def insert_comment_def post_comments_def Let_def)
qed

theorem comment_appended_witness:
  "handle demo_digest demo_db bob_session (Show_post 1 (Some ''Nice'')) =
     (Inr (Render (Post_page hello_post
        [\<lparr>comment_id = 1, cmt_author_id = 2, cmt_post_id = 1, comment_text = ''Nice''\<rparr>])),
      demo_db\<lparr>comments := [\<lparr>comment_id = 1, cmt_author_id = 2, cmt_post_id = 1,
        comment_text = ''Nice''\<rparr>]\<rparr>, bob_session)"
proof -
  have cu: "current_user demo_db bob_session = Inr (Authenticated bob)" by (simp add: route_eval_defs)
  have gp: "get_post demo_db 1 = Some hello_post" by (simp add: route_eval_defs)
  show ?thesis
    using comment_appended [OF cu gp, of demo_digest "''Nice''"]
    by (simp add: demo_db_def bob_def post_comments_def next_id_def max_id_def)
qed

text \<open>
  C16. The admin editing an existing post to a title no other post has
  rewrites that post in place: title, subtitle, image URL and body from the
  form, the admin as author, the id and the publication date unchanged; every
  other post stays as it was, and the client is redirected to the post.
\<close>

theorem edit_post_updates:
  assumes "current_user d s = Inr (Authenticated u)" and "user_id u = 1"
    and "get_post d pid = Some p"
    and "\<forall>q \<in> set (blog_posts d). title q = pf_title f \<longrightarrow> post_id q = pid"
  shows "\<exists>d'. handle h d s (Edit_post pid (Some f)) = (Inr (Redirect (To_show_post pid)), d', s) \<and>
           get_post d' pid = Some (p\<lparr>title := pf_title f, subtitle := pf_subtitle f,
             img_url := pf_img_url f, author_id := 1, body := pf_body f\<rparr>) \<and>
           (\<forall>i. i \<noteq> pid \<longrightarrow> get_post d' i = get_post d i)"
proof -
  let ?g = "set_post_fields (pf_title f) (pf_subtitle f) (pf_img_url f) 1 (pf_body f)"
  let ?d' = "d\<lparr>blog_posts := update_row post_id pid ?g (blog_posts d)\<rparr>"
  from assms(3) have pid: "post_id p = pid" by (auto dest: get_post_SomeD)
  from assms(4) have upd: "update_post d pid (pf_title f) (pf_subtitle f) (pf_img_url f) 1 (pf_body f) = Inr ?d'"
    by (simp add: update_post_Inr)
  have "get_post ?d' i = (if i = pid then map_option ?g (get_post d pid) else get_post d i)" for i
    using table_map_update [of post_id ?g pid "blog_posts d"]
    by (simp add: get_post_def table_map_def fun_eq_iff)
  with upd pid assms(1-3) show ?thesis
    by (simp add: with_admin_def admin_only_def edit_post_def set_post_fields_def)
qed

theorem edit_post_updates_witness:
  "handle demo_digest demo_db alice_session (Edit_post 1 (Some hello_form)) =
     (Inr (Redirect (To_show_post 1)),
      demo_db\<lparr>blog_posts := [hello_post\<lparr>title := ''Hello again'', subtitle := ''World'',
         img_url := ''http://x/z.png'', author_id := 1, body := ''More.''\<rparr>]\<rparr>, alice_session) \<and>
   get_post (demo_db\<lparr>blog_posts := [hello_post\<lparr>title := ''Hello again'', subtitle := ''World'',
         img_url := ''http://x/z.png'', author_id := 1, body := ''More.''\<rparr>]\<rparr>) 1 =
     Some (hello_post\<lparr>title := ''Hello again'', subtitle := ''World'',
         img_url := ''http://x/z.png'', author_id := 1, body := ''More.''\<rparr>)"
proof -
  have cu: "current_user demo_db alice_session = Inr (Authenticated alice)" by (simp add: route_eval_defs)
  have gp: "get_post demo_db 1 = Some hello_post" by (simp add: route_eval_defs)
  have t: "\<forall>q \<in> set (blog_posts demo_db). title q = pf_title hello_form \<longrightarrow> post_id q = 1"
    by (simp add: demo_defs)
  obtain d' where d': "handle demo_digest demo_db alice_session (Edit_post 1 (Some hello_form)) =
        (Inr (Redirect (To_show_post 1)), d', alice_session)"
      and g: "get_post d' 1 = Some (hello_post\<lparr>title := pf_title hello_form, subtitle := pf_subtitle hello_form,
             img_url := pf_img_url hello_form, author_id := 1, body := pf_body hello_form\<rparr>)"
    using edit_post_updates [OF cu _ gp t, of demo_digest] by (auto simp: alice_def)
  have "d' = demo_db\<lparr>blog_posts := [hello_post\<lparr>title := ''Hello again'', subtitle := ''World'',
         img_url := ''http://x/z.png'', author_id := 1, body := ''More.''\<rparr>]\<rparr>"
    using d' by (simp add: route_eval_defs update_row_def set_post_fields_def)
  with d' g show ?thesis by (simp add: hello_form_def)
qed

text \<open>
  C19. The first user to register gets id 1 (SQLite's first rowid) and is
  logged in, so that client passes \<open>admin_only\<close>: the admin account is
  whoever registers first.
\<close>

theorem first_user_is_admin:
  assumes "users d = []" and "handle h d s (Register (Some f) salt) = (out, d', s')"
  shows "\<exists>u. current_user d' s' = Inr (Authenticated u) \<and> user_id u = 1 \<and>
             admin_only (Authenticated u) = Inr u"
proof -
  let ?u = "\<lparr>user_id = 1, email = rf_email f,
             password = generate_password_hash h (rf_password f) salt, name = rf_name f\<rparr>"
  from assms(1) have "select_user_by_email d (rf_email f) = None"
    by (simp add: select_user_by_email_def)
  moreover from assms(1) have "insert_user d (rf_email f) (generate_password_hash h (rf_password f) salt)
      (rf_name f) = Inr (?u, d\<lparr>users := [?u]\<rparr>)"
    by (simp add: insert_user_def Let_def)
  ultimately have "d' = d\<lparr>users := [?u]\<rparr>" "s' = login_user s ?u"
    using assms(2) by (simp_all add: register_def)
  then have "current_user d' s' = Inr (Authenticated ?u)"
    by (simp add: current_user_def load_user_def get_user_def login_user_def)
  then show ?thesis by (simp add: admin_only_def)
qed

theorem first_user_is_admin_witness:
  "\<exists>u. current_user (fst (snd (handle demo_digest empty_db empty_session alice_registers)))
         (snd (snd (handle demo_digest empty_db empty_session alice_registers))) = Inr (Authenticated u) \<and>
       user_id u = 1 \<and> admin_only (Authenticated u) = Inr u"
  using first_user_is_admin [of empty_db demo_digest empty_session
      "\<lparr>rf_email = ''alice@blog.dev'', rf_password = ''secret'', rf_name = ''Alice''\<rparr>" "''Ab3dEf7h''"
      "fst (handle demo_digest empty_db empty_session alice_registers)"
      "fst (snd (handle demo_digest empty_db empty_session alice_registers))"
      "snd (snd (handle demo_digest empty_db empty_session alice_registers))"]
  by (simp add: empty_db_def alice_registers_def)

text \<open>
  C20. The listing is read-only: it changes neither the database nor the
  session, and for a valid session it renders every stored post in rowid
  order, flagged with whether the client is logged in.
\<close>

theorem get_all_posts_listing:
  "sess_inv d s \<Longrightarrow>
     handle h d s Get_all_posts =
       (Inr (Render (Index_page (blog_posts d) (sess_user_id s \<noteq> None))), d, s)"
  by (auto simp: get_all_posts_def all_posts_def is_authenticated_def current_user_def
      load_user_def get_user_def sess_inv_def user_ids_def split: option.splits
      dest: find_row_in_keys)

theorem get_all_posts_listing_witness:
  "handle demo_digest demo_db bob_session Get_all_posts =
     (Inr (Render (Index_page [hello_post] True)), demo_db, bob_session)"
proof -
  have "sess_inv demo_db bob_session"
    by (simp add: sess_inv_def bob_session_def demo_defs user_ids_def)
  from get_all_posts_listing [OF this, of demo_digest] show ?thesis
    by (simp add: demo_db_def bob_session_def)
qed


text \<open>
  A user whose stored \<open>password\<close> column holds fewer than two
  \<open>$\<close> separators (not a werkzeug hash, e.g. a plaintext password written
  by hand) can never log in: every attempt renders ``Password incorrect''
  and leaves the session unbound.
\<close>

theorem login_malformed_hash:
  "select_user_by_email d (lf_email f) = Some u \<Longrightarrow>
     length (filter (\<lambda>c. c = CHR ''$'') (password u)) < 2 \<Longrightarrow>
     handle h d s (Login (Some f)) =
       (Inr (Render Login_page), d, flash s ''Password incorrect, Please try again'')"
  by (simp add: login_def check_malformed_hash)

theorem login_malformed_hash_witness:
  "handle demo_digest (demo_db\<lparr>users := [alice\<lparr>password := ''secret''\<rparr>]\<rparr>) empty_session
      (Login (Some \<lparr>lf_email = ''alice@blog.dev'', lf_password = ''secret''\<rparr>)) =
     (Inr (Render Login_page), demo_db\<lparr>users := [alice\<lparr>password := ''secret''\<rparr>]\<rparr>,
      flash empty_session ''Password incorrect, Please try again'')"
proof -
  let ?d = "demo_db\<lparr>users := [alice\<lparr>password := ''secret''\<rparr>]\<rparr>"
  have sel: "select_user_by_email ?d ''alice@blog.dev'' = Some (alice\<lparr>password := ''secret''\<rparr>)"
    by (simp add: route_eval_defs)
  have cnt: "length (filter (\<lambda>c. c = CHR ''$'') (password (alice\<lparr>password := ''secret''\<rparr>))) < 2"
    by simp
  show ?thesis
    using login_malformed_hash [of ?d "\<lparr>lf_email = ''alice@blog.dev'', lf_password = ''secret''\<rparr>"
        "alice\<lparr>password := ''secret''\<rparr>" demo_digest empty_session] sel cnt
    by simp
qed

text \<open>
  C30. Registration never fails with an internal error: the handler queries
  the e-mail before inserting, so the \<open>UNIQUE\<close> constraint on
  \<open>users.email\<close> never fires and every outcome is a response.
\<close>

theorem register_never_internal_error:
  "\<exists>resp. fst (handle h d s (Register form salt)) = Inr resp"
proof (cases form)
  case None
  then show ?thesis by (simp add: register_def)
next
  case (Some f)
  show ?thesis
  proof (cases "select_user_by_email d (rf_email f)")
    case None
    then have "\<not> list_ex (\<lambda>u. email u = rf_email f) (users d)"
      by (auto simp: select_user_by_email_None list_ex_iff image_iff)
    with Some None show ?thesis by (simp add: register_def insert_user_def Let_def)
  next
    case (Some u)
    with \<open>form = Some f\<close> show ?thesis by (simp add: register_def)
  qed
qed

text \<open>
  Viewing or commenting on a post id that is not stored answers 404 and
  changes nothing, whoever asks: the lookup comes before the form and the
  authentication check.
\<close>

lemma show_post_missing:
  "get_post d pid = None \<Longrightarrow> handle h d s (Show_post pid form) = (Inl NotFound, d, s)"
  by (simp add: show_post_def)

lemma current_user_stale:
  assumes "sess_user_id s = Some i" and "i \<notin> user_ids d"
  shows "current_user d s = Inl NotFound"
proof -
  from assms(2) have "get_user d i = None" by (simp add: get_user_def user_ids_def)
  with assms(1) show ?thesis by (simp add: current_user_def load_user_def)
qed

text \<open>
  C31. A client whose session names a user id that is not stored (a cookie
  still signed with the same key after the database was reset) gets 404 from
  every route that resolves the current user, and nothing changes: the
  listing, logout, and every decorated route. \<open>load_user\<close> uses
  \<open>get_or_404\<close> instead of returning \<open>None\<close>, so the client is never
  treated as anonymous and cannot even log out.
\<close>

theorem stale_session_not_found:
  assumes "sess_user_id s = Some i" and "i \<notin> user_ids d"
  shows "handle h d s Get_all_posts = (Inl NotFound, d, s) \<and>
         handle h d s Logout = (Inl NotFound, d, s) \<and>
         (admin_route r \<longrightarrow> handle h d s r = (Inl NotFound, d, s))"
proof -
  have cu: "current_user d s = Inl NotFound" using assms by (rule current_user_stale)
  have "admin_route r \<longrightarrow> handle h d s r = (Inl NotFound, d, s)"
    using cu by (cases r) (simp_all add: with_admin_def)
  with cu show ?thesis by (simp add: get_all_posts_def logout_def)
qed

theorem stale_session_not_found_witness:
  "handle demo_digest demo_db \<lparr>sess_user_id = Some 7, flashes = []\<rparr> Logout =
     (Inl NotFound, demo_db, \<lparr>sess_user_id = Some 7, flashes = []\<rparr>) \<and>
   handle demo_digest demo_db \<lparr>sess_user_id = Some 7, flashes = []\<rparr> (Delete_post 1) =
     (Inl NotFound, demo_db, \<lparr>sess_user_id = Some 7, flashes = []\<rparr>)"
proof -
  have "7 \<notin> user_ids demo_db" by (simp add: demo_defs user_ids_def)
  from stale_session_not_found [of "\<lparr>sess_user_id = Some 7, flashes = []\<rparr>" 7 demo_db demo_digest
      "Delete_post 1", OF _ this] show ?thesis by simp
qed

text \<open>
  C32. The admin editing a post to the title of another stored post gets an
  internal error (the \<open>UNIQUE\<close> constraint fails the \<open>UPDATE\<close>) and
  nothing changes.
\<close>

theorem edit_post_duplicate_title:
  assumes "current_user d s = Inr (Authenticated u)" and "user_id u = 1"
    and "get_post d pid = Some p"
    and "q \<in> set (blog_posts d)" and "title q = pf_title f" and "post_id q \<noteq> pid"
  shows "handle h d s (Edit_post pid (Some f)) = (Inl (InternalError IntegrityError), d, s)"
proof -
  from assms(3) have "post_id p = pid" by (auto dest: get_post_SomeD)
  moreover have "list_ex (\<lambda>q. title q = pf_title f \<and> post_id q \<noteq> pid) (blog_posts d)"
    using assms(4-6) by (auto simp: list_ex_iff)
  ultimately show ?thesis
    using assms(1-3) by (simp add: with_admin_def admin_only_def edit_post_def update_post_def)
qed

theorem edit_post_duplicate_title_witness:
  "handle demo_digest (demo_db\<lparr>blog_posts := [hello_post, hello_post\<lparr>post_id := 2, title := ''Second''\<rparr>]\<rparr>)
      alice_session (Edit_post 2 (Some (hello_form\<lparr>pf_title := ''Hello''\<rparr>))) =
     (Inl (InternalError IntegrityError),
      demo_db\<lparr>blog_posts := [hello_post, hello_post\<lparr>post_id := 2, title := ''Second''\<rparr>]\<rparr>, alice_session)"
proof -
  let ?d = "demo_db\<lparr>blog_posts := [hello_post, hello_post\<lparr>post_id := 2, title := ''Second''\<rparr>]\<rparr>"
  have cu: "current_user ?d alice_session = Inr (Authenticated alice)" by (simp add: route_eval_defs)
  have gp: "get_post ?d 2 = Some (hello_post\<lparr>post_id := 2, title := ''Second''\<rparr>)"
    by (simp add: route_eval_defs)
  have q: "hello_post \<in> set (blog_posts ?d)" by simp
  show ?thesis
    using edit_post_duplicate_title [OF cu _ gp q, of "hello_form\<lparr>pf_title := ''Hello''\<rparr>" demo_digest]
    by (simp add: alice_def hello_post_def)
qed


subsection \<open>The pages redirects lead to\<close>

text \<open>A GET of a redirect target never redirects again and changes nothing.\<close>

lemma get_endpoint_not_redirect: "fst (handle h d s (get_endpoint t)) \<noteq> Inr (Redirect t')"
  by (cases t) (auto simp: login_def get_all_posts_def show_post_def split: option.splits sum.splits)

lemma get_endpoint_safe: "snd (handle h d s (get_endpoint t)) = (d, s)"
  by (cases t) (auto simp: login_def get_all_posts_def show_post_def split: option.splits sum.splits)

end
