(* ===== verification/App.thy ===== *)
theory App
  imports Routes
begin

text \<open>
  The whole application: a record of the database and one session per
  client (\<open>app\<close>), \<open>app_step\<close> serving one request of one client through
  the dispatch \<open>handle\<close> of \<open>Routes\<close>, \<open>run\<close> serving a sequence, and
  \<open>reach\<close>, the states reachable from the empty database by any requests of
  any clients. It holds the invariants of the reachable states (proved by
  rule induction from one preservation lemma per route) and the abstract
  session automaton \<open>sess_move\<close> of the spec with the simulation of each
  step.
\<close>

subsection \<open>The application\<close>

record app =
  app_db :: db
  sessions :: "nat \<Rightarrow> session"

definition init_app :: app where
  "init_app = \<lparr>app_db = empty_db, sessions = (\<lambda>c. empty_session)\<rparr>"

definition app_step :: "digest_fn \<Rightarrow> app \<Rightarrow> nat \<Rightarrow> request \<Rightarrow> (http_error + response) \<times> app" where
  "app_step h a c r =
     (case handle h (app_db a) (sessions a c) r of
        (out, d', s') \<Rightarrow> (out, \<lparr>app_db = d', sessions = (sessions a)(c := s')\<rparr>))"

fun run :: "digest_fn \<Rightarrow> app \<Rightarrow> (nat \<times> request) list \<Rightarrow> (http_error + response) list \<times> app" where
  "run h a [] = ([], a)"
| "run h a ((c, r) # rs) =
     (case app_step h a c r of
        (out, a') \<Rightarrow> (case run h a' rs of (outs, a'') \<Rightarrow> (out # outs, a'')))"

inductive reach :: "digest_fn \<Rightarrow> app \<Rightarrow> bool" for h where
  init: "reach h init_app"
| step: "reach h a \<Longrightarrow> reach h (snd (app_step h a c r))"


subsection \<open>Invariants\<close>

text \<open>The invariant of a whole application state.\<close>

definition app_inv :: "app \<Rightarrow> bool" where
  "app_inv a \<longleftrightarrow> db_inv (app_db a) \<and> (\<forall>c. sess_inv (app_db a) (sessions a c))"

text \<open>
  \<open>route_ok d d' s'\<close>: the request went from a state satisfying the
  invariants to one satisfying them, and no user disappeared (so the
  sessions of the other clients stay valid).
\<close>

definition route_ok :: "db \<Rightarrow> db \<Rightarrow> session \<Rightarrow> bool" where
  "route_ok d d' s' \<longleftrightarrow> db_inv d' \<and> sess_inv d' s' \<and> user_ids d \<subseteq> user_ids d'"

text \<open>Every stored post has the admin as its author.\<close>

definition posts_by_admin :: "db \<Rightarrow> bool" where
  "posts_by_admin d \<longleftrightarrow> (\<forall>p \<in> set (blog_posts d). author_id p = 1)"

text \<open>
  The abstract session automaton of the spec: a request either leaves the
  client's session state as it is (every request but logout), binds it to a
  stored user (login and register), or unbinds it (logout).
\<close>

inductive sess_move :: "nat set \<Rightarrow> request \<Rightarrow> sess_state \<Rightarrow> sess_state \<Rightarrow> bool" for ids where
  keep: "r \<noteq> Logout \<Longrightarrow> sess_move ids r q q"
| login: "i \<in> ids \<Longrightarrow> sess_move ids (Login (Some f)) q (Auth i)"
| register: "i \<in> ids \<Longrightarrow> sess_move ids (Register (Some f) salt) q (Auth i)"
| logout: "sess_move ids Logout q Anon"

subsection \<open>Each route keeps the store and session invariants\<close>

lemma route_ok_same [intro]: "db_inv d \<Longrightarrow> sess_inv d s \<Longrightarrow> route_ok d d s"
  by (simp add: route_ok_def)

lemma register_ok:
  assumes "db_inv d" "sess_inv d s" "register h d s form salt = (out, d', s')"
  shows "route_ok d d' s'"
proof (cases "\<exists>f u. form = Some f \<and> select_user_by_email d (rf_email f) = None \<and>
                 insert_user d (rf_email f) (generate_password_hash h (rf_password f) salt)
                   (rf_name f) = Inr (u, d')")
  case True
  then obtain f u where f: "form = Some f" "select_user_by_email d (rf_email f) = None"
    and ins: "insert_user d (rf_email f) (generate_password_hash h (rf_password f) salt)
                (rf_name f) = Inr (u, d')" by blast
  from f ins assms(3) have s': "s' = login_user s u" by (simp add: register_def)
  from ins have d': "d' = d\<lparr>users := users d @ [u]\<rparr>" by (simp add: insert_user_Inr)
  have sub: "user_ids d \<subseteq> user_ids d'" and u: "user_id u \<in> user_ids d'"
    by (auto simp: d' user_ids_def)
  from assms(1) ins have "db_inv d'" by (rule insert_user_inv)
  with sub u s' show ?thesis by (simp add: route_ok_def sess_inv_login)
next
  case False
  with assms show ?thesis
    by (auto simp: register_def route_ok_def split: option.splits sum.splits)
qed

lemma login_ok:
  assumes "db_inv d" "sess_inv d s" "login h d s form = (out, d', s')"
  shows "route_ok d d' s'"
  using assms
  by (auto simp: login_def route_ok_def split: option.splits if_splits
      dest!: select_user_by_email_SomeD intro: sess_inv_login user_id_in_user_ids)


lemma route_ok_users:
  "db_inv d' \<Longrightarrow> sess_inv d s \<Longrightarrow> users d' = users d \<Longrightarrow> route_ok d d' s"
  by (simp add: route_ok_def user_ids_def sess_inv_def)

lemma show_post_ok:
  assumes "db_inv d" "sess_inv d s" "show_post d s pid form = (out, d', s')"
  shows "route_ok d d' s'"
proof (cases "\<exists>p m u. get_post d pid = Some p \<and> form = Some m \<and>
                current_user d s = Inr (Authenticated u)")
  case True
  then obtain p m u where p: "get_post d pid = Some p" and f: "form = Some m"
    and u: "current_user d s = Inr (Authenticated u)" by blast
  obtain c d'' where ins: "insert_comment d m (user_id u) (post_id p) = (c, d'')"
    by fastforce
  from assms(3) p f u ins have d': "d' = d''" and s': "s' = s"
    by (auto simp: show_post_def Let_def)
  have "user_id u \<in> user_ids d"
    using u by (auto dest!: current_user_Authenticated intro: user_id_in_user_ids)
  moreover have "post_id p \<in> post_ids d"
    using p by (auto simp: post_ids_def dest!: get_post_SomeD)
  ultimately have "db_inv d'" using assms(1) ins d' by (blast intro: insert_comment_inv)
  with assms(2) ins show ?thesis
    by (simp add: d' s' route_ok_users insert_comment_users)
next
  case False
  with assms show ?thesis
    by (auto simp: show_post_def route_ok_def split: option.splits sum.splits actor.splits)
qed

lemma with_admin_ok:
  assumes "db_inv d" "sess_inv d s" "with_admin d s f = (out, d', s')"
    and "\<And>u. u \<in> set (users d) \<Longrightarrow> user_id u = 1 \<Longrightarrow> f u = (out, d', s') \<Longrightarrow> route_ok d d' s'"
  shows "route_ok d d' s'"
  using with_admin_cases [OF assms(3)] assms(1,2,4)
  by (auto dest: current_user_Authenticated)

lemma add_new_post_ok:
  assumes "db_inv d" "sess_inv d s" "u \<in> set (users d)"
    and "add_new_post d s form today u = (out, d', s')"
  shows "route_ok d d' s'"
proof -
  have "user_id u \<in> user_ids d" using assms(3) by (rule user_id_in_user_ids)
  with assms show ?thesis
    by (auto simp: add_new_post_def split: option.splits sum.splits
        intro: route_ok_users insert_post_inv insert_post_users)
qed

lemma edit_post_ok:
  assumes "db_inv d" "sess_inv d s" "u \<in> set (users d)"
    and "edit_post d s pid form u = (out, d', s')"
  shows "route_ok d d' s'"
proof -
  have "user_id u \<in> user_ids d" using assms(3) by (rule user_id_in_user_ids)
  with assms show ?thesis
    by (auto simp: edit_post_def split: option.splits sum.splits
        intro: route_ok_users update_post_inv update_post_users)
qed

lemma delete_post_ok:
  assumes "db_inv d" "sess_inv d s" "delete_post d s pid = (out, d', s')"
  shows "route_ok d d' s'"
  using assms
  by (auto simp: delete_post_def split: option.splits sum.splits
      intro: route_ok_users delete_post_row_inv delete_post_row_users)

lemma handle_ok:
  assumes "db_inv d" "sess_inv d s" "handle h d s r = (out, d', s')"
  shows "route_ok d d' s'"
proof (cases r)
  case (Add_new_post form today)
  with assms(3) have "with_admin d s (add_new_post d s form today) = (out, d', s')" by simp
  with assms(1,2) show ?thesis
    by (rule with_admin_ok) (blast intro: add_new_post_ok [OF assms(1,2)])
next
  case (Edit_post pid form)
  with assms(3) have "with_admin d s (edit_post d s pid form) = (out, d', s')" by simp
  with assms(1,2) show ?thesis
    by (rule with_admin_ok) (blast intro: edit_post_ok [OF assms(1,2)])
next
  case (Delete_post pid)
  with assms(3) have "with_admin d s (\<lambda>u. delete_post d s pid) = (out, d', s')" by simp
  with assms(1,2) show ?thesis
    by (rule with_admin_ok) (blast intro: delete_post_ok [OF assms(1,2)])
next
  case (Register form salt)
  with assms show ?thesis by (auto intro: register_ok)
next
  case (Login form)
  with assms show ?thesis by (auto intro: login_ok)
next
  case (Show_post pid form)
  with assms show ?thesis by (auto intro: show_post_ok)
qed (use assms in \<open>auto simp: logout_def get_all_posts_def route_ok_def split: sum.splits\<close>)


subsection \<open>Reachable states\<close>

lemma app_inv_init: "app_inv init_app"
  by (simp add: app_inv_def init_app_def db_inv_empty sess_inv_def empty_session_def)

lemma app_step_eq:
  "handle h (app_db a) (sessions a c) r = (out, d', s') \<Longrightarrow>
     app_step h a c r = (out, \<lparr>app_db = d', sessions = (sessions a)(c := s')\<rparr>)"
  by (simp add: app_step_def)

lemma app_step_inv:
  assumes "app_inv a"
  shows "app_inv (snd (app_step h a c r))"
proof -
  obtain out d' s' where hd: "handle h (app_db a) (sessions a c) r = (out, d', s')"
    by (metis prod_cases3)
  from assms have "db_inv (app_db a)" "sess_inv (app_db a) (sessions a c)"
    by (auto simp: app_inv_def)
  from handle_ok [OF this hd] have ok: "route_ok (app_db a) d' s'" .
  have "sess_inv d' (sessions a c')" if "c' \<noteq> c" for c'
    using assms ok by (auto simp: app_inv_def route_ok_def intro: sess_inv_mono)
  with ok show ?thesis
    by (auto simp: app_step_eq [OF hd] app_inv_def route_ok_def)
qed

lemma reach_app_inv_lemma: "reach h a \<Longrightarrow> app_inv a"
  by (induction rule: reach.induct) (auto intro: app_inv_init app_step_inv)

subsection \<open>Posts keep the admin as author\<close>

lemma posts_by_admin_append:
  "posts_by_admin d \<Longrightarrow> author_id p = 1 \<Longrightarrow> posts_by_admin (d\<lparr>blog_posts := blog_posts d @ [p]\<rparr>)"
  by (simp add: posts_by_admin_def)

lemma add_new_post_by_admin:
  "posts_by_admin d \<Longrightarrow> user_id u = 1 \<Longrightarrow> add_new_post d s form today u = (out, d', s') \<Longrightarrow>
     posts_by_admin d'"
  by (auto simp: add_new_post_def insert_post_Inr split: option.splits sum.splits
      intro!: posts_by_admin_append)

lemma edit_post_by_admin:
  "posts_by_admin d \<Longrightarrow> user_id u = 1 \<Longrightarrow> edit_post d s pid form u = (out, d', s') \<Longrightarrow>
     posts_by_admin d'"
  by (auto simp: edit_post_def update_post_Inr posts_by_admin_def split: option.splits sum.splits
      dest!: set_update_row_subset)

lemma delete_post_by_admin:
  "posts_by_admin d \<Longrightarrow> delete_post d s pid = (out, d', s') \<Longrightarrow> posts_by_admin d'"
  by (auto simp: delete_post_def delete_post_row_Inr posts_by_admin_def
      split: option.splits sum.splits)

lemma with_admin_by_admin:
  assumes "posts_by_admin d" "with_admin d s f = (out, d', s')"
    and "\<And>u. user_id u = 1 \<Longrightarrow> f u = (out, d', s') \<Longrightarrow> posts_by_admin d'"
  shows "posts_by_admin d'"
  using with_admin_cases [OF assms(2)] assms(1,3) by auto

lemma handle_by_admin:
  assumes "posts_by_admin d" "handle h d s r = (out, d', s')"
  shows "posts_by_admin d'"
proof (cases r)
  case (Add_new_post form today)
  with assms(2) have "with_admin d s (add_new_post d s form today) = (out, d', s')" by simp
  then show ?thesis
    by (rule with_admin_by_admin [OF assms(1)]) (rule add_new_post_by_admin [OF assms(1)])
next
  case (Edit_post pid form)
  with assms(2) have "with_admin d s (edit_post d s pid form) = (out, d', s')" by simp
  then show ?thesis
    by (rule with_admin_by_admin [OF assms(1)]) (rule edit_post_by_admin [OF assms(1)])
next
  case (Delete_post pid)
  with assms(2) have "with_admin d s (\<lambda>u. delete_post d s pid) = (out, d', s')" by simp
  then show ?thesis
    by (rule with_admin_by_admin [OF assms(1)]) (rule delete_post_by_admin [OF assms(1)])
qed (use assms in \<open>auto simp: posts_by_admin_def login_def logout_def get_all_posts_def
       split: option.splits if_splits sum.splits dest!: register_posts show_post_posts\<close>)

lemma reach_posts_by_admin_lemma: "reach h a \<Longrightarrow> posts_by_admin (app_db a)"
proof (induction rule: reach.induct)
  case init
  show ?case by (simp add: posts_by_admin_def init_app_def empty_db_def)
next
  case (step a c r)
  obtain out d' s' where hd: "handle h (app_db a) (sessions a c) r = (out, d', s')"
    by (metis prod_cases3)
  from step.IH hd have "posts_by_admin d'" by (rule handle_by_admin)
  then show ?case by (simp add: app_step_eq [OF hd])
qed

lemmas eval_defs = route_eval_defs init_app_def app_step_def

subsection \<open>Properties of the application\<close>

text \<open>
  C1. In every state the application reaches from the empty database, by any
  sequence of requests of any clients, the store invariant holds (primary keys
  strictly increasing, e-mails and titles unique, every foreign key names a
  stored row) and every client's session is bound to no user or to a stored
  user.
\<close>

theorem reach_app_inv:
  "reach h a \<Longrightarrow> db_inv (app_db a) \<and> (\<forall>c. sess_inv (app_db a) (sessions a c))"
  using reach_app_inv_lemma by (simp add: app_inv_def)

theorem reach_app_inv_witness:
  "reach demo_digest (snd (app_step demo_digest init_app 0 alice_registers)) \<and>
   db_inv (app_db (snd (app_step demo_digest init_app 0 alice_registers))) \<and>
   (\<forall>c. sess_inv (app_db (snd (app_step demo_digest init_app 0 alice_registers)))
          (sessions (snd (app_step demo_digest init_app 0 alice_registers)) c))"
proof -
  have r: "reach demo_digest (snd (app_step demo_digest init_app 0 alice_registers))"
    by (rule reach.step [OF reach.init])
  from reach_app_inv [OF r] r show ?thesis by simp
qed
text \<open>
  C17. In every reachable state the \<open>author\<close> relationship of every stored
  post resolves to the stored admin (user 1): posts are created and edited
  only behind \<open>admin_only\<close>, both set the author to the current user, and
  users are never removed.
\<close>

theorem reach_posts_by_admin:
  "reach h a \<Longrightarrow>
     \<forall>p \<in> set (blog_posts (app_db a)). \<exists>u. post_author (app_db a) p = Some u \<and> user_id u = 1"
proof
  fix p assume r: "reach h a" and p: "p \<in> set (blog_posts (app_db a))"
  from reach_app_inv_lemma [OF r] have inv: "db_inv (app_db a)" by (simp add: app_inv_def)
  from relationships_resolve(1) [OF inv p] obtain u where u: "post_author (app_db a) p = Some u" by blast
  from reach_posts_by_admin_lemma [OF r] p have "author_id p = 1" by (simp add: posts_by_admin_def)
  with u show "\<exists>u. post_author (app_db a) p = Some u \<and> user_id u = 1"
    by (auto simp: post_author_def dest: get_user_SomeD)
qed

theorem reach_posts_by_admin_witness:
  "reach demo_digest (snd (app_step demo_digest (snd (app_step demo_digest init_app 0 alice_registers)) 0
      (Add_new_post (Some hello_form) \<lparr>year = 2026, month = 11, day = 9\<rparr>))) \<and>
   blog_posts (app_db (snd (app_step demo_digest (snd (app_step demo_digest init_app 0 alice_registers)) 0
      (Add_new_post (Some hello_form) \<lparr>year = 2026, month = 11, day = 9\<rparr>)))) \<noteq> [] \<and>
   list_all (\<lambda>p. \<exists>u. post_author (app_db (snd (app_step demo_digest
      (snd (app_step demo_digest init_app 0 alice_registers)) 0
      (Add_new_post (Some hello_form) \<lparr>year = 2026, month = 11, day = 9\<rparr>)))) p = Some u \<and> user_id u = 1)
     (blog_posts (app_db (snd (app_step demo_digest
      (snd (app_step demo_digest init_app 0 alice_registers)) 0
      (Add_new_post (Some hello_form) \<lparr>year = 2026, month = 11, day = 9\<rparr>)))))"
proof -
  let ?a = "snd (app_step demo_digest (snd (app_step demo_digest init_app 0 alice_registers)) 0
      (Add_new_post (Some hello_form) \<lparr>year = 2026, month = 11, day = 9\<rparr>))"
  have r: "reach demo_digest ?a"
    by (rule reach.step [OF reach.step [OF reach.init]])
  have ne: "blog_posts (app_db ?a) \<noteq> []"
    by (simp add: eval_defs next_id_def max_id_def)
  from reach_posts_by_admin [OF r] r ne show ?thesis by (simp add: list_all_iff)
qed

text \<open>
  C22. Registration and login round-trip across clients: after one client
  registers a new e-mail and password, another client that logs in with the
  same e-mail and password is redirected to the listing and its session is
  bound to the new user's id.
\<close>

theorem register_then_login:
  assumes "rf_email f \<notin> email ` set (users (app_db a))" and "salt_ok salt"
  shows "fst (app_step h (snd (app_step h a c (Register (Some f) salt))) c'
              (Login (Some \<lparr>lf_email = rf_email f, lf_password = rf_password f\<rparr>))) =
           Inr (Redirect To_get_all_posts) \<and>
         sess_user_id (sessions (snd (app_step h (snd (app_step h a c (Register (Some f) salt))) c'
              (Login (Some \<lparr>lf_email = rf_email f, lf_password = rf_password f\<rparr>)))) c') =
           Some (next_id user_id (users (app_db a)))"
proof -
  let ?u = "\<lparr>user_id = next_id user_id (users (app_db a)), email = rf_email f,
             password = generate_password_hash h (rf_password f) salt, name = rf_name f\<rparr>"
  let ?d = "app_db a\<lparr>users := users (app_db a) @ [?u]\<rparr>"
  have "select_user_by_email (app_db a) (rf_email f) = None"
    using assms(1) by (simp add: select_user_by_email_None)
  moreover have "insert_user (app_db a) (rf_email f) (generate_password_hash h (rf_password f) salt)
                   (rf_name f) = Inr (?u, ?d)"
    using assms(1) by (simp add: insert_user_Inr)
  ultimately have reg: "handle h (app_db a) (sessions a c) (Register (Some f) salt) =
               (Inr (Redirect To_get_all_posts), ?d, login_user (sessions a c) ?u)"
    by (simp add: register_def)
  have sel: "select_user_by_email ?d (rf_email f) = Some ?u"
  proof -
    have "\<forall>x \<in> set (users (app_db a)). \<not> email x = rf_email f"
      using assms(1) by (auto simp: image_iff)
    then show ?thesis by (simp add: select_user_by_email_def find_append_fresh)
  qed
  have chk: "check_password_hash h (password ?u) (rf_password f)"
    using salt_ok_no_dollar [OF assms(2)] by (simp add: check_generated)
  show ?thesis
    using reg sel chk by (simp add: app_step_def login_def login_user_def)
qed

theorem register_then_login_witness:
  "fst (app_step demo_digest (snd (app_step demo_digest init_app 0 alice_registers)) 1
        (Login (Some \<lparr>lf_email = ''alice@blog.dev'', lf_password = ''secret''\<rparr>))) =
     Inr (Redirect To_get_all_posts) \<and>
   sess_user_id (sessions (snd (app_step demo_digest (snd (app_step demo_digest init_app 0 alice_registers)) 1
        (Login (Some \<lparr>lf_email = ''alice@blog.dev'', lf_password = ''secret''\<rparr>)))) 1) = Some 1"
proof -
  have e: "''alice@blog.dev'' \<notin> email ` set (users (app_db init_app))"
    by (simp add: init_app_def empty_db_def)
  have salt: "salt_ok ''Ab3dEf7h''" by (simp add: salt_ok_def salt_chars_def)
  show ?thesis
    using register_then_login [of "\<lparr>rf_email = ''alice@blog.dev'', rf_password = ''secret'',
        rf_name = ''Alice''\<rparr>" init_app "''Ab3dEf7h''" demo_digest 0 1] e salt
    by (simp add: alice_registers_def init_app_def empty_db_def)
qed


subsection \<open>The session automaton\<close>

lemma abs_session_flash [simp]: "abs_session (flash s m) = abs_session s"
  by (simp add: abs_session_def flash_def)

lemma abs_session_login [simp]: "abs_session (login_user s u) = Auth (user_id u)"
  by (simp add: abs_session_def login_user_def)

lemma abs_session_logout [simp]: "abs_session (logout_user s) = Anon"
  by (simp add: abs_session_def logout_user_def)

lemma with_admin_session:
  assumes "with_admin d s f = (out, d', s')" and "\<And>u. snd (snd (f u)) = s"
  shows "s' = s"
  using with_admin_cases [OF assms(1)] assms(2) by (metis snd_conv)

inductive_cases sess_move_LogoutE: "sess_move ids Logout q q'"

inductive_simps sess_move_Auth_simp: "sess_move ids r q (Auth i)"

text \<open>The abstract automaton: logout always ends anonymous, and only a login or a
  registration binds a session to a new user.\<close>

lemma sess_move_Logout: "sess_move ids Logout q q' \<longleftrightarrow> q' = Anon"
  by (auto elim: sess_move_LogoutE intro: sess_move.logout)

lemma sess_move_binds:
  "sess_move ids r q (Auth i) \<Longrightarrow> q \<noteq> Auth i \<Longrightarrow>
     i \<in> ids \<and> ((\<exists>f. r = Login (Some f)) \<or> (\<exists>f salt. r = Register (Some f) salt))"
  by (auto simp: sess_move_Auth_simp)

lemma handle_sess_move:
  assumes "handle h d s r = (out, d', s')" and "sess_inv d s"
  shows "sess_move (user_ids d') r (abs_session s) (abs_session s')"
proof (cases r)
  case (Register form salt)
  with assms show ?thesis
    by (auto simp: register_def insert_user_Inr user_ids_def
        split: option.splits sum.splits intro: sess_move.intros)
next
  case (Login form)
  with assms show ?thesis
    by (auto simp: login_def user_ids_def split: option.splits if_splits
        dest!: select_user_by_email_SomeD intro: sess_move.keep sess_move.login [OF imageI])
next
  case Logout
  from sess_inv_current_user [OF assms(2)] obtain act where "current_user d s = Inr act" ..
  with Logout assms(1) show ?thesis by (auto simp: logout_def intro: sess_move.intros)
next
  case Get_all_posts
  with assms show ?thesis
    by (auto simp: get_all_posts_def split: sum.splits intro: sess_move.intros)
next
  case (Show_post pid form)
  with assms show ?thesis
    by (auto simp: show_post_def Let_def split: option.splits sum.splits actor.splits
        intro: sess_move.intros)
next
  case (Add_new_post form today)
  with assms have "s' = s"
    by (auto elim: with_admin_session simp: add_new_post_def split: option.splits sum.splits)
  with Add_new_post show ?thesis by (auto intro: sess_move.intros)
next
  case (Edit_post pid form)
  with assms have "s' = s"
    by (auto elim: with_admin_session simp: edit_post_def split: option.splits sum.splits)
  with Edit_post show ?thesis by (auto intro: sess_move.intros)
next
  case (Delete_post pid)
  with assms have "s' = s"
    by (auto elim: with_admin_session simp: delete_post_def split: option.splits sum.splits)
  with Delete_post show ?thesis by (auto intro: sess_move.intros)
qed (use assms in \<open>auto intro: sess_move.intros\<close>)


text \<open>
  C26. Every request refines the spec's session state machine (Anonymous /
  Authenticated): the acting client's session stays as it was, is bound to a
  stored user (only by login or register) or is unbound (by logout, always);
  the sessions of all other clients are untouched.
\<close>

theorem app_step_session_refines:
  assumes "reach h a" and "app_step h a c r = (out, a')"
  shows "sess_move (user_ids (app_db a')) r (abs_session (sessions a c)) (abs_session (sessions a' c)) \<and>
         (\<forall>c'. c' \<noteq> c \<longrightarrow> sessions a' c' = sessions a c')"
proof -
  obtain o' d' s' where hd: "handle h (app_db a) (sessions a c) r = (o', d', s')"
    by (metis prod_cases3)
  from assms(2) have a': "a' = \<lparr>app_db = d', sessions = (sessions a)(c := s')\<rparr>"
    by (simp add: app_step_eq [OF hd])
  from reach_app_inv_lemma [OF assms(1)] have "sess_inv (app_db a) (sessions a c)"
    by (simp add: app_inv_def)
  from handle_sess_move [OF hd this] show ?thesis by (simp add: a')
qed

theorem app_step_session_refines_witness:
  "reach demo_digest init_app \<and>
   sess_move (user_ids (app_db (snd (app_step demo_digest init_app 0 alice_registers)))) alice_registers
     (abs_session (sessions init_app 0))
     (abs_session (sessions (snd (app_step demo_digest init_app 0 alice_registers)) 0)) \<and>
   abs_session (sessions (snd (app_step demo_digest init_app 0 alice_registers)) 0) = Auth 1 \<and>
   sessions (snd (app_step demo_digest init_app 0 alice_registers)) 1 = sessions init_app 1"
proof -
  have st: "app_step demo_digest init_app 0 alice_registers =
      (fst (app_step demo_digest init_app 0 alice_registers), snd (app_step demo_digest init_app 0 alice_registers))"
    by simp
  have auth: "abs_session (sessions (snd (app_step demo_digest init_app 0 alice_registers)) 0) = Auth 1"
    by (simp add: eval_defs abs_session_def)
  from app_step_session_refines [OF reach.init st] auth reach.init show ?thesis by simp
qed

subsection \<open>Runs of requests\<close>

lemma run_Cons:
  "run h a ((c, r) # rs) =
     (fst (app_step h a c r) # fst (run h (snd (app_step h a c r)) rs),
      snd (run h (snd (app_step h a c r)) rs))"
  by (simp split: prod.splits)

lemma run_snd_Cons:
  "snd (run h a (cr # rs)) = snd (run h (snd (app_step h a (fst cr) (snd cr))) rs)"
  by (cases cr) (simp split: prod.splits)

lemma run_append:
  "snd (run h a (rs @ [(c, r)])) = snd (app_step h (snd (run h a rs)) c r)"
  by (induction rs arbitrary: a) (simp_all del: run.simps add: run_snd_Cons run.simps(1))

text \<open>
  The reachable states are exactly the states that \<open>run\<close> produces from the
  initial state: the inductive \<open>reach\<close> and the executable \<open>run\<close> agree.
\<close>

lemma reach_run: "reach h a \<Longrightarrow> reach h (snd (run h a rs))"
  by (induction rs arbitrary: a) (simp_all del: run.simps add: run_snd_Cons run.simps(1) reach.step)

lemma reach_iff_run: "reach h a \<longleftrightarrow> (\<exists>rs. snd (run h init_app rs) = a)"
proof
  assume "reach h a"
  then show "\<exists>rs. snd (run h init_app rs) = a"
  proof induction
    case init
    have "snd (run h init_app []) = init_app" by simp
    then show ?case by blast
  next
    case (step a c r)
    then obtain rs where "snd (run h init_app rs) = a" by blast
    then have "snd (run h init_app (rs @ [(c, r)])) = snd (app_step h a c r)"
      by (simp add: run_append)
    then show ?case by blast
  qed
next
  assume "\<exists>rs. snd (run h init_app rs) = a"
  then show "reach h a" using reach_run [OF reach.init] by blast
qed

subsection \<open>Progress of the admin\<close>

lemma select_user_stored:
  "db_inv d \<Longrightarrow> u \<in> set (users d) \<Longrightarrow> select_user_by_email d (email u) = Some u"
  by (simp add: select_user_by_email_def db_inv_def find_distinct)

lemma current_user_stored:
  "db_inv d \<Longrightarrow> u \<in> set (users d) \<Longrightarrow> current_user d (login_user s u) = Inr (Authenticated u)"
  by (simp add: current_user_def load_user_def get_user_def login_user_def db_inv_def
      find_row_distinct keys_ok_distinct)

lemma current_user_users_append:
  "sess_inv d s \<Longrightarrow> users d' = users d @ t \<Longrightarrow> current_user d' s = current_user d s"
  by (auto simp: sess_inv_def user_ids_def current_user_def load_user_def get_user_def
      find_row_append split: option.splits)

lemma handle_current_user_other:
  assumes "handle h d s r = (out, d', s')" and "sess_inv d s0"
  shows "current_user d' s0 = current_user d s0"
  using handle_users [OF assms(1)]
proof
  assume "users d' = users d"
  then show ?thesis using current_user_users_append [OF assms(2), of d' "[]"] by simp
next
  assume "\<exists>f salt u. r = Register (Some f) salt \<and> users d' = users d @ [u] \<and>
            email u = rf_email f \<and> password u = generate_password_hash h (rf_password f) salt"
  then obtain u where "users d' = users d @ [u]" by blast
  from current_user_users_append [OF assms(2) this] show ?thesis .
qed

subsection \<open>Properties of runs\<close>



text \<open>
  C18. Every account comes from a registration: after any run, the users
  table is the one before the run with rows appended, none changed or
  removed, and each appended user was created by a \<open>Register\<close> request of
  the run, with that request's e-mail and a werkzeug hash of its password.
\<close>

theorem run_users_provenance:
  "\<exists>new. users (app_db (snd (run h a rs))) = users (app_db a) @ new \<and>
     (\<forall>u \<in> set new. \<exists>c f salt. (c, Register (Some f) salt) \<in> set rs \<and> email u = rf_email f \<and>
        password u = generate_password_hash h (rf_password f) salt)"
proof (induction rs arbitrary: a)
  case Nil
  show ?case by simp
next
  case (Cons cr rs)
  obtain c r where cr: "cr = (c, r)" by fastforce
  obtain out d' s' where hd: "handle h (app_db a) (sessions a c) r = (out, d', s')"
    by (metis prod_cases3)
  let ?a = "snd (app_step h a c r)"
  from Cons.IH [of ?a] obtain new where
    new: "users (app_db (snd (run h ?a rs))) = users (app_db ?a) @ new"
    and src: "\<forall>u \<in> set new. \<exists>c f salt. (c, Register (Some f) salt) \<in> set rs \<and> email u = rf_email f \<and>
        password u = generate_password_hash h (rf_password f) salt" by blast
  have run: "snd (run h a (cr # rs)) = snd (run h ?a rs)" by (simp del: run.simps add: cr run_snd_Cons)
  have db: "app_db ?a = d'" by (simp add: app_step_eq [OF hd])
  from handle_users [OF hd] show ?case
  proof
    assume "users d' = users (app_db a)"
    show ?thesis
    proof (intro exI conjI)
      show "users (app_db (snd (run h a (cr # rs)))) = users (app_db a) @ new"
        using new db run \<open>users d' = users (app_db a)\<close> by simp
      show "\<forall>v \<in> set new. \<exists>c f salt. (c, Register (Some f) salt) \<in> set (cr # rs) \<and>
          email v = rf_email f \<and> password v = generate_password_hash h (rf_password f) salt"
      proof
        fix v assume "v \<in> set new"
        with src obtain c0 f0 salt0 where "(c0, Register (Some f0) salt0) \<in> set rs"
          "email v = rf_email f0" "password v = generate_password_hash h (rf_password f0) salt0"
          by blast
        then show "\<exists>c f salt. (c, Register (Some f) salt) \<in> set (cr # rs) \<and>
            email v = rf_email f \<and> password v = generate_password_hash h (rf_password f) salt"
          by (intro exI [of _ c0] exI [of _ f0] exI [of _ salt0]) simp
      qed
    qed
  next
    assume "\<exists>f salt u. r = Register (Some f) salt \<and> users d' = users (app_db a) @ [u] \<and>
        email u = rf_email f \<and> password u = generate_password_hash h (rf_password f) salt"
    then obtain f salt u where r: "r = Register (Some f) salt" and u: "users d' = users (app_db a) @ [u]"
      "email u = rf_email f" "password u = generate_password_hash h (rf_password f) salt" by blast
    show ?thesis
    proof (intro exI conjI)
      show "users (app_db (snd (run h a (cr # rs)))) = users (app_db a) @ (u # new)"
        using new db u(1) run by simp
      show "\<forall>v \<in> set (u # new). \<exists>c f salt. (c, Register (Some f) salt) \<in> set (cr # rs) \<and>
          email v = rf_email f \<and> password v = generate_password_hash h (rf_password f) salt"
      proof
        fix v assume v: "v \<in> set (u # new)"
        show "\<exists>c f salt. (c, Register (Some f) salt) \<in> set (cr # rs) \<and>
            email v = rf_email f \<and> password v = generate_password_hash h (rf_password f) salt"
        proof (cases "v = u")
          case True
          with u(2,3) cr r show ?thesis
            by (intro exI [of _ c] exI [of _ f] exI [of _ salt]) simp
        next
          case False
          with v src obtain c0 f0 salt0 where "(c0, Register (Some f0) salt0) \<in> set rs"
            "email v = rf_email f0" "password v = generate_password_hash h (rf_password f0) salt0"
            by auto
          then show ?thesis by (intro exI [of _ c0] exI [of _ f0] exI [of _ salt0]) simp
        qed
      qed
    qed
  qed
qed

theorem run_users_provenance_witness:
  "users (app_db (snd (run demo_digest init_app [(0, alice_registers), (1, Get_all_posts)]))) = [alice] \<and>
   email alice = ''alice@blog.dev'' \<and> password alice = generate_password_hash demo_digest ''secret'' ''Ab3dEf7h''"
proof -
  let ?rs = "[(0::nat, alice_registers), (1, Get_all_posts)]"
  obtain new where n: "users (app_db (snd (run demo_digest init_app ?rs))) = users (app_db init_app) @ new"
    and src: "\<forall>u \<in> set new. \<exists>c f salt. (c, Register (Some f) salt) \<in> set ?rs \<and>
        email u = rf_email f \<and> password u = generate_password_hash demo_digest (rf_password f) salt"
    using run_users_provenance [of demo_digest init_app ?rs] by blast
  have u: "users (app_db (snd (run demo_digest init_app ?rs))) = [alice]"
    by (simp add: eval_defs next_id_def max_id_def)
  have e: "users (app_db init_app) = []" by (simp add: init_app_def empty_db_def)
  from n u e have "new = [alice]" by simp
  with src have "\<exists>c f salt. (c, Register (Some f) salt) \<in> set ?rs \<and>
        email alice = rf_email f \<and> password alice = generate_password_hash demo_digest (rf_password f) salt"
    by simp
  then have "email alice = ''alice@blog.dev'' \<and> password alice = generate_password_hash demo_digest ''secret'' ''Ab3dEf7h''"
    by (auto simp: alice_registers_def)
  with u show ?thesis by simp
qed

text \<open>
  C38. Progress of the admin: from every reachable state, the admin's client,
  knowing the admin's password, can log in and then publish a post, for any
  contents of the form, under a title not yet used; both requests answer
  with the redirect to the listing and the post is then stored.
\<close>

theorem reach_admin_can_publish:
  assumes "reach h a" and "u \<in> set (users (app_db a))" and "user_id u = 1"
    and "check_password_hash h (password u) pw"
  shows "\<exists>t. run h a [(c, Login (Some \<lparr>lf_email = email u, lf_password = pw\<rparr>)),
                     (c, Add_new_post (Some (f\<lparr>pf_title := t\<rparr>)) today)] =
               ([Inr (Redirect To_get_all_posts), Inr (Redirect To_get_all_posts)],
                snd (run h a [(c, Login (Some \<lparr>lf_email = email u, lf_password = pw\<rparr>)),
                     (c, Add_new_post (Some (f\<lparr>pf_title := t\<rparr>)) today)])) \<and>
             t \<in> title ` set (blog_posts (app_db (snd (run h a
                   [(c, Login (Some \<lparr>lf_email = email u, lf_password = pw\<rparr>)),
                    (c, Add_new_post (Some (f\<lparr>pf_title := t\<rparr>)) today)]))))"
proof -
  let ?d = "app_db a" and ?s = "login_user (sessions a c) u"
  have inv: "db_inv ?d" using reach_app_inv_lemma [OF assms(1)] by (simp add: app_inv_def)
  obtain t where t: "t \<notin> title ` set (blog_posts ?d)" using fresh_string [of title "blog_posts ?d"] by blast
  let ?p = "\<lparr>post_id = next_id post_id (blog_posts ?d), title = t, subtitle = pf_subtitle f,
             date = strftime_date today, body = pf_body f, img_url = pf_img_url f, author_id = 1\<rparr>"
  let ?a1 = "\<lparr>app_db = ?d, sessions = (sessions a)(c := ?s)\<rparr>"
  have login: "app_step h a c (Login (Some \<lparr>lf_email = email u, lf_password = pw\<rparr>)) =
      (Inr (Redirect To_get_all_posts), ?a1)"
    using select_user_stored [OF inv assms(2)] assms(4) by (simp add: app_step_def login_def)
  have cu: "current_user ?d ?s = Inr (Authenticated u)" by (rule current_user_stored [OF inv assms(2)])
  have ins: "insert_post ?d t (pf_subtitle f) (pf_body f) (pf_img_url f) 1 (strftime_date today) =
      Inr (?p, ?d\<lparr>blog_posts := blog_posts ?d @ [?p]\<rparr>)"
    using t by (simp add: insert_post_Inr)
  have add: "app_step h ?a1 c (Add_new_post (Some (f\<lparr>pf_title := t\<rparr>)) today) =
      (Inr (Redirect To_get_all_posts),
       \<lparr>app_db = ?d\<lparr>blog_posts := blog_posts ?d @ [?p]\<rparr>, sessions = (sessions a)(c := ?s)\<rparr>)"
    using cu ins assms(3)
    by (simp add: app_step_def with_admin_def admin_only_def add_new_post_def)
  show ?thesis by (rule exI [of _ t]) (simp add: run_Cons login add)
qed



theorem reach_admin_can_publish_witness:
  "reach demo_digest (snd (app_step demo_digest init_app 0 alice_registers)) \<and>
   alice \<in> set (users (app_db (snd (app_step demo_digest init_app 0 alice_registers)))) \<and>
   user_id alice = 1 \<and> check_password_hash demo_digest (password alice) ''secret'' \<and>
   (\<exists>t. run demo_digest (snd (app_step demo_digest init_app 0 alice_registers))
          [(0, Login (Some \<lparr>lf_email = email alice, lf_password = ''secret''\<rparr>)),
           (0, Add_new_post (Some (hello_form\<lparr>pf_title := t\<rparr>)) \<lparr>year = 2026, month = 11, day = 9\<rparr>)] =
        ([Inr (Redirect To_get_all_posts), Inr (Redirect To_get_all_posts)],
         snd (run demo_digest (snd (app_step demo_digest init_app 0 alice_registers))
          [(0, Login (Some \<lparr>lf_email = email alice, lf_password = ''secret''\<rparr>)),
           (0, Add_new_post (Some (hello_form\<lparr>pf_title := t\<rparr>)) \<lparr>year = 2026, month = 11, day = 9\<rparr>)])) \<and>
        t \<in> title ` set (blog_posts (app_db (snd (run demo_digest
              (snd (app_step demo_digest init_app 0 alice_registers))
          [(0, Login (Some \<lparr>lf_email = email alice, lf_password = ''secret''\<rparr>)),
           (0, Add_new_post (Some (hello_form\<lparr>pf_title := t\<rparr>)) \<lparr>year = 2026, month = 11, day = 9\<rparr>)])))))"
proof -
  let ?a = "snd (app_step demo_digest init_app 0 alice_registers)"
  have r: "reach demo_digest ?a" by (rule reach.step [OF reach.init])
  have u: "alice \<in> set (users (app_db ?a))"
    by (simp add: eval_defs next_id_def max_id_def)
  have i: "user_id alice = 1" by (simp add: alice_def)
  have c: "check_password_hash demo_digest (password alice) ''secret''"
    by (simp add: alice_def check_generated)
  from reach_admin_can_publish [OF r u i c, of 0 hello_form "\<lparr>year = 2026, month = 11, day = 9\<rparr>"]
    r u i c show ?thesis by blast
qed

text \<open>
  C39. No plaintext password is ever stored: in every reachable state each
  stored password is a werkzeug hash \<open>method$salt$digest\<close> of some password
  with some salt.
\<close>

theorem reach_passwords_hashed:
  "reach h a \<Longrightarrow> \<forall>u \<in> set (users (app_db a)). \<exists>pw salt. password u = generate_password_hash h pw salt"
proof (induction rule: reach.induct)
  case init
  show ?case by (simp add: init_app_def empty_db_def)
next
  case (step a c r)
  obtain out d' s' where hd: "handle h (app_db a) (sessions a c) r = (out, d', s')"
    by (metis prod_cases3)
  from handle_users [OF hd] step.IH show ?case by (auto simp: app_step_eq [OF hd]) blast
qed

theorem reach_passwords_hashed_witness:
  "reach demo_digest (snd (app_step demo_digest init_app 0 alice_registers)) \<and>
   list_all (\<lambda>u. \<exists>pw salt. password u = generate_password_hash demo_digest pw salt)
     (users (app_db (snd (app_step demo_digest init_app 0 alice_registers)))) \<and>
   users (app_db (snd (app_step demo_digest init_app 0 alice_registers))) \<noteq> []"
proof -
  have r: "reach demo_digest (snd (app_step demo_digest init_app 0 alice_registers))"
    by (rule reach.step [OF reach.init])
  have ne: "users (app_db (snd (app_step demo_digest init_app 0 alice_registers))) \<noteq> []"
    by (simp add: eval_defs)
  from reach_passwords_hashed [OF r] r ne show ?thesis by (simp add: list_all_iff)
qed

text \<open>
  C40. A post that has a comment is permanent: whatever requests follow, of
  whichever clients, it stays stored and keeps a comment. No route deletes
  comments, and deleting a commented post always fails.
\<close>

theorem commented_post_permanent:
  "pid \<in> post_ids (app_db a) \<Longrightarrow> post_comments (app_db a) pid \<noteq> [] \<Longrightarrow>
     pid \<in> post_ids (app_db (snd (run h a rs))) \<and> post_comments (app_db (snd (run h a rs))) pid \<noteq> []"
proof (induction rs arbitrary: a)
  case Nil
  then show ?case by simp
next
  case (Cons cr rs)
  obtain c r where cr: "cr = (c, r)" by fastforce
  obtain out d' s' where hd: "handle h (app_db a) (sessions a c) r = (out, d', s')"
    by (metis prod_cases3)
  from handle_keeps_commented [OF hd Cons.prems]
  have "pid \<in> post_ids (app_db (snd (app_step h a c r))) \<and>
        post_comments (app_db (snd (app_step h a c r))) pid \<noteq> []"
    by (simp add: app_step_eq [OF hd])
  with Cons.IH show ?case by (simp del: run.simps add: cr run_snd_Cons)
qed




theorem commented_post_permanent_witness:
  "1 \<in> post_ids demo_db \<and>
   post_comments (demo_db\<lparr>comments := [\<lparr>comment_id = 1, cmt_author_id = 2, cmt_post_id = 1,
       comment_text = ''Nice''\<rparr>]\<rparr>) 1 \<noteq> [] \<and>
   1 \<in> post_ids (app_db (snd (run demo_digest
       \<lparr>app_db = demo_db\<lparr>comments := [\<lparr>comment_id = 1, cmt_author_id = 2, cmt_post_id = 1,
          comment_text = ''Nice''\<rparr>]\<rparr>, sessions = (\<lambda>c. alice_session)\<rparr>
       [(0, Delete_post 1), (0, Edit_post 1 (Some hello_form))]))) \<and>
   post_comments (app_db (snd (run demo_digest
       \<lparr>app_db = demo_db\<lparr>comments := [\<lparr>comment_id = 1, cmt_author_id = 2, cmt_post_id = 1,
          comment_text = ''Nice''\<rparr>]\<rparr>, sessions = (\<lambda>c. alice_session)\<rparr>
       [(0, Delete_post 1), (0, Edit_post 1 (Some hello_form))]))) 1 \<noteq> []"
proof -
  let ?a = "\<lparr>app_db = demo_db\<lparr>comments := [\<lparr>comment_id = 1, cmt_author_id = 2, cmt_post_id = 1,
          comment_text = ''Nice''\<rparr>]\<rparr>, sessions = (\<lambda>c. alice_session)\<rparr>"
  have p: "1 \<in> post_ids (app_db ?a)" by (simp add: demo_defs post_ids_def)
  have c: "post_comments (app_db ?a) 1 \<noteq> []" by (simp add: post_comments_def)
  from commented_post_permanent [OF p c, of demo_digest "[(0, Delete_post 1), (0, Edit_post 1 (Some hello_form))]"]
    p c show ?thesis by (simp add: post_ids_def)
qed


text \<open>
  C11. Clients are isolated: from a reachable state, a run of requests none
  of which comes from client \<open>c\<close> leaves \<open>c\<close>'s session cookie as it was
  and the user it resolves to (anonymous, or the same stored user) the
  same, whatever the other clients register, post, edit, delete or log in
  and out.
\<close>

theorem run_isolates_client:
  assumes "reach h a" and "\<forall>cr \<in> set rs. fst cr \<noteq> c"
  shows "sessions (snd (run h a rs)) c = sessions a c \<and>
         current_user (app_db (snd (run h a rs))) (sessions a c) = current_user (app_db a) (sessions a c)"
  using assms
proof (induction rs arbitrary: a)
  case Nil
  then show ?case by simp
next
  case (Cons cr rs)
  obtain c' r where cr: "cr = (c', r)" by fastforce
  with Cons.prems(2) have c': "c' \<noteq> c" by simp
  obtain out d' s' where hd: "handle h (app_db a) (sessions a c') r = (out, d', s')"
    by (metis prod_cases3)
  let ?a = "snd (app_step h a c' r)"
  have r: "reach h ?a" using Cons.prems(1) by (rule reach.step)
  have s: "sessions ?a c = sessions a c" using c' by (simp add: app_step_eq [OF hd])
  from reach_app_inv_lemma [OF Cons.prems(1)] have "sess_inv (app_db a) (sessions a c)"
    by (simp add: app_inv_def)
  from handle_current_user_other [OF hd this]
  have u: "current_user (app_db ?a) (sessions a c) = current_user (app_db a) (sessions a c)"
    by (simp add: app_step_eq [OF hd])
  from Cons.IH [OF r] Cons.prems(2) have "sessions (snd (run h ?a rs)) c = sessions ?a c \<and>
      current_user (app_db (snd (run h ?a rs))) (sessions ?a c) = current_user (app_db ?a) (sessions ?a c)"
    by simp
  with s u show ?case by (simp del: run.simps add: cr run_snd_Cons)
qed

theorem run_isolates_client_witness:
  "sessions (snd (run demo_digest (snd (app_step demo_digest init_app 0 alice_registers))
      [(1, alice_registers), (1, Logout)])) 0 =
     sessions (snd (app_step demo_digest init_app 0 alice_registers)) 0 \<and>
   current_user (app_db (snd (run demo_digest (snd (app_step demo_digest init_app 0 alice_registers))
      [(1, alice_registers), (1, Logout)])))
     (sessions (snd (app_step demo_digest init_app 0 alice_registers)) 0) = Inr (Authenticated alice)"
proof -
  let ?a = "snd (app_step demo_digest init_app 0 alice_registers)"
  have r: "reach demo_digest ?a" by (rule reach.step [OF reach.init])
  have o: "\<forall>cr \<in> set [(1::nat, alice_registers), (1, Logout)]. fst cr \<noteq> 0" by simp
  have c: "current_user (app_db ?a) (sessions ?a 0) = Inr (Authenticated alice)"
    by (simp add: eval_defs next_id_def max_id_def current_user_def load_user_def get_user_def
        login_user_def alice_def)
  from run_isolates_client [OF r o] c show ?thesis by simp
qed

end
