(* ===== verification/Config.thy ===== *)
theory Config
  imports App
begin

text \<open>
  Process configuration and start-up of \<open>src/main.py\<close>: \<open>load_dotenv()\<close>
  (line 18), the Flask configuration (lines 35 to 38: \<open>SECRET_KEY\<close> from the
  environment; lines 68 and 69: the two assignments of
  \<open>SQLALCHEMY_DATABASE_URI\<close>, both commented out), \<open>db.init_app(app)\<close>
  (line 72) and \<open>db.create_all()\<close> (lines 121 and 122). The environment is a
  map from variable names to values; the SQLite file is a record of its three
  tables, each present or absent.

  Two behaviours of the libraries the code calls decide what the application
  does under this configuration. Flask-SQLAlchemy 3 refuses \<open>init_app\<close>
  with a \<open>RuntimeError\<close> when neither \<open>SQLALCHEMY_DATABASE_URI\<close> nor
  \<open>SQLALCHEMY_BINDS\<close> is set (\<open>init_db\<close>). Flask opens a
  \<open>NullSession\<close> for every request when the secret key is unset or empty:
  reading it gives the empty session, and writing it raises
  \<open>RuntimeError\<close>. The forms of the handlers are Flask-WTF forms
  (\<open>validate_on_submit\<close>) with CSRF protection on by default: building
  one generates a CSRF token, which needs the secret key and writes the
  session, so without a key every form construction raises
  \<open>RuntimeError\<close> before the handler queries or commits anything
  (\<open>handle_unkeyed\<close>, \<open>app_step_cfg\<close>).
\<close>

type_synonym environ = "string \<rightharpoonup> string"

text \<open>\<open>load_dotenv()\<close>: the variables of the \<open>.env\<close> file are added to the
  environment; a variable already set keeps its value (\<open>override=False\<close>).\<close>

definition load_dotenv :: "environ \<Rightarrow> environ \<Rightarrow> environ" where
  "load_dotenv dotenv env = dotenv ++ env"

record flask_config =
  secret_key :: "string option"
  database_uri :: "string option"

text \<open>
  \<open>app.config['SECRET_KEY'] = os.getenv('SECRET_KEY')\<close>; the database URI is
  never assigned (both assignments are comments), and Flask does not read
  configuration from the environment on its own.
\<close>

definition configure :: "environ \<Rightarrow> flask_config" where
  "configure env = \<lparr>secret_key = env ''SECRET_KEY'', database_uri = None\<rparr>"

text \<open>\<open>RuntimeError\<close> of \<open>init_app\<close>, and \<open>OperationalError: no such table\<close>.\<close>

datatype startup_error = MissingDatabaseUri | NoSuchTable

text \<open>\<open>db.init_app(app)\<close>: Flask-SQLAlchemy's check of the URI.\<close>

definition init_db :: "flask_config \<Rightarrow> startup_error + string" where
  "init_db cfg = (case database_uri cfg of None \<Rightarrow> Inl MissingDatabaseUri | Some uri \<Rightarrow> Inr uri)"

record sqlite_file =
  f_users :: "user table option"
  f_blog_posts :: "blog_post table option"
  f_comments :: "comment table option"

text \<open>\<open>CREATE TABLE\<close> as \<open>create_all\<close> issues it (\<open>checkfirst=True\<close>): only
  when the table is absent.\<close>

definition create_table :: "'r table option \<Rightarrow> 'r table option" where
  "create_table t = (case t of None \<Rightarrow> Some [] | Some rows \<Rightarrow> Some rows)"

definition create_all :: "sqlite_file \<Rightarrow> sqlite_file" where
  "create_all f =
     \<lparr>f_users = create_table (f_users f), f_blog_posts = create_table (f_blog_posts f),
      f_comments = create_table (f_comments f)\<rparr>"

text \<open>The tables as the ORM reads them; a query on an absent table fails.\<close>

definition open_db :: "sqlite_file \<Rightarrow> db option" where
  "open_db f =
     (case (f_users f, f_blog_posts f, f_comments f) of
        (Some us, Some ps, Some cs) \<Rightarrow> Some \<lparr>users = us, blog_posts = ps, comments = cs\<rparr>
      | _ \<Rightarrow> None)"

text \<open>
  Importing the module under a configuration: \<open>init_app\<close>, then
  \<open>create_all\<close> inside the application context; the application starts
  with the stored tables and no client session.
\<close>

definition start_app :: "flask_config \<Rightarrow> sqlite_file \<Rightarrow> startup_error + (sqlite_file \<times> app)" where
  "start_app cfg f =
     (case init_db cfg of
        Inl e \<Rightarrow> Inl e
      | Inr uri \<Rightarrow>
          (let f' = create_all f in
           case open_db f' of
             None \<Rightarrow> Inl NoSuchTable
           | Some d \<Rightarrow> Inr (f', \<lparr>app_db = d, sessions = (\<lambda>c. empty_session)\<rparr>)))"

definition startup :: "environ \<Rightarrow> environ \<Rightarrow> sqlite_file \<Rightarrow> startup_error + (sqlite_file \<times> app)" where
  "startup dotenv env f = start_app (configure (load_dotenv dotenv env)) f"

text \<open>Flask signs the session cookie only with a non-empty secret key.\<close>

definition session_usable :: "flask_config \<Rightarrow> bool" where
  "session_usable cfg = (case secret_key cfg of None \<Rightarrow> False | Some k \<Rightarrow> k \<noteq> [])"

text \<open>The 500 of a form built without a key; nothing is queried or committed.\<close>

definition csrf_error :: "db \<Rightarrow> session \<Rightarrow> outcome" where
  "csrf_error d s = (Inl (InternalError RuntimeError), d, s)"

text \<open>
  The handlers without a key: each raises where its form is built, after
  what the code runs before that line. \<open>register\<close> and \<open>login\<close> build
  their form first (lines 132 and 164); \<open>show_post\<close> after
  \<open>get_or_404\<close> (lines 205 and 207); \<open>add_new_post\<close> after
  \<open>admin_only\<close> (lines 228 and 238); \<open>edit_post\<close> after \<open>admin_only\<close>
  and \<open>get_or_404\<close> (lines 258 and 259). The routes without a form run as
  with a key.
\<close>

fun handle_unkeyed :: "digest_fn \<Rightarrow> db \<Rightarrow> session \<Rightarrow> request \<Rightarrow> outcome" where
  "handle_unkeyed h d s (Register form salt) = csrf_error d s"
| "handle_unkeyed h d s (Login form) = csrf_error d s"
| "handle_unkeyed h d s (Show_post pid form) =
     (case get_post d pid of None \<Rightarrow> (Inl NotFound, d, s) | Some p \<Rightarrow> csrf_error d s)"
| "handle_unkeyed h d s (Add_new_post form today) = with_admin d s (\<lambda>u. csrf_error d s)"
| "handle_unkeyed h d s (Edit_post pid form) =
     with_admin d s (\<lambda>u. case get_post d pid of None \<Rightarrow> (Inl NotFound, d, s) | Some p \<Rightarrow> csrf_error d s)"
| "handle_unkeyed h d s r = handle h d s r"

text \<open>
  One request under a configuration. With a usable key it is \<open>app_step\<close>.
  Without one the handler runs on the empty \<open>NullSession\<close>; if it wrote the
  session (the session it returns differs from the empty one) the write
  raised \<open>RuntimeError\<close>, the response is a 500 and the database keeps what
  the handler committed before the write; the client's cookie is never set.
\<close>

definition app_step_cfg ::
  "flask_config \<Rightarrow> digest_fn \<Rightarrow> app \<Rightarrow> nat \<Rightarrow> request \<Rightarrow> (http_error + response) \<times> app" where
  "app_step_cfg cfg h a c r =
     (if session_usable cfg then app_step h a c r
      else (case handle_unkeyed h (app_db a) empty_session r of
              (out, d', s') \<Rightarrow>
                (if s' = empty_session then out else Inl (InternalError RuntimeError),
                 a\<lparr>app_db := d'\<rparr>)))"

inductive reach_cfg :: "flask_config \<Rightarrow> digest_fn \<Rightarrow> app \<Rightarrow> bool" for cfg h where
  init: "reach_cfg cfg h init_app"
| step: "reach_cfg cfg h a \<Longrightarrow> reach_cfg cfg h (snd (app_step_cfg cfg h a c r))"

subsection \<open>Start-up\<close>

lemma create_table_idem [simp]: "create_table (create_table t) = create_table t"
  by (simp add: create_table_def split: option.splits)

lemma create_table_present: "t \<noteq> None \<Longrightarrow> create_table t = t"
  by (auto simp: create_table_def)

lemma create_all_idem [simp]: "create_all (create_all f) = create_all f"
  by (simp add: create_all_def)

lemma open_db_create_all: "\<exists>d. open_db (create_all f) = Some d"
  by (simp add: open_db_def create_all_def create_table_def split: option.splits)

lemma start_app_Inr:
  "start_app cfg f = Inr (f', a) \<longleftrightarrow>
     database_uri cfg \<noteq> None \<and> f' = create_all f \<and> open_db f' = Some (app_db a) \<and>
     sessions a = (\<lambda>c. empty_session)"
  using open_db_create_all [of f]
  by (cases a) (auto simp: start_app_def init_db_def Let_def split: option.splits)

subsection \<open>Requests without a secret key\<close>

lemma session_written: "flash s m \<noteq> s" "sess_user_id s = None \<Longrightarrow> login_user s u \<noteq> s"
  by (cases s, simp add: flash_def, cases s, simp add: login_user_def)







subsection \<open>Properties of the configuration\<close>

text \<open>
  C33. As written, the application never starts: neither assignment of
  \<open>SQLALCHEMY_DATABASE_URI\<close> is in effect, so \<open>db.init_app(app)\<close> raises
  \<open>RuntimeError\<close> whatever the environment and the \<open>.env\<close> file hold and
  whatever database file exists; the schema of the spec is never created.
\<close>

theorem startup_fails: "startup dotenv env f = Inl MissingDatabaseUri"
  by (simp add: startup_def start_app_def configure_def init_db_def)

text \<open>
  C34. With a database URI configured, start-up succeeds on every database
  file: it creates the absent tables empty and keeps the rows of the present
  ones, starts with no client session, and on a fresh file gives the
  initial state of \<open>reach\<close>; restarting on the file the start left gives
  the same state again (\<open>create_all\<close> is idempotent).
\<close>

theorem start_app_restart:
  assumes "database_uri cfg \<noteq> None"
  shows "\<exists>a. start_app cfg f = Inr (create_all f, a) \<and> start_app cfg (create_all f) = Inr (create_all f, a) \<and>
           users (app_db a) = (case f_users f of None \<Rightarrow> [] | Some t \<Rightarrow> t) \<and>
           blog_posts (app_db a) = (case f_blog_posts f of None \<Rightarrow> [] | Some t \<Rightarrow> t) \<and>
           comments (app_db a) = (case f_comments f of None \<Rightarrow> [] | Some t \<Rightarrow> t) \<and>
           sessions a = (\<lambda>c. empty_session) \<and>
           (f_users f = None \<and> f_blog_posts f = None \<and> f_comments f = None \<longrightarrow> a = init_app)"
proof -
  let ?d = "\<lparr>users = the (create_table (f_users f)), blog_posts = the (create_table (f_blog_posts f)),
             comments = the (create_table (f_comments f))\<rparr>"
  let ?a = "\<lparr>app_db = ?d, sessions = (\<lambda>c. empty_session)\<rparr>"
  from assms obtain uri where uri: "database_uri cfg = Some uri" by blast
  have o: "open_db (create_all f) = Some ?d"
    by (simp add: open_db_def create_all_def create_table_def split: option.splits)
  have st: "start_app cfg f = Inr (create_all f, ?a)"
    using o by (simp add: start_app_def init_db_def uri)
  have again: "start_app cfg (create_all f) = Inr (create_all f, ?a)"
    using o by (simp add: start_app_def init_db_def uri)
  show ?thesis
    by (rule exI [of _ ?a]) (simp add: st again create_table_def init_app_def empty_db_def split: option.splits)
qed

theorem start_app_restart_witness:
  "\<exists>a. start_app \<lparr>secret_key = Some ''k'', database_uri = Some ''sqlite:///posts.db''\<rparr>
        \<lparr>f_users = Some [alice], f_blog_posts = None, f_comments = None\<rparr> =
      Inr (create_all \<lparr>f_users = Some [alice], f_blog_posts = None, f_comments = None\<rparr>, a) \<and>
      users (app_db a) = [alice] \<and> blog_posts (app_db a) = [] \<and> comments (app_db a) = []"
proof -
  have u: "database_uri \<lparr>secret_key = Some ''k'', database_uri = Some ''sqlite:///posts.db''\<rparr> \<noteq> None"
    by simp
  from start_app_restart [OF u, of "\<lparr>f_users = Some [alice], f_blog_posts = None, f_comments = None\<rparr>"]
  show ?thesis by auto
qed





text \<open>
  With a usable secret key the configured application reaches exactly the
  states of \<open>reach\<close>, so every invariant of \<open>App\<close> holds for it.
\<close>

lemma reach_cfg_keyed:
  assumes "session_usable cfg"
  shows "reach_cfg cfg h a \<longleftrightarrow> reach h a"
proof
  assume "reach_cfg cfg h a"
  then show "reach h a"
    by induction (auto simp: app_step_cfg_def assms intro: reach.intros)
next
  assume "reach h a"
  then show "reach_cfg cfg h a"
  proof induction
    case init
    show ?case by (rule reach_cfg.init)
  next
    case (step a c r)
    then show ?case using reach_cfg.step [OF step.IH, of c r] by (simp add: app_step_cfg_def assms)
  qed
qed

end
