(* ===== verification/Store_Spec.thy ===== *)
theory Store_Spec
  imports Models
begin

text \<open>
  The abstract specification of the persistent store (spec, sections 3 and
  4.1 to 4.3) and the refinement of the ORM writes of \<open>Models\<close> to it. The
  abstract store holds three finite maps from identifiers to rows; the write
  operations of the store form the datatype \<open>store_op\<close>, which the
  concrete side executes with the definitions of \<open>Models\<close>
  (\<open>exec_op\<close>) and the abstract side relates by \<open>spec_step\<close> (the write
  succeeds, with some fresh identifier where it creates a row) and
  \<open>spec_fails\<close> (the write is refused). The abstract delete refuses a post
  that has a comment: that is the code's contract (\<open>delete_post_row\<close>), where
  the spec leaves the cascade policy open (section 9).
\<close>

record abs_store =
  a_users :: "nat \<rightharpoonup> user"
  a_posts :: "nat \<rightharpoonup> blog_post"
  a_comments :: "nat \<rightharpoonup> comment"

definition abs_db :: "db \<Rightarrow> abs_store" where
  "abs_db d = \<lparr>a_users = table_map user_id (users d), a_posts = table_map post_id (blog_posts d),
     a_comments = table_map comment_id (comments d)\<rparr>"

text \<open>The writes the route handlers issue, one constructor per ORM statement.\<close>

datatype store_op =
    Ins_user string string string
  | Ins_post string string string string nat string
  | Upd_post nat string string string nat string
  | Del_post nat
  | Ins_comment string nat nat

fun exec_op :: "db \<Rightarrow> store_op \<Rightarrow> exn + db" where
  "exec_op d (Ins_user e h n) = map_sum id snd (insert_user d e h n)"
| "exec_op d (Ins_post t st b img a dt) = map_sum id snd (insert_post d t st b img a dt)"
| "exec_op d (Upd_post pid t st img a b) = update_post d pid t st img a b"
| "exec_op d (Del_post pid) = delete_post_row d pid"
| "exec_op d (Ins_comment txt a pid) = Inr (snd (insert_comment d txt a pid))"

inductive spec_step :: "abs_store \<Rightarrow> store_op \<Rightarrow> abs_store \<Rightarrow> bool" where
  ins_user: "i \<notin> dom (a_users A) \<Longrightarrow> (\<forall>u \<in> ran (a_users A). email u \<noteq> e) \<Longrightarrow>
    spec_step A (Ins_user e h n)
      (A\<lparr>a_users := (a_users A)(i \<mapsto> \<lparr>user_id = i, email = e, password = h, name = n\<rparr>)\<rparr>)"
| ins_post: "i \<notin> dom (a_posts A) \<Longrightarrow> (\<forall>p \<in> ran (a_posts A). title p \<noteq> t) \<Longrightarrow>
    spec_step A (Ins_post t st b img a dt)
      (A\<lparr>a_posts := (a_posts A)(i \<mapsto> \<lparr>post_id = i, title = t, subtitle = st, date = dt, body = b,
                                      img_url = img, author_id = a\<rparr>)\<rparr>)"
| upd_post: "(\<forall>p \<in> ran (a_posts A). title p = t \<longrightarrow> post_id p = pid) \<Longrightarrow>
    spec_step A (Upd_post pid t st img a b)
      (A\<lparr>a_posts := (a_posts A)(pid := map_option (set_post_fields t st img a b) (a_posts A pid))\<rparr>)"
| del_post: "(\<forall>c \<in> ran (a_comments A). cmt_post_id c \<noteq> pid) \<Longrightarrow>
    spec_step A (Del_post pid) (A\<lparr>a_posts := (a_posts A)(pid := None)\<rparr>)"
| ins_comment: "i \<notin> dom (a_comments A) \<Longrightarrow>
    spec_step A (Ins_comment txt a pid)
      (A\<lparr>a_comments := (a_comments A)(i \<mapsto> \<lparr>comment_id = i, cmt_author_id = a, cmt_post_id = pid,
                                            comment_text = txt\<rparr>)\<rparr>)"

inductive spec_fails :: "abs_store \<Rightarrow> store_op \<Rightarrow> bool" where
  dup_email: "u \<in> ran (a_users A) \<Longrightarrow> email u = e \<Longrightarrow> spec_fails A (Ins_user e h n)"
| dup_title: "p \<in> ran (a_posts A) \<Longrightarrow> title p = t \<Longrightarrow> spec_fails A (Ins_post t st b img a dt)"
| dup_title_upd: "p \<in> ran (a_posts A) \<Longrightarrow> title p = t \<Longrightarrow> post_id p \<noteq> pid \<Longrightarrow>
    spec_fails A (Upd_post pid t st img a b)"
| commented: "c \<in> ran (a_comments A) \<Longrightarrow> cmt_post_id c = pid \<Longrightarrow> spec_fails A (Del_post pid)"


inductive_simps spec_fails_simps [simp]:
  "spec_fails A (Ins_user e h n)" "spec_fails A (Ins_post t st b img a dt)"
  "spec_fails A (Upd_post pid t st img a b)" "spec_fails A (Del_post pid)"
  "spec_fails A (Ins_comment txt a pid)"

subsection \<open>The abstraction of a store that satisfies the invariant\<close>

lemma abs_db_ran:
  assumes "db_inv d"
  shows "ran (a_users (abs_db d)) = set (users d)" "ran (a_posts (abs_db d)) = set (blog_posts d)"
    "ran (a_comments (abs_db d)) = set (comments d)"
  using assms by (simp_all add: abs_db_def db_inv_def ran_table_map keys_ok_distinct)

lemma exec_op_Ins_user:
  assumes "db_inv d"
  shows "(exec_op d (Ins_user e h n) = Inr d' \<longrightarrow> spec_step (abs_db d) (Ins_user e h n) (abs_db d')) \<and>
         ((\<exists>x. exec_op d (Ins_user e h n) = Inl x) \<longleftrightarrow> spec_fails (abs_db d) (Ins_user e h n))"
proof -
  let ?i = "next_id user_id (users d)"
  have step: "spec_step (abs_db d) (Ins_user e h n) (abs_db d')"
    if "e \<notin> email ` set (users d)"
      and d': "d' = d\<lparr>users := users d @ [\<lparr>user_id = ?i, email = e, password = h, name = n\<rparr>]\<rparr>"
  proof -
    have "abs_db d' = (abs_db d)\<lparr>a_users := (a_users (abs_db d))(?i \<mapsto>
        \<lparr>user_id = ?i, email = e, password = h, name = n\<rparr>)\<rparr>"
      by (simp add: d' abs_db_def table_map_append_fresh)
    moreover have "?i \<notin> dom (a_users (abs_db d))" by (simp add: abs_db_def)
    ultimately show ?thesis using that(1) abs_db_ran(1) [OF assms] by (auto intro: spec_step.ins_user)
  qed
  show ?thesis
    using step abs_db_ran(1) [OF assms]
    by (auto simp: insert_user_def Let_def list_ex_iff split: if_splits)
qed


lemma exec_op_Ins_post:
  assumes "db_inv d"
  shows "(exec_op d (Ins_post t st b img a dt) = Inr d' \<longrightarrow>
            spec_step (abs_db d) (Ins_post t st b img a dt) (abs_db d')) \<and>
         ((\<exists>x. exec_op d (Ins_post t st b img a dt) = Inl x) \<longleftrightarrow>
            spec_fails (abs_db d) (Ins_post t st b img a dt))"
proof -
  let ?i = "next_id post_id (blog_posts d)"
  let ?p = "\<lparr>post_id = ?i, title = t, subtitle = st, date = dt, body = b, img_url = img, author_id = a\<rparr>"
  have step: "spec_step (abs_db d) (Ins_post t st b img a dt) (abs_db d')"
    if "t \<notin> title ` set (blog_posts d)" and d': "d' = d\<lparr>blog_posts := blog_posts d @ [?p]\<rparr>"
  proof -
    have "abs_db d' = (abs_db d)\<lparr>a_posts := (a_posts (abs_db d))(?i \<mapsto> ?p)\<rparr>"
      by (simp add: d' abs_db_def table_map_append_fresh)
    moreover have "?i \<notin> dom (a_posts (abs_db d))" by (simp add: abs_db_def)
    ultimately show ?thesis using that(1) abs_db_ran(2) [OF assms] by (auto intro: spec_step.ins_post)
  qed
  show ?thesis
    using step abs_db_ran(2) [OF assms]
    by (auto simp: insert_post_def Let_def list_ex_iff split: if_splits)
qed

lemma exec_op_Upd_post:
  assumes "db_inv d"
  shows "(exec_op d (Upd_post pid t st img a b) = Inr d' \<longrightarrow>
            spec_step (abs_db d) (Upd_post pid t st img a b) (abs_db d')) \<and>
         ((\<exists>x. exec_op d (Upd_post pid t st img a b) = Inl x) \<longleftrightarrow>
            spec_fails (abs_db d) (Upd_post pid t st img a b))"
proof -
  let ?f = "set_post_fields t st img a b"
  have step: "spec_step (abs_db d) (Upd_post pid t st img a b) (abs_db d')"
    if "\<forall>p \<in> set (blog_posts d). title p = t \<longrightarrow> post_id p = pid"
      and d': "d' = d\<lparr>blog_posts := update_row post_id pid ?f (blog_posts d)\<rparr>"
  proof -
    have "abs_db d' = (abs_db d)\<lparr>a_posts := (a_posts (abs_db d))(pid := map_option ?f (a_posts (abs_db d) pid))\<rparr>"
      by (simp add: d' abs_db_def table_map_update)
    then show ?thesis using that(1) abs_db_ran(2) [OF assms] by (auto intro: spec_step.upd_post)
  qed
  show ?thesis
    using step abs_db_ran(2) [OF assms]
    by (auto simp: update_post_def list_ex_iff split: if_splits)
qed

lemma exec_op_Del_post:
  assumes "db_inv d"
  shows "(exec_op d (Del_post pid) = Inr d' \<longrightarrow> spec_step (abs_db d) (Del_post pid) (abs_db d')) \<and>
         ((\<exists>x. exec_op d (Del_post pid) = Inl x) \<longleftrightarrow> spec_fails (abs_db d) (Del_post pid))"
proof -
  have step: "spec_step (abs_db d) (Del_post pid) (abs_db d')"
    if "\<forall>c \<in> set (comments d). cmt_post_id c \<noteq> pid"
      and d': "d' = d\<lparr>blog_posts := delete_row post_id pid (blog_posts d)\<rparr>"
  proof -
    have "abs_db d' = (abs_db d)\<lparr>a_posts := (a_posts (abs_db d))(pid := None)\<rparr>"
      by (simp add: d' abs_db_def table_map_delete)
    then show ?thesis using that(1) abs_db_ran(3) [OF assms] by (auto intro: spec_step.del_post)
  qed
  show ?thesis
    using step abs_db_ran(3) [OF assms]
    by (auto simp: delete_post_row_def post_comments_def filter_empty_conv split: if_splits)
qed

lemma exec_op_Ins_comment:
  "exec_op d (Ins_comment txt a pid) = Inr d' \<Longrightarrow>
     spec_step (abs_db d) (Ins_comment txt a pid) (abs_db d')"
proof -
  let ?i = "next_id comment_id (comments d)"
  assume "exec_op d (Ins_comment txt a pid) = Inr d'"
  then have "abs_db d' = (abs_db d)\<lparr>a_comments := (a_comments (abs_db d))(?i \<mapsto>
      \<lparr>comment_id = ?i, cmt_author_id = a, cmt_post_id = pid, comment_text = txt\<rparr>)\<rparr>"
    by (auto simp: insert_comment_def Let_def abs_db_def table_map_append_fresh)
  moreover have "?i \<notin> dom (a_comments (abs_db d))" by (simp add: abs_db_def)
  ultimately show ?thesis by (auto intro: spec_step.ins_comment)
qed


subsection \<open>Refinement\<close>

text \<open>
  C23. The store refines its abstract specification: on a store that
  satisfies the invariant, every write that succeeds is a step of the
  abstract store of finite maps (a created row gets an identifier not yet
  used, an update rewrites the fields of one post in place, a delete removes
  one post), and a write fails exactly when the abstract specification
  refuses it: a duplicate e-mail, a duplicate title, or a post that has a
  comment.
\<close>

theorem exec_op_refines:
  assumes "db_inv d"
  shows "(exec_op d w = Inr d' \<longrightarrow> spec_step (abs_db d) w (abs_db d')) \<and>
         ((\<exists>x. exec_op d w = Inl x) \<longleftrightarrow> spec_fails (abs_db d) w)"
proof (cases w)
  case (Ins_user e h n)
  then show ?thesis using exec_op_Ins_user [OF assms] by simp
next
  case (Ins_post t st b img a dt)
  then show ?thesis using exec_op_Ins_post [OF assms] by simp
next
  case (Upd_post pid t st img a b)
  then show ?thesis using exec_op_Upd_post [OF assms] by simp
next
  case (Del_post pid)
  then show ?thesis using exec_op_Del_post [OF assms] by simp
next
  case (Ins_comment m a pid)
  then show ?thesis using exec_op_Ins_comment [of d m a pid] by auto
qed

theorem exec_op_refines_witness:
  "db_inv empty_db \<and>
   exec_op empty_db (Ins_post ''Hello'' ''World'' ''Body'' ''http://x/y.png'' 1 ''November 09, 2026'') =
     Inr (empty_db\<lparr>blog_posts := [\<lparr>post_id = 1, title = ''Hello'', subtitle = ''World'',
        date = ''November 09, 2026'', body = ''Body'', img_url = ''http://x/y.png'', author_id = 1\<rparr>]\<rparr>) \<and>
   spec_step (abs_db empty_db)
     (Ins_post ''Hello'' ''World'' ''Body'' ''http://x/y.png'' 1 ''November 09, 2026'')
     (abs_db (empty_db\<lparr>blog_posts := [\<lparr>post_id = 1, title = ''Hello'', subtitle = ''World'',
        date = ''November 09, 2026'', body = ''Body'', img_url = ''http://x/y.png'', author_id = 1\<rparr>]\<rparr>)) \<and>
   \<not> spec_fails (abs_db empty_db) (Ins_post ''Hello'' ''World'' ''Body'' ''http://x/y.png'' 1 ''November 09, 2026'')"
proof -
  let ?op = "Ins_post ''Hello'' ''World'' ''Body'' ''http://x/y.png'' 1 ''November 09, 2026''"
  let ?d' = "empty_db\<lparr>blog_posts := [\<lparr>post_id = 1, title = ''Hello'', subtitle = ''World'',
        date = ''November 09, 2026'', body = ''Body'', img_url = ''http://x/y.png'', author_id = 1\<rparr>]\<rparr>"
  have ex: "exec_op empty_db ?op = Inr ?d'" by (simp add: insert_post_def empty_db_def Let_def)
  from exec_op_refines [OF db_inv_empty, of ?op ?d'] ex db_inv_empty show ?thesis by auto
qed

end
