(* ===== verification/Rowid_Bounds.thy ===== *)
theory Rowid_Bounds
  imports App "HOL-Library.Word"
begin

text \<open>
  The width of the identifiers. The three primary keys are
  \<open>mapped_column(Integer, primary_key=True)\<close>: SQLite stores them as signed
  64-bit integers, and allocates a new rowid as one more than the largest in
  the table while that largest is below \<open>9223372036854775807\<close>; once it
  is that value SQLite picks an unused rowid at random (\<open>rowid_alloc\<close>
  returns \<open>None\<close> there, a case the rest of the model does not cover). The
  model's identifiers are \<open>nat\<close> and its allocation is \<open>next_id\<close>. This
  theory bounds the identifiers by the number of requests served, so that
  for every run shorter than the largest rowid the allocation of the model
  is SQLite's and every identifier, read as a 64-bit signed word, is itself.
\<close>

definition max_rowid :: nat where
  "max_rowid = 2 ^ 63 - 1"

definition rowid_alloc :: "('r \<Rightarrow> nat) \<Rightarrow> 'r table \<Rightarrow> nat option" where
  "rowid_alloc key t = (if max_id key t < max_rowid then Some (Suc (max_id key t)) else None)"

text \<open>Every table's largest key is at most \<open>n\<close>.\<close>

definition ids_below :: "nat \<Rightarrow> db \<Rightarrow> bool" where
  "ids_below n d \<longleftrightarrow>
     max_id user_id (users d) \<le> n \<and> max_id post_id (blog_posts d) \<le> n \<and>
     max_id comment_id (comments d) \<le> n"

subsection \<open>Each write raises a largest key by at most one\<close>

lemma insert_user_ids_below:
  "insert_user d e h m = Inr (u, d') \<Longrightarrow> ids_below n d \<Longrightarrow> ids_below (Suc n) d'"
  by (auto simp: insert_user_Inr ids_below_def max_id_snoc next_id_def)

lemma insert_post_ids_below:
  "insert_post d t st b img a dt = Inr (p, d') \<Longrightarrow> ids_below n d \<Longrightarrow> ids_below (Suc n) d'"
  by (auto simp: insert_post_Inr ids_below_def max_id_snoc next_id_def)

lemma insert_comment_ids_below:
  "ids_below n d \<Longrightarrow> ids_below (Suc n) (snd (insert_comment d m a pid))"
  by (simp add: insert_comment_def Let_def ids_below_def max_id_snoc next_id_def)

lemma update_post_ids_below:
  "update_post d pid t st img a b = Inr d' \<Longrightarrow> ids_below n d \<Longrightarrow> ids_below (Suc n) d'"
  by (auto simp: update_post_Inr ids_below_def max_id_update)

lemma delete_post_row_ids_below:
  "delete_post_row d pid = Inr d' \<Longrightarrow> ids_below n d \<Longrightarrow> ids_below (Suc n) d'"
  using max_id_delete_le [of post_id pid "blog_posts d"]
  by (auto simp: delete_post_row_Inr ids_below_def)

lemma ids_below_Suc: "ids_below n d \<Longrightarrow> ids_below (Suc n) d"
  by (auto simp: ids_below_def)

lemmas write_ids_below = insert_user_ids_below insert_post_ids_below insert_comment_ids_below
  update_post_ids_below delete_post_row_ids_below ids_below_Suc

lemma handle_ids_below:
  assumes "handle h d s r = (out, d', s')" and "ids_below n d"
  shows "ids_below (Suc n) d'"
proof (cases r)
  case (Register form salt)
  with assms show ?thesis
    by (auto simp: register_def split: option.splits sum.splits intro: write_ids_below)
next
  case (Show_post pid form)
  with assms show ?thesis
    by (auto simp: show_post_def Let_def split: option.splits sum.splits actor.splits
        intro: write_ids_below)
next
  case (Add_new_post form today)
  with assms show ?thesis
    by (auto dest!: with_admin_cases simp: add_new_post_def
        split: option.splits sum.splits intro: write_ids_below)
next
  case (Edit_post pid form)
  with assms show ?thesis
    by (auto dest!: with_admin_cases simp: edit_post_def
        split: option.splits sum.splits intro: write_ids_below)
next
  case (Delete_post pid)
  with assms show ?thesis
    by (auto dest!: with_admin_cases simp: delete_post_def
        split: option.splits sum.splits intro: write_ids_below)
qed (use assms in \<open>auto simp: login_def logout_def get_all_posts_def
       split: option.splits if_splits sum.splits intro: write_ids_below\<close>)

lemma run_ids_below:
  "ids_below n (app_db a) \<Longrightarrow> ids_below (n + length rs) (app_db (snd (run h a rs)))"
proof (induction rs arbitrary: a n)
  case Nil
  then show ?case by simp
next
  case (Cons cr rs)
  obtain c r where cr: "cr = (c, r)" by fastforce
  obtain out d' s' where hd: "handle h (app_db a) (sessions a c) r = (out, d', s')"
    by (metis prod_cases3)
  from handle_ids_below [OF hd Cons.prems]
  have "ids_below (Suc n) (app_db (snd (app_step h a c r)))" by (simp add: app_step_eq [OF hd])
  from Cons.IH [OF this] show ?case by (simp del: run.simps add: cr run_snd_Cons)
qed

lemma max_rowid_lt: "max_rowid < 2 ^ 63"
  by (simp add: max_rowid_def)

lemma sint_word_of_nat:
  assumes "i < 2 ^ 63"
  shows "sint (word_of_nat i :: 64 word) = int i"
proof -
  from assms have "i mod 2 ^ 64 = i" by simp
  then have u: "uint (word_of_nat i :: 64 word) = int i" by (simp add: uint_nat unat_of_nat)
  from assms have "int i < 2 ^ 63" by simp
  with u show ?thesis by (simp add: sint_uint signed_take_bit_int_eq_self)
qed

lemma stored_key_sint:
  assumes "r \<in> set t" and "max_id key t < max_rowid"
  shows "sint (word_of_nat (key r) :: 64 word) = int (key r)"
proof (rule sint_word_of_nat)
  from max_id_ge [OF assms(1), of key] assms(2) max_rowid_lt show "key r < 2 ^ 63" by linarith
qed

text \<open>
  C21. Identifiers stay inside SQLite's INTEGER: after any run of fewer
  than \<open>2^63 - 1\<close> requests from the fresh application, the largest key of
  each table is below the largest rowid, so SQLite's next rowid for users,
  posts and comments is the model's \<open>next_id\<close> (one more than the
  largest key, never the random fallback), and every stored identifier, read
  as a 64-bit signed word, is the identifier itself.
\<close>

theorem run_rowids_exact:
  assumes "length rs < max_rowid" and "d = app_db (snd (run h init_app rs))"
  shows "rowid_alloc user_id (users d) = Some (next_id user_id (users d)) \<and>
         rowid_alloc post_id (blog_posts d) = Some (next_id post_id (blog_posts d)) \<and>
         rowid_alloc comment_id (comments d) = Some (next_id comment_id (comments d)) \<and>
         (\<forall>u \<in> set (users d). sint (word_of_nat (user_id u) :: 64 word) = int (user_id u)) \<and>
         (\<forall>p \<in> set (blog_posts d). sint (word_of_nat (post_id p) :: 64 word) = int (post_id p)) \<and>
         (\<forall>c \<in> set (comments d). sint (word_of_nat (comment_id c) :: 64 word) = int (comment_id c))"
proof -
  have "ids_below 0 (app_db init_app)"
    by (simp add: ids_below_def init_app_def empty_db_def max_id_def)
  from run_ids_below [OF this, of rs h] assms(2) have b: "ids_below (length rs) d" by simp
  with assms(1) have lt: "max_id user_id (users d) < max_rowid" "max_id post_id (blog_posts d) < max_rowid"
    "max_id comment_id (comments d) < max_rowid"
    by (auto simp: ids_below_def)
  from lt show ?thesis by (auto simp: rowid_alloc_def next_id_def intro: stored_key_sint)
qed

theorem run_rowids_exact_witness:
  "rowid_alloc user_id (users (app_db (snd (run demo_digest init_app [(0, alice_registers)])))) = Some 2 \<and>
   map (\<lambda>u. sint (word_of_nat (user_id u) :: 64 word))
     (users (app_db (snd (run demo_digest init_app [(0, alice_registers)])))) = [1]"
proof -
  have l: "length [(0::nat, alice_registers)] < max_rowid" by (simp add: max_rowid_def)
  have u: "users (app_db (snd (run demo_digest init_app [(0, alice_registers)]))) = [alice]"
    by (simp add: eval_defs next_id_def max_id_def)
  note inst = run_rowids_exact [where h = demo_digest, OF l refl, unfolded u]
  have a: "rowid_alloc user_id [alice] = Some (next_id user_id [alice])"
    using inst by (rule conjunct1)
  have w: "\<forall>v \<in> set [alice]. sint (word_of_nat (user_id v) :: 64 word) = int (user_id v)"
    using inst by (elim conjE)
  have "user_id alice = 1" by (simp add: alice_def)
  with a w show ?thesis unfolding u by (simp add: next_id_def max_id_def)
qed

end
