(* ===== verification/Gravatar.thy ===== *)
theory Gravatar
  imports Dates Models
begin

text \<open>
  The avatar filter. \<open>main.py\<close> configures Flask-Gravatar (lines 55 to 62);
  the filter maps an e-mail address (a comment author's) to the image
  URL. \<open>gravatar_cfg\<close> holds the constructor's
  arguments, \<open>gravatar\<close> the application's, and \<open>gravatar_url\<close> is
  \<open>Gravatar.__call__\<close> of the library with the per-call arguments left at
  their defaults: the base URL, the MD5 hex digest of the (optionally
  lower-cased) address, then the size, default image and rating, and
  \<open>&f=y\<close> when the default is forced. MD5 is a parameter. \<open>lower_ascii\<close>
  is \<open>str.lower\<close> on the ASCII letters.
\<close>

record gravatar_cfg =
  g_size :: nat
  g_rating :: string
  g_default :: string
  g_force_default :: bool
  g_force_lower :: bool
  g_use_ssl :: bool
  g_base_url :: "string option"

type_synonym md5_fn = "string \<Rightarrow> string"

definition gravatar :: gravatar_cfg where
  "gravatar = \<lparr>g_size = 100, g_rating = ''g'', g_default = ''retro'', g_force_default = False,
     g_force_lower = False, g_use_ssl = False, g_base_url = None\<rparr>"

definition lower_ascii :: "char \<Rightarrow> char" where
  "lower_ascii ch =
     (let n = (of_char ch :: nat) in if 65 \<le> n \<and> n \<le> 90 then char_of (n + 32) else ch)"

definition gravatar_base :: "gravatar_cfg \<Rightarrow> string" where
  "gravatar_base cfg =
     (case g_base_url cfg of
        Some b \<Rightarrow> b @ ''avatar/''
      | None \<Rightarrow> if g_use_ssl cfg then ''https://secure.gravatar.com/avatar/''
                else ''http://www.gravatar.com/avatar/'')"

definition gravatar_url :: "md5_fn \<Rightarrow> gravatar_cfg \<Rightarrow> string \<Rightarrow> string" where
  "gravatar_url md5 cfg e =
     (let e' = (if g_force_lower cfg then map lower_ascii e else e);
          link = gravatar_base cfg @ md5 e' @ ''?s='' @ show_nat (g_size cfg) @
                 ''&d='' @ g_default cfg @ ''&r='' @ g_rating cfg
      in if g_force_default cfg then link @ ''&f=y'' else link)"

text \<open>The avatar shown beside a comment: its author's address through the filter.\<close>

definition comment_avatar :: "md5_fn \<Rightarrow> db \<Rightarrow> comment \<Rightarrow> string option" where
  "comment_avatar md5 d c = map_option (\<lambda>u. gravatar_url md5 gravatar (email u)) (comment_author d c)"

lemma lower_ascii_idem [simp]: "lower_ascii (lower_ascii ch) = lower_ascii ch"
  by (simp add: lower_ascii_def Let_def)

text \<open>The application's avatar URL: plain HTTP, size 100, the retro default, rating g.\<close>

lemma gravatar_url_app:
  "gravatar_url md5 gravatar e = ''http://www.gravatar.com/avatar/'' @ md5 e @ ''?s=100&d=retro&r=g''"
proof -
  have "show_nat 100 = ''100''" by code_simp
  then show ?thesis by (simp add: gravatar_url_def gravatar_def gravatar_base_def)
qed

text \<open>
  The URL determines the digest of the address as given: since
  \<open>force_lower=False\<close>, two spellings of an address that differ in case get
  the same avatar only when MD5 agrees on them. With \<open>force_lower\<close> they
  always would.
\<close>

lemma gravatar_url_app_inj:
  "gravatar_url md5 gravatar e1 = gravatar_url md5 gravatar e2 \<longleftrightarrow> md5 e1 = md5 e2"
  by (simp add: gravatar_url_app)

lemma gravatar_url_force_lower:
  "g_force_lower cfg \<Longrightarrow> gravatar_url md5 cfg (map lower_ascii e) = gravatar_url md5 cfg e"
  by (simp add: gravatar_url_def comp_def)

text \<open>Every stored comment shows its author's avatar, built from the stored address.\<close>

lemma comment_avatar_stored:
  assumes "db_inv d" and "c \<in> set (comments d)"
  shows "\<exists>u \<in> set (users d). cmt_author_id c = user_id u \<and>
           comment_avatar md5 d c = Some (''http://www.gravatar.com/avatar/'' @ md5 (email u) @ ''?s=100&d=retro&r=g'')"
proof -
  from relationships_resolve(2) [OF assms] obtain u
    where u: "comment_author d c = Some u" "u \<in> set (users d)" by blast
  from u(1) have "cmt_author_id c = user_id u"
    by (auto simp: comment_author_def get_user_def)
  with u show ?thesis by (auto simp: comment_avatar_def gravatar_url_app)
qed

end
