(* ===== verification/Redirects.thy ===== *)
theory Redirects
  imports App
begin

text \<open>
  Following redirects. Every handler that succeeds on a POST answers with a
  \<open>302\<close> (\<open>redirect(url_for(...))\<close>), and the browser fetches the target
  with a GET from the same client. \<open>follow\<close> is that client: as long as
  the response is a redirect it serves the GET of its target, so it may in
  principle run forever, and it is a \<open>partial_function\<close> in the option
  monad. \<open>browse\<close> serves one request and follows its redirects.
\<close>

partial_function (option) follow ::
  "digest_fn \<Rightarrow> app \<Rightarrow> nat \<Rightarrow> http_error + response \<Rightarrow> ((http_error + response) \<times> app) option"
where
  "follow h a c out =
     (case out of
        Inr (Redirect t) \<Rightarrow> follow h (snd (app_step h a c (get_endpoint t))) c (fst (app_step h a c (get_endpoint t)))
      | _ \<Rightarrow> Some (out, a))"

definition browse :: "digest_fn \<Rightarrow> app \<Rightarrow> nat \<Rightarrow> request \<Rightarrow> ((http_error + response) \<times> app) option" where
  "browse h a c r = follow h (snd (app_step h a c r)) c (fst (app_step h a c r))"

lemma follow_final: "(\<And>t. out \<noteq> Inr (Redirect t)) \<Longrightarrow> follow h a c out = Some (out, a)"
  by (subst follow.simps) (auto split: sum.splits response.splits)

lemma app_step_get_endpoint:
  "app_step h a c (get_endpoint t) = (fst (handle h (app_db a) (sessions a c) (get_endpoint t)), a)"
proof -
  obtain out d' s' where hd: "handle h (app_db a) (sessions a c) (get_endpoint t) = (out, d', s')"
    by (metis prod_cases3)
  from get_endpoint_safe [of h "app_db a" "sessions a c" t] hd
  have "d' = app_db a" "s' = sessions a c" by simp_all
  then show ?thesis by (auto simp: app_step_eq [OF hd] hd intro: app.equality)
qed

text \<open>
  C27. The spec's login row end to end (``POST /login: 302 to the listing,
  session established''): from any reachable state, a stored user logging
  in with the right password is redirected, and the browser lands on the
  listing of every stored post rendered for a logged-in user, with the
  client's session bound to that user and nothing else changed.
\<close>

lemma browse_login_lands_on_listing:
  assumes "reach h a" and "u \<in> set (users (app_db a))" and "check_password_hash h (password u) pw"
  shows "browse h a c (Login (Some \<lparr>lf_email = email u, lf_password = pw\<rparr>)) =
           Some (Inr (Render (Index_page (all_posts (app_db a)) True)),
                 \<lparr>app_db = app_db a, sessions = (sessions a)(c := login_user (sessions a c) u)\<rparr>)"
proof -
  let ?d = "app_db a" and ?s = "login_user (sessions a c) u"
  let ?a1 = "\<lparr>app_db = ?d, sessions = (sessions a)(c := ?s)\<rparr>"
  have inv: "db_inv ?d" using reach_app_inv_lemma [OF assms(1)] by (simp add: app_inv_def)
  have login: "app_step h a c (Login (Some \<lparr>lf_email = email u, lf_password = pw\<rparr>)) =
      (Inr (Redirect To_get_all_posts), ?a1)"
    using select_user_stored [OF inv assms(2)] assms(3) by (simp add: app_step_def login_def)
  have cu: "current_user ?d ?s = Inr (Authenticated u)" by (rule current_user_stored [OF inv assms(2)])
  have idx: "fst (get_all_posts ?d ?s) =
      Inr (Render (Index_page (all_posts ?d) True))"
    using cu by (simp add: get_all_posts_def is_authenticated_def)
  have "browse h a c (Login (Some \<lparr>lf_email = email u, lf_password = pw\<rparr>)) =
      follow h ?a1 c (fst (handle h (app_db ?a1) (sessions ?a1 c) (get_endpoint To_get_all_posts)))"
    by (simp add: browse_def login follow.simps [of h ?a1 c] app_step_get_endpoint del: get_endpoint.simps)
  also have "\<dots> = Some (Inr (Render (Index_page (all_posts ?d) True)), ?a1)"
    by (simp add: idx follow_final)
  finally show ?thesis .
qed

theorem browse_login_lands_on_listing_witness:
  "browse demo_digest (snd (app_step demo_digest init_app 0 alice_registers)) 1
      (Login (Some \<lparr>lf_email = email alice, lf_password = ''secret''\<rparr>)) =
     Some (Inr (Render (Index_page (all_posts (app_db (snd (app_step demo_digest init_app 0 alice_registers)))) True)),
       \<lparr>app_db = app_db (snd (app_step demo_digest init_app 0 alice_registers)),
        sessions = (sessions (snd (app_step demo_digest init_app 0 alice_registers)))
          (1 := login_user (sessions (snd (app_step demo_digest init_app 0 alice_registers)) 1) alice)\<rparr>)"
proof -
  let ?a = "snd (app_step demo_digest init_app 0 alice_registers)"
  have r: "reach demo_digest ?a" by (rule reach.step [OF reach.init])
  have u: "alice \<in> set (users (app_db ?a))"
    by (simp add: eval_defs next_id_def max_id_def)
  have c: "check_password_hash demo_digest (password alice) ''secret''"
    by (simp add: alice_def check_generated)
  from browse_login_lands_on_listing [OF r u c] show ?thesis .
qed

text \<open>
  C28. The spec's registration row end to end (``POST /register: 302 to the
  listing, session established''): from any reachable state, registering an
  e-mail no user has stores one new user with the next id and that e-mail,
  and the browser lands on the listing of the stored posts rendered for a
  logged-in user, the client's session bound to the new user.
\<close>

theorem browse_register_lands_on_listing:
  assumes "reach h a" and "rf_email f \<notin> email ` set (users (app_db a))"
  shows "\<exists>u. browse h a c (Register (Some f) salt) =
           Some (Inr (Render (Index_page (all_posts (app_db a)) True)),
                 \<lparr>app_db = (app_db a)\<lparr>users := users (app_db a) @ [u]\<rparr>,
                  sessions = (sessions a)(c := login_user (sessions a c) u)\<rparr>) \<and>
           user_id u = next_id user_id (users (app_db a)) \<and> email u = rf_email f"
proof -
  let ?d = "app_db a"
  let ?u = "\<lparr>user_id = next_id user_id (users ?d), email = rf_email f,
             password = generate_password_hash h (rf_password f) salt, name = rf_name f\<rparr>"
  let ?d1 = "?d\<lparr>users := users ?d @ [?u]\<rparr>" and ?s = "login_user (sessions a c) ?u"
  let ?a1 = "\<lparr>app_db = ?d1, sessions = (sessions a)(c := ?s)\<rparr>"
  have reg: "app_step h a c (Register (Some f) salt) = (Inr (Redirect To_get_all_posts), ?a1)"
    using register_fresh [OF assms(2), of h "sessions a c" salt] by (simp add: app_step_def)
  have "reach h ?a1" using reach.step [OF assms(1), of c "Register (Some f) salt"] by (simp add: reg)
  then have inv: "db_inv ?d1" using reach_app_inv_lemma by (fastforce simp: app_inv_def)
  have cu: "current_user ?d1 ?s = Inr (Authenticated ?u)" by (rule current_user_stored [OF inv]) simp
  have idx: "fst (get_all_posts ?d1 ?s) = Inr (Render (Index_page (all_posts ?d) True))"
    using cu by (simp add: get_all_posts_def is_authenticated_def all_posts_def)
  have "browse h a c (Register (Some f) salt) =
      follow h ?a1 c (fst (handle h (app_db ?a1) (sessions ?a1 c) (get_endpoint To_get_all_posts)))"
    by (simp add: browse_def reg follow.simps [of h ?a1 c] app_step_get_endpoint del: get_endpoint.simps)
  also have "\<dots> = Some (Inr (Render (Index_page (all_posts ?d) True)), ?a1)"
    by (simp add: idx follow_final)
  finally show ?thesis by (intro exI [of _ ?u]) simp
qed

theorem browse_register_lands_on_listing_witness:
  "\<exists>u. browse demo_digest init_app 0 alice_registers =
      Some (Inr (Render (Index_page [] True)),
            \<lparr>app_db = empty_db\<lparr>users := [u]\<rparr>, sessions = (\<lambda>c. empty_session)(0 := login_user empty_session u)\<rparr>) \<and>
      user_id u = 1 \<and> email u = ''alice@blog.dev''"
proof -
  have e: "''alice@blog.dev'' \<notin> email ` set (users (app_db init_app))"
    by (simp add: init_app_def empty_db_def)
  from browse_register_lands_on_listing [OF reach.init, where f = "\<lparr>rf_email = ''alice@blog.dev'',
      rf_password = ''secret'', rf_name = ''Alice''\<rparr>" and h = demo_digest and c = 0 and salt = "''Ab3dEf7h''"] e
  show ?thesis
    by (simp add: alice_registers_def init_app_def empty_db_def all_posts_def next_id_def max_id_def)
qed

text \<open>
  C7. The application has no redirect loop: serving any request and
  following its redirects always returns, after at most one GET, with a
  response that is not a redirect, and the state is the one the request
  itself left (the GET of a redirect target changes nothing).
\<close>

theorem browse_terminates:
  "\<exists>out. browse h a c r = Some (out, snd (app_step h a c r)) \<and> (\<forall>t. out \<noteq> Inr (Redirect t))"
proof (cases "\<exists>t. fst (app_step h a c r) = Inr (Redirect t)")
  case True
  then obtain t where t: "fst (app_step h a c r) = Inr (Redirect t)" by blast
  let ?a = "snd (app_step h a c r)"
  let ?out = "fst (handle h (app_db ?a) (sessions ?a c) (get_endpoint t))"
  have nr: "\<And>t'. ?out \<noteq> Inr (Redirect t')" by (rule get_endpoint_not_redirect)
  have "browse h a c r = follow h ?a c ?out"
    by (simp add: browse_def t follow.simps [of h ?a c] app_step_get_endpoint)
  also have "\<dots> = Some (?out, ?a)" using nr by (rule follow_final)
  finally show ?thesis using nr by blast
next
  case False
  then show ?thesis
    by (intro exI [of _ "fst (app_step h a c r)"]) (simp add: browse_def follow_final)
qed

end
