(* ===== verification/Spec2Isabelle.thy ===== *)
theory Spec2Isabelle
  imports Config Store_Spec Rowid_Bounds Gravatar Redirects
begin

text \<open>
  \<^bold>\<open>A verification model of the BlogPRJT Flask application.\<close>

  \<^bold>\<open>The program.\<close> \<open>src/main.py\<close> is a server-rendered blog on Flask,
  Flask-Login and SQLAlchemy over SQLite. Its parts, leaves first: the
  process configuration (\<open>load_dotenv\<close>, \<open>SECRET_KEY\<close>, the database
  URI, \<open>db.init_app\<close>, \<open>db.create_all\<close>), the credential store (table
  \<open>users\<close>, registration and login queries, password hashing delegated to
  werkzeug), the session manager (Flask-Login's \<open>login_user\<close>,
  \<open>logout_user\<close>, \<open>current_user\<close> resolved through the
  \<open>user_loader\<close> callback \<open>load_user\<close>), the content store (tables
  \<open>blog_posts\<close> and \<open>comments\<close>), the authorization gate (the decorator
  \<open>admin_only\<close>: only the user with id 1 may create, edit or delete posts)
  and the route handlers that compose them. A request carries a session;
  the handler resolves the current user when it reads it, runs ORM
  statements, commits, and answers with a redirect, a rendered page or an
  HTTP error.

  \<^bold>\<open>The theories.\<close>
  \<^item> \<open>Blog_Prelude\<close>: a table as a list of rows in rowid order with its
    primary-key projection; lookup \<open>find_row\<close>, SQLite's rowid allocation
    \<open>next_id\<close> (largest rowid plus one), \<open>delete_row\<close>, \<open>update_row\<close>;
    the key invariant \<open>keys_ok\<close>; the abstraction \<open>table_map\<close> to a finite
    map and the refinement lemmas (insert, delete and update implement map
    update and deletion); the equivalence of \<open>next_id\<close> with its
    reference definition through \<open>Max\<close>; a table in key order is its
    \<open>sort_key\<close>; lookup in distinct columns; fresh strings.
  \<^item> \<open>Passwords\<close>: werkzeug's \<open>generate_password_hash\<close> and
    \<open>check_password_hash\<close> on the stored string \<open>method$salt$digest\<close>,
    with the key-derivation function a parameter (\<open>digest_fn\<close>).
  \<^item> \<open>Dates\<close>: \<open>strftime("%B %d, %Y")\<close> on a \<open>datetime.date\<close>, and a
    parser for the round trip.
  \<^item> \<open>Models\<close>: the ORM classes \<open>User\<close>, \<open>BlogPost\<close>, \<open>Comment\<close> as
    records, the database \<open>db\<close>, one definition per ORM statement
    (\<open>select_user_by_email\<close>, \<open>get_user\<close>, \<open>get_post\<close>,
    \<open>post_comments\<close>, \<open>insert_user\<close>, \<open>insert_post\<close>, \<open>update_post\<close>,
    \<open>delete_post_row\<close>, \<open>insert_comment\<close>) with the constraint violations
    a commit raises as \<open>Inl IntegrityError\<close>; the relationships
    (\<open>post_author\<close>, \<open>comment_author\<close>, \<open>parent_post\<close>,
    \<open>user_posts\<close>, \<open>user_comments\<close>, \<open>post_comments\<close>); the store
    invariant \<open>db_inv\<close>, one preservation lemma per write, and the
    resolution of every relationship under the invariant.
  \<^item> \<open>Sessions\<close>: the session record, \<open>login_user\<close>, \<open>logout_user\<close>,
    \<open>flash\<close>, \<open>load_user\<close> (\<open>get_or_404\<close>), \<open>current_user\<close>,
    \<open>admin_only\<close>, the session invariant \<open>sess_inv\<close> and the abstraction
    \<open>abs_session\<close> to the spec's two session states.
  \<^item> \<open>Routes\<close>: one definition per route (\<open>register\<close>, \<open>login\<close>,
    \<open>logout\<close>, \<open>get_all_posts\<close>, \<open>show_post\<close>, \<open>add_new_post\<close>,
    \<open>edit_post\<close>, \<open>delete_post\<close>), the decorator \<open>with_admin\<close>, the
    dispatch \<open>handle\<close>, example data, and the properties of single requests.
  \<^item> \<open>App\<close>: the application state \<open>app\<close> (database and one session per
    client), \<open>app_step\<close>, \<open>run\<close>, the reachable states \<open>reach\<close> (equal
    to the states \<open>run\<close> produces, \<open>reach_iff_run\<close>), the invariants with
    one preservation lemma per route, the spec's session automaton
    \<open>sess_move\<close>, and the properties of reachable states and of runs.
  \<^item> \<open>Config\<close>: the environment, \<open>configure\<close>, \<open>init_db\<close>, the SQLite
    file and \<open>create_all\<close>, start-up, and \<open>app_step_cfg\<close>, a request
    served under a configuration: without a usable secret key Flask's
    \<open>NullSession\<close>, and \<open>handle_unkeyed\<close>, where every Flask-WTF form
    raises \<open>RuntimeError\<close> when it is built (its CSRF token needs the
    key), after the checks the route runs before that line.
  \<^item> \<open>Store_Spec\<close>: the abstract store of the spec (three finite maps),
    the store's writes as the datatype \<open>store_op\<close> executed by
    \<open>exec_op\<close> with the definitions of \<open>Models\<close>, the abstract
    operations \<open>spec_step\<close> and refusals \<open>spec_fails\<close>, and the
    refinement.
  \<^item> \<open>Rowid_Bounds\<close>: SQLite's allocation of the INTEGER primary keys
    (\<open>rowid_alloc\<close>: one more than the largest key while that is below
    \<open>max_rowid = 2^63 - 1\<close>), the bound \<open>ids_below\<close> on the largest
    keys, its growth by at most one per request, and the identifiers as
    \<open>64 word\<close> values.
  \<^item> \<open>Gravatar\<close>: the avatar filter configured at lines 55 to 62
    (\<open>gravatar\<close>), the library's URL construction \<open>gravatar_url\<close>
    with MD5 as a parameter, and the avatar of a stored comment's author
    (\<open>comment_avatar\<close>, the filter applied to the address of
    \<open>Comment.comment_author\<close>).
  \<^item> \<open>Redirects\<close>: the browser's side of \<open>redirect(url_for(...))\<close>:
    \<open>get_endpoint\<close> (in \<open>Routes\<close>) is the GET a redirect target names,
    \<open>follow\<close> fetches targets while the answer is a redirect, and
    \<open>browse\<close> serves one request and follows its redirects.
  \<^item> This theory: the property spanning the avatar filter and the store
    (C37).

  \<^bold>\<open>Modelling choices.\<close> Each handler takes the database and the client's
  session and returns the outcome with the new database and session; an
  exception that escapes a handler (\<open>IntegrityError\<close> from a commit,
  \<open>AttributeError\<close> on the anonymous user, \<open>RuntimeError\<close> from a
  session write without a key) is \<open>InternalError\<close>, and the database keeps
  exactly what was committed before it. Form validation
  (\<open>validate_on_submit\<close>, in \<open>forms.py\<close>, which is not part of the sources)
  is abstracted to an optional validated form. Values drawn from the
  environment are request inputs: the salt, \<open>date.today()\<close>. Sessions start empty
  at start-up: cookies that survive a restart are the stale-session case
  of C31. Identifiers are
  \<open>nat\<close> with \<open>next_id\<close> (largest key plus one); \<open>Rowid_Bounds\<close>
  shows this is SQLite's allocation, and that the ids fit a signed 64-bit
  word, for every run of fewer than \<open>2^63 - 1\<close> requests, since each
  request adds at most one row to each table. Past that bound SQLite picks
  random rowids, which is not modelled. The code itself has no loop;
  every definition of it is total and structural (\<open>digits10\<close> recurses on
  \<open>n div 10\<close>, \<open>run\<close> on the request list). The one loop of the
  system is the browser following redirects, which nothing bounds a
  priori: \<open>follow\<close> is a \<open>partial_function\<close> in the option monad (not
  returning is \<open>None\<close>) and C7 proves that it always returns. Witnesses evaluate the model
  with \<open>simp\<close> at concrete data (\<open>demo_db\<close>, \<open>alice\<close>, \<open>bob\<close>,
  \<open>demo_digest\<close> in \<open>Routes\<close>), through the bundles \<open>eval_defs\<close> and
  \<open>strftime_eval\<close>.

  \<^bold>\<open>What is proved.\<close>
  \<^item> Invariants of the reachable states (\<open>App\<close>): the store and session
    invariants (C1), every post's author the stored admin (C17), every
    stored password a werkzeug hash (C39).
  \<^item> Authorization (\<open>Routes\<close>): only the admin changes posts (C2); a
    non-admin gets 403 before any lookup (C3); an anonymous client gets an
    internal error, not 403 (C4); the first registered user is the admin
    (C19); a session naming a missing user gets 404 everywhere, logout
    included (C31).
  \<^item> Each route on its branches (\<open>Routes\<close>): registration (C5, C6, C30),
    login (C8, C9), comments (C14, C15), post creation (C12, C13),
    edit (C16, C32), delete (C10), the listing (C20); registration then
    login across clients (C22, \<open>App\<close>).
  \<^item> Refinement: every write of the store is a step of the abstract store
    of finite maps, and fails exactly when the abstract store refuses it
    (C23, \<open>Store_Spec\<close>); each step of a reachable state refines the
    spec's two-state session automaton and touches only the acting client's
    session (C26).
  \<^item> Runs (\<open>App\<close>): the admin can always log in and publish (C38); a post
    with a comment can never be removed (C40); the requests of other clients
    change neither a client's session nor the user it resolves to (C11);
    every account comes from a registration request of the run, with its
    e-mail and a hash of its password, and no account is changed (C18).
  \<^item> Bounds (\<open>Rowid_Bounds\<close>): after fewer than \<open>2^63 - 1\<close> requests
    every table's next rowid is \<open>next_id\<close> and every id is its own
    signed 64-bit value (C21).
  \<^item> Termination (\<open>Redirects\<close>): serving any request and following its
    redirects returns after at most one GET with a page or an error, in the
    state the request left (C7); the spec's login and registration rows end
    to end: the browser lands on the listing rendered for a logged-in user
    (C27, C28).
  \<^item> Configuration (\<open>Config\<close>): as written the application never starts,
    the database URI being unset (C33); with a URI, start-up succeeds on
    every file, creates the absent tables, keeps existing rows and is
    idempotent (C34); without a secret key registration, login and the post
    page fail with a 500 before touching the database (C35), and nobody can
    ever log in or post (C36).
  \<^item> The date stamp: a parser round trip (C24) and its length bounds (C25);
    rowid reuse of a deleted post's id (C29); every stored comment's avatar
    is the configured Gravatar URL of its author's stored address (C37).

  \<^bold>\<open>Not modelled.\<close> Template rendering (pages are data constructors
    carrying what the handler passes; what the Jinja templates read of
    \<open>current_user\<close> is outside the sources, so is the template-side use
    of the avatar filter), the MD5 digest inside the
    avatar URL (a parameter), CKEditor and Bootstrap (no state the handlers
    read), \<open>app.run\<close>'s server loop
    beyond one request at a time, cookie signing itself, and concurrency:
    requests are served one at a time, each in its own transaction, as the
    spec's serialisation at the store's transaction boundary allows.
    \<open>forms.py\<close> is not in the repository: the forms are taken to be
    Flask-WTF forms with the default CSRF protection, as
    \<open>validate_on_submit\<close> implies, and their validators are abstracted
    to an optional form. werkzeug's key-derivation function is a parameter; the properties that
    need it collision-free say so as a hypothesis. The \<open>String(n)\<close>
    lengths of the columns are not modelled: SQLite does not enforce them.
    The flashed messages are queued in the session; their display and
    removal by \<open>get_flashed_messages\<close> happens in the templates.

  \<^bold>\<open>Plan for what is left.\<close> Every route, query, write and
  configuration step of \<open>src/main.py\<close> is modelled; what remains outside is
  listed above. Further work is on the properties: the listing order as a
  property of the rendered page (the lemma \<open>all_posts_sorted\<close> of
  \<open>Models\<close> gives it), the per-client view of interleaved runs beyond
  isolation (C11), and the hypothesis-free variants of the configuration
  properties once a deployment's environment is fixed.
\<close>


section \<open>Properties spanning components\<close>



end
